theory Spec2Isabelle
  imports Complex_Main "HOL-Library.Multiset"
begin

section \<open>JavaScript values shared by the models\<close>

text \<open>
  A thrown exception is a value: the constructor is the JavaScript error class, the
  argument its \<open>message\<close>.  A function that may throw returns \<open>js_error + 'a\<close>
  with \<open>Inl\<close> for the exception.
\<close>

datatype js_error = Error string | TypeError string | RangeError string | SyntaxError string

fun message :: "js_error \<Rightarrow> string" where
  "message (Error m) = m"
| "message (TypeError m) = m"
| "message (RangeError m) = m"
| "message (SyntaxError m) = m"

text \<open>
  Reading an array slot: \<open>xs[i]\<close> is \<open>undefined\<close> (here \<open>None\<close>) when \<open>i\<close> is
  not an index of the array.
\<close>

definition js_nth :: "'a list \<Rightarrow> nat \<Rightarrow> 'a option" where
  "js_nth xs i = (if i < length xs then Some (xs ! i) else None)"

section \<open>Worker pool: \<open>ThreadPool\<close> and the worker's message handler\<close>

text \<open>
  A worker thread is modelled by its \<open>dbCache\<close>, the paths of the database handles it
  has opened (the keys of the \<open>Map\<close> in the worker script, in insertion order).
\<close>

record worker =
  dbCache :: "string list"

record task =
  task_id :: nat
  task_dbPath :: string
  task_sql :: string

text \<open>
  The worker's \<open>parentPort.on('message')\<close> handler, action \<open>query\<close>: the database at
  \<open>task.dbPath\<close> is opened in this thread unless the cache already holds it.
\<close>

definition worker_on_query :: "worker \<Rightarrow> task \<Rightarrow> worker" where
  "worker_on_query w t =
     (if task_dbPath t \<in> set (dbCache w) then w
      else w\<lparr>dbCache := dbCache w @ [task_dbPath t]\<rparr>)"

text \<open>The action \<open>close\<close> closes every handle and clears the cache.\<close>

definition worker_on_close :: "worker \<Rightarrow> worker" where
  "worker_on_close w = w\<lparr>dbCache := []\<rparr>"

text \<open>
  The coordinator.  A slot of \<open>workers\<close> is \<open>None\<close> while no \<open>Worker\<close> object is
  stored there.  \<open>pendingRequests\<close> maps a request id to the index of its worker.
\<close>

record thread_pool =
  workerCount :: nat
  workers :: "worker option list"
  isReady :: bool
  pendingRequests :: "(nat \<times> nat) list"
  requestIdCounter :: nat
  workerStats :: "nat list"
  activeTasks :: "nat list"

text \<open>
  The constructor, for the number \<open>n\<close> of workers that it settles on,
  \<open>workerCount || os.cpus().length\<close>: the argument, or the number of processors when
  the argument is \<open>0\<close> or absent.
\<close>

definition new_pool :: "nat \<Rightarrow> thread_pool" where
  "new_pool n =
     \<lparr>workerCount = n, workers = replicate n None, isReady = False,
      pendingRequests = [], requestIdCounter = 0,
      workerStats = replicate n 0, activeTasks = replicate n 0\<rparr>"

definition start :: "thread_pool \<Rightarrow> thread_pool" where
  "start p =
     p\<lparr>workers := map (\<lambda>i. Some \<lparr>dbCache = []\<rparr>) [0..<workerCount p], isReady := True\<rparr>"

definition worker_exists :: "thread_pool \<Rightarrow> nat \<Rightarrow> bool" where
  "worker_exists p i = (case js_nth (workers p) i of Some (Some w) \<Rightarrow> True | _ \<Rightarrow> False)"

text \<open>
  \<open>_getBestWorker\<close>: one pass over the indices \<open>0 .. workerCount - 1\<close>.  The loop
  state is \<open>(minLoad, bestIndex)\<close>; \<open>minLoad = None\<close> stands for \<open>Infinity\<close>.  A
  slot without a worker is skipped; \<open>load < minLoad\<close> is strict, so an equal load
  never replaces an earlier index.
\<close>

definition best_step :: "thread_pool \<Rightarrow> nat \<Rightarrow> nat option \<times> nat \<Rightarrow> nat option \<times> nat" where
  "best_step p i st =
     (if worker_exists p i then
        (case js_nth (activeTasks p) i of
           None \<Rightarrow> st
         | Some load \<Rightarrow>
             (case fst st of
                None \<Rightarrow> (Some load, i)
              | Some m \<Rightarrow> if load < m then (Some load, i) else st))
      else st)"

definition getBestWorker :: "thread_pool \<Rightarrow> nat" where
  "getBestWorker p = snd (fold (best_step p) [0..<workerCount p] (None, 0))"

text \<open>
  \<open>execute\<close>: the task goes to the worker \<open>_getBestWorker\<close> returns; \<open>dbPath\<close> is
  only copied into the message.  The result is the new pool and the index of the worker
  the message was posted to.  Posting is modelled by the worker handling the message.
\<close>

definition execute :: "thread_pool \<Rightarrow> string \<Rightarrow> string \<Rightarrow> js_error + (thread_pool \<times> nat)" where
  "execute p path q =
     (if \<not> isReady p then Inl (Error ''ThreadPool not started'')
      else
        let workerIndex = getBestWorker p in
        (case js_nth (workers p) workerIndex of
           Some (Some w) \<Rightarrow>
             let ident = requestIdCounter p + 1;
                 t = \<lparr>task_id = ident, task_dbPath = path, task_sql = q\<rparr>
             in Inr (p\<lparr>workerStats := (workerStats p)[workerIndex := workerStats p ! workerIndex + 1],
                       activeTasks := (activeTasks p)[workerIndex := activeTasks p ! workerIndex + 1],
                       requestIdCounter := ident,
                       pendingRequests := pendingRequests p @ [(ident, workerIndex)],
                       workers := (workers p)[workerIndex := Some (worker_on_query w t)]\<rparr>,
                     workerIndex)
         | _ \<Rightarrow> Inl (Error ''Worker unavailable (restarting)'')))"

text \<open>
  \<open>_handleMessage\<close>: the reply to request \<open>ident\<close>; the load of its worker goes down
  by one, never below zero.  An unknown id (timed out) changes nothing.
\<close>

definition handleMessage :: "thread_pool \<Rightarrow> nat \<Rightarrow> thread_pool" where
  "handleMessage p ident =
     (case map_of (pendingRequests p) ident of
        None \<Rightarrow> p
      | Some wi \<Rightarrow>
          p\<lparr>pendingRequests := filter (\<lambda>r. fst r \<noteq> ident) (pendingRequests p),
            activeTasks :=
              (if wi < length (activeTasks p) \<and> activeTasks p ! wi > 0
               then (activeTasks p)[wi := activeTasks p ! wi - 1] else activeTasks p)\<rparr>)"

text \<open>The path \<open>path\<close> is open in worker \<open>i\<close>.\<close>

definition opened_in :: "thread_pool \<Rightarrow> string \<Rightarrow> nat \<Rightarrow> bool" where
  "opened_in p path i =
     (case js_nth (workers p) i of Some (Some w) \<Rightarrow> path \<in> set (dbCache w) | _ \<Rightarrow> False)"

text \<open>The worker a query against \<open>path\<close> is routed to, if any.\<close>

definition routed_to :: "thread_pool \<Rightarrow> string \<Rightarrow> string \<Rightarrow> nat option" where
  "routed_to p path q = (case execute p path q of Inl e \<Rightarrow> None | Inr r \<Rightarrow> Some (snd r))"

section \<open>Properties of the worker pool\<close>

lemma best_fold_inv:
  assumes len: "n \<le> length (activeTasks p)"
  shows "case fold (best_step p) [0..<n] (None, 0) of
           (m, b) \<Rightarrow>
             (m = None \<longrightarrow> b = 0 \<and> (\<forall>j<n. \<not> worker_exists p j)) \<and>
             (\<forall>l. m = Some l \<longrightarrow>
                b < n \<and> worker_exists p b \<and> l = activeTasks p ! b \<and>
                (\<forall>j<n. worker_exists p j \<longrightarrow>
                   l \<le> activeTasks p ! j \<and> (activeTasks p ! j = l \<longrightarrow> b \<le> j)))"
  using len
proof (induction n)
  case 0
  then show ?case by simp
next
  case (Suc n)
  obtain m b where mb: "fold (best_step p) [0..<n] (None, 0) = (m, b)"
    by (cases "fold (best_step p) [0..<n] (None, 0)") auto
  from Suc have nlen: "n < length (activeTasks p)" and n_le: "n \<le> length (activeTasks p)"
    by auto
  from Suc.IH [OF n_le] mb
  have none: "m = None \<Longrightarrow> b = 0 \<and> (\<forall>j<n. \<not> worker_exists p j)"
    and some: "\<And>l. m = Some l \<Longrightarrow>
                b < n \<and> worker_exists p b \<and> l = activeTasks p ! b \<and>
                (\<forall>j<n. worker_exists p j \<longrightarrow>
                   l \<le> activeTasks p ! j \<and> (activeTasks p ! j = l \<longrightarrow> b \<le> j))"
    by auto
  have step: "fold (best_step p) [0..<Suc n] (None, 0) = best_step p n (m, b)"
    by (simp add: mb)
  show ?case
  proof (cases "worker_exists p n")
    case False
    then have "best_step p n (m, b) = (m, b)" by (simp add: best_step_def)
    with step have eq: "fold (best_step p) [0..<Suc n] (None, 0) = (m, b)" by simp
    show ?thesis
      unfolding eq using none some False
      by (cases m) (auto simp: less_Suc_eq)
  next
    case True
    have nth: "js_nth (activeTasks p) n = Some (activeTasks p ! n)"
      using nlen by (simp add: js_nth_def)
    show ?thesis
    proof (cases m)
      case None
      then have "best_step p n (m, b) = (Some (activeTasks p ! n), n)"
        using True nth by (simp add: best_step_def)
      with step have eq: "fold (best_step p) [0..<Suc n] (None, 0) = (Some (activeTasks p ! n), n)"
        by simp
      show ?thesis
        unfolding eq using none [OF None] True
        by (auto simp: less_Suc_eq)
    next
      case (Some l)
      note sl = some [OF Some]
      show ?thesis
      proof (cases "activeTasks p ! n < l")
        case True
        then have "best_step p n (m, b) = (Some (activeTasks p ! n), n)"
          using \<open>worker_exists p n\<close> nth Some by (simp add: best_step_def)
        with step have eq: "fold (best_step p) [0..<Suc n] (None, 0) = (Some (activeTasks p ! n), n)"
          by simp
        show ?thesis
          unfolding eq using sl True \<open>worker_exists p n\<close>
          by (auto simp: less_Suc_eq)
      next
        case False
        then have "best_step p n (m, b) = (m, b)"
          using \<open>worker_exists p n\<close> nth Some by (simp add: best_step_def)
        with step have eq: "fold (best_step p) [0..<Suc n] (None, 0) = (Some l, b)"
          using Some by simp
        show ?thesis
          unfolding eq using sl False \<open>worker_exists p n\<close>
          by (auto simp: less_Suc_eq)
      qed
    qed
  qed
qed

lemma getBestWorker_least_busy:
  assumes len: "length (activeTasks p) = workerCount p"
    and ex: "worker_exists p (getBestWorker p)"
    and j: "j < workerCount p" "worker_exists p j"
  shows "activeTasks p ! getBestWorker p \<le> activeTasks p ! j \<and>
         (activeTasks p ! j = activeTasks p ! getBestWorker p \<longrightarrow> getBestWorker p \<le> j)"
proof -
  obtain m b where mb: "fold (best_step p) [0..<workerCount p] (None, 0) = (m, b)"
    by (cases "fold (best_step p) [0..<workerCount p] (None, 0)") auto
  have b: "getBestWorker p = b" by (simp add: getBestWorker_def mb)
  have inv: "(m = None \<longrightarrow> b = 0 \<and> (\<forall>j<workerCount p. \<not> worker_exists p j)) \<and>
             (\<forall>l. m = Some l \<longrightarrow>
                b < workerCount p \<and> worker_exists p b \<and> l = activeTasks p ! b \<and>
                (\<forall>j<workerCount p. worker_exists p j \<longrightarrow>
                   l \<le> activeTasks p ! j \<and> (activeTasks p ! j = l \<longrightarrow> b \<le> j)))"
    using best_fold_inv [of "workerCount p" p] len mb by simp
  show ?thesis
  proof (cases m)
    case None
    with inv j show ?thesis by auto
  next
    case (Some l)
    with inv j show ?thesis unfolding b by auto
  qed
qed

lemma execute_worker:
  assumes "execute p path q = Inr (p', w)"
  shows "w = getBestWorker p \<and> worker_exists p w"
  using assms
  by (auto simp: execute_def Let_def worker_exists_def split: if_splits option.splits)

text \<open>
  C1 (as the code has it).  Routing is least-busy and nothing else: a dispatched query
  goes to a live worker whose active-task count is minimal among the live workers, the
  lowest index winning a tie, and the choice is the same for every database path.
\<close>

theorem execute_least_busy:
  assumes "length (activeTasks p) = workerCount p"
    and "execute p path q = Inr (p', w)"
  shows "worker_exists p w \<and>
         (\<forall>j<workerCount p. worker_exists p j \<longrightarrow>
            activeTasks p ! w \<le> activeTasks p ! j \<and>
            (activeTasks p ! j = activeTasks p ! w \<longrightarrow> w \<le> j)) \<and>
         (\<forall>path' q'. routed_to p path' q' = Some w)"
proof -
  from execute_worker [OF assms(2)] have w: "w = getBestWorker p" and ex: "worker_exists p w"
    by auto
  have least: "\<forall>j<workerCount p. worker_exists p j \<longrightarrow>
            activeTasks p ! w \<le> activeTasks p ! j \<and>
            (activeTasks p ! j = activeTasks p ! w \<longrightarrow> w \<le> j)"
    using getBestWorker_least_busy [OF assms(1)] ex unfolding w by blast
  have ready: "isReady p"
    using assms(2) by (auto simp: execute_def split: if_splits)
  have "routed_to p path' q' = Some w" for path' q'
    using ex ready unfolding w
    by (auto simp: routed_to_def execute_def Let_def worker_exists_def split: option.splits)
  with ex least show ?thesis by blast
qed

definition pool2 :: thread_pool where
  "pool2 = start (new_pool 2)"

definition pool2_busy :: thread_pool where
  "pool2_busy = (case execute pool2 ''/data/db1.sawit'' ''SELECT * FROM t'' of
                   Inr r \<Rightarrow> fst r | Inl e \<Rightarrow> pool2)"

lemma pool2_first:
  "execute pool2 ''/data/db1.sawit'' ''SELECT * FROM t'' = Inr (pool2_busy, 0)"
  by (simp add: pool2_busy_def pool2_def start_def new_pool_def execute_def getBestWorker_def
      best_step_def worker_exists_def js_nth_def worker_on_query_def Let_def upt_rec
      numeral_2_eq_2)

lemma pool2_busy_eq:
  "pool2_busy =
     \<lparr>workerCount = 2,
      workers = [Some \<lparr>dbCache = [''/data/db1.sawit'']\<rparr>, Some \<lparr>dbCache = []\<rparr>],
      isReady = True, pendingRequests = [(1, 0)], requestIdCounter = 1,
      workerStats = [1, 0], activeTasks = [1, 0]\<rparr>"
  by (simp add: pool2_busy_def pool2_def start_def new_pool_def execute_def getBestWorker_def
      best_step_def worker_exists_def js_nth_def worker_on_query_def Let_def upt_rec
      numeral_2_eq_2)

theorem execute_least_busy_witness:
  "length (activeTasks pool2) = workerCount pool2 \<and>
   execute pool2 ''/data/db1.sawit'' ''SELECT * FROM t'' = Inr (pool2_busy, 0) \<and>
   worker_exists pool2 0 \<and> worker_exists pool2 1 \<and>
   activeTasks pool2 ! 0 \<le> activeTasks pool2 ! 1 \<and>
   routed_to pool2 ''/data/db2.sawit'' ''SELECT * FROM u'' = Some 0"
proof -
  have len: "length (activeTasks pool2) = workerCount pool2"
    by (simp add: pool2_def start_def new_pool_def)
  have w1: "worker_exists pool2 1" and n: "(1::nat) < workerCount pool2"
    by (simp_all add: pool2_def start_def new_pool_def worker_exists_def js_nth_def upt_rec
        numeral_2_eq_2)
  show ?thesis
    using execute_least_busy [OF len pool2_first] len pool2_first w1 n by blast
qed

text \<open>
  C1 (as stated) fails.  In a pool of two idle workers the first query against
  \<open>/data/db1.sawit\<close> goes to worker 0, which opens the file; while that query is
  still running, the next query against the same path goes to worker 1.
\<close>

theorem sticky_routing_counterexample:
  "opened_in pool2_busy ''/data/db1.sawit'' 0 \<and>
   routed_to pool2_busy ''/data/db1.sawit'' ''SELECT * FROM t'' = Some 1"
  by (simp add: pool2_busy_eq opened_in_def routed_to_def execute_def getBestWorker_def
      best_step_def worker_exists_def js_nth_def worker_on_query_def Let_def upt_rec
      numeral_2_eq_2)

section \<open>Strings, tokens and the tokenizer of \<open>QueryParser\<close>\<close>

text \<open>
  A JavaScript string is modelled as a list of 8-bit characters (code units below 256).
  \<open>toUpperCase\<close> maps the letters \<open>a\<close> to \<open>z\<close>; the parser only ever compares
  an upper-cased token with an ASCII keyword.
\<close>

definition lower_letters :: string where
  "lower_letters = ''abcdefghijklmnopqrstuvwxyz''"

definition upper_letters :: string where
  "upper_letters = ''ABCDEFGHIJKLMNOPQRSTUVWXYZ''"

definition decimal_digits :: string where
  "decimal_digits = ''0123456789''"

definition toUpper_char :: "char \<Rightarrow> char" where
  "toUpper_char c = (case map_of (zip lower_letters upper_letters) c of Some u \<Rightarrow> u | None \<Rightarrow> c)"

definition toUpperCase :: "string \<Rightarrow> string" where
  "toUpperCase s = map toUpper_char s"

definition is_space :: "char \<Rightarrow> bool" where
  "is_space c = ((of_char c :: nat) \<in> {9, 10, 11, 12, 13, 32, 160})"

definition is_line_terminator :: "char \<Rightarrow> bool" where
  "is_line_terminator c = ((of_char c :: nat) \<in> {10, 13})"

definition is_digit :: "char \<Rightarrow> bool" where
  "is_digit c = (c \<in> set decimal_digits)"

definition is_ident_start :: "char \<Rightarrow> bool" where
  "is_ident_start c = (c \<in> set lower_letters \<or> c \<in> set upper_letters \<or> c = CHR ''_'')"

definition is_word :: "char \<Rightarrow> bool" where
  "is_word c = (is_ident_start c \<or> is_digit c)"

text \<open>
  \<open>tokenize\<close> runs the regular expression
  \<^verbatim>\<open>\s*(=>|!=|>=|<=|<>|IDENT|@\w+|-?\d+(?:\.\d+)?|'...'|"..."|[(),=*.<>?])\s*\<close>
  with the \<open>g\<close> flag until it no longer matches.  Each alternative is a function that
  returns the text the alternative matches at the head of its input; the alternatives are
  tried in the order of the expression.  A quoted string ends at the first quote that is
  not escaped by a backslash; a backslash cannot escape a line terminator.
\<close>

definition match_op2 :: "string \<Rightarrow> string option" where
  "match_op2 s =
     (if take 2 s \<in> set [''=>'', ''!='', ''>='', ''<='', ''<>''] then Some (take 2 s) else None)"

definition match_ident :: "string \<Rightarrow> string option" where
  "match_ident s =
     (case s of
        [] \<Rightarrow> None
      | c # cs \<Rightarrow>
          if is_ident_start c then
            (let w = takeWhile is_word cs in
             case dropWhile is_word cs of
               d # e # es \<Rightarrow>
                 if d = CHR ''.'' \<and> is_ident_start e
                 then Some (c # w @ d # e # takeWhile is_word es)
                 else Some (c # w)
             | _ \<Rightarrow> Some (c # w))
          else None)"

definition match_param :: "string \<Rightarrow> string option" where
  "match_param s =
     (case s of
        [] \<Rightarrow> None
      | c # cs \<Rightarrow>
          if c = CHR ''@'' \<and> takeWhile is_word cs \<noteq> []
          then Some (c # takeWhile is_word cs)
          else None)"

definition match_number :: "string \<Rightarrow> string option" where
  "match_number s =
     (let sgn = (case s of c # cs \<Rightarrow> if c = CHR ''-'' then [c] else [] | [] \<Rightarrow> []);
          r0 = drop (length sgn) s;
          ds = takeWhile is_digit r0
      in if ds = [] then None
         else
           (case dropWhile is_digit r0 of
              d # r2 \<Rightarrow>
                if d = CHR ''.'' \<and> takeWhile is_digit r2 \<noteq> []
                then Some (sgn @ ds @ d # takeWhile is_digit r2)
                else Some (sgn @ ds)
            | [] \<Rightarrow> Some (sgn @ ds)))"

fun scan_quoted :: "char \<Rightarrow> string \<Rightarrow> string option" where
  "scan_quoted q [] = None"
| "scan_quoted q (c # cs) =
     (if c = q then Some [c]
      else if c = CHR 0x5C then
        (case cs of
           [] \<Rightarrow> None
         | d # ds \<Rightarrow>
             if is_line_terminator d then None
             else map_option (\<lambda>b. c # d # b) (scan_quoted q ds))
      else map_option (\<lambda>b. c # b) (scan_quoted q cs))"

definition match_quoted :: "char \<Rightarrow> string \<Rightarrow> string option" where
  "match_quoted q s =
     (case s of
        [] \<Rightarrow> None
      | c # cs \<Rightarrow> if c = q then map_option (\<lambda>b. c # b) (scan_quoted q cs) else None)"

definition match_punct :: "string \<Rightarrow> string option" where
  "match_punct s =
     (case s of
        [] \<Rightarrow> None
      | c # cs \<Rightarrow> if c \<in> set ''(),=*.<>?'' then Some [c] else None)"

definition match_token :: "string \<Rightarrow> string option" where
  "match_token s =
     (case List.map_filter (\<lambda>m. m s)
             [match_op2, match_ident, match_param, match_number,
              match_quoted (CHR 0x27), match_quoted (CHR 0x22), match_punct] of
        [] \<Rightarrow> None
      | t # _ \<Rightarrow> Some t)"

lemma match_token_nonempty: "match_token (c # cs) = Some t \<Longrightarrow> t \<noteq> []"
  unfolding match_token_def
  by (auto simp: List.map_filter_def match_op2_def match_ident_def match_param_def
      match_number_def match_quoted_def match_punct_def Let_def
      split: list.splits option.splits if_splits)

text \<open>
  One \<open>exec\<close> skips white space and matches a token at the first position where one
  matches: a position where none matches is skipped, so are characters that start no
  token.
\<close>

function tokenize :: "string \<Rightarrow> string list" where
  "tokenize s =
     (case dropWhile is_space s of
        [] \<Rightarrow> []
      | c # cs \<Rightarrow>
          (case match_token (c # cs) of
             Some t \<Rightarrow> t # tokenize (drop (length t) (c # cs))
           | None \<Rightarrow> tokenize (tl s)))"
  by pat_completeness auto
termination
proof (relation "measure length")
  show "wf (measure length)" by simp
next
  fix s c cs t
  assume d: "dropWhile is_space s = c # cs" and m: "match_token (c # cs) = Some t"
  have "length (dropWhile is_space s) \<le> length s" by (rule length_dropWhile_le)
  moreover from m have "t \<noteq> []" by (rule match_token_nonempty)
  ultimately show "(drop (length t) (c # cs), s) \<in> measure length"
    using d by (cases t) auto
next
  fix s c cs
  assume "dropWhile is_space s = c # cs"
  then have "s \<noteq> []" by auto
  then show "(tl s, s) \<in> measure length" by (cases s) auto
qed

declare tokenize.simps [simp del]


section \<open>Numbers and values\<close>

text \<open>
  A JavaScript number is modelled by its exact value: a rational, \<open>NaN\<close> or an
  infinity.  The rounding of a literal to a double is not modelled.
\<close>

datatype jsnum = Fin rat | NaN | PosInfinity | NegInfinity

datatype jsval =
    VUndefined
  | VNull
  | VBool bool
  | VNum jsnum
  | VStr string
  | VArr "jsval list"
  | VObj "(string \<times> jsval) list"
  | VFun string
  | VPromise "js_error + jsval"

text \<open>
  \<open>VFun name\<close> is a built-in function object: the member \<open>name\<close> of
  \<open>Object.prototype\<close>, such as \<open>Object.prototype.toString\<close>, and \<open>VFun ''Object''\<close>
  its constructor.  The model has no other functions.
  \<open>VPromise r\<close> is a promise that settles as \<open>r\<close>: rejected with an error or
  fulfilled with a value.
\<close>

definition digit_val :: "char \<Rightarrow> nat" where
  "digit_val c = (case map_of (zip decimal_digits [0..<10]) c of Some d \<Rightarrow> d | None \<Rightarrow> 0)"

definition dec_val :: "string \<Rightarrow> nat" where
  "dec_val ds = foldl (\<lambda>a c. 10 * a + digit_val c) 0 ds"

definition trim :: "string \<Rightarrow> string" where
  "trim s = rev (dropWhile is_space (rev (dropWhile is_space s)))"

text \<open>The exponent part of a decimal literal (\<open>e\<close>, a sign, digits), or nothing.\<close>

definition exponent_part :: "string \<Rightarrow> int option" where
  "exponent_part s =
     (case s of
        [] \<Rightarrow> Some 0
      | c # cs \<Rightarrow>
          if c = CHR ''e'' \<or> c = CHR ''E'' then
            (let neg = (case cs of d # r \<Rightarrow> d = CHR ''-'' | [] \<Rightarrow> False);
                 ds = (case cs of d # r \<Rightarrow> if d = CHR ''-'' \<or> d = CHR ''+'' then r else cs | [] \<Rightarrow> [])
             in if ds \<noteq> [] \<and> list_all is_digit ds
                then Some (if neg then - int (dec_val ds) else int (dec_val ds))
                else None)
          else None)"

definition scale10 :: "rat \<Rightarrow> int \<Rightarrow> rat" where
  "scale10 x e = (if e < 0 then x / 10 ^ nat (- e) else x * 10 ^ nat e)"

text \<open>
  An unsigned decimal literal: digits, an optional point with digits, an optional exponent;
  at least one digit before or after the point.
\<close>

definition unsigned_decimal :: "string \<Rightarrow> jsnum" where
  "unsigned_decimal s =
     (if s = ''Infinity'' then PosInfinity
      else
        let ip = takeWhile is_digit s;
            r = dropWhile is_digit s;
            dot = (case r of c # cs \<Rightarrow> c = CHR ''.'' | [] \<Rightarrow> False);
            fp = (if dot then takeWhile is_digit (tl r) else []);
            r' = (if dot then dropWhile is_digit (tl r) else r)
        in if ip = [] \<and> fp = [] then NaN
           else (case exponent_part r' of
                   None \<Rightarrow> NaN
                 | Some e \<Rightarrow>
                     Fin (scale10 (of_nat (dec_val ip) + of_nat (dec_val fp) / 10 ^ length fp) e)))"

definition negate :: "jsnum \<Rightarrow> jsnum" where
  "negate n = (case n of Fin x \<Rightarrow> Fin (- x) | NaN \<Rightarrow> NaN
               | PosInfinity \<Rightarrow> NegInfinity | NegInfinity \<Rightarrow> PosInfinity)"

definition radix_val :: "nat \<Rightarrow> string \<Rightarrow> string \<Rightarrow> jsnum" where
  "radix_val b alphabet ds =
     (if ds \<noteq> [] \<and> list_all (\<lambda>c. c \<in> set alphabet) (map toUpper_char ds)
      then Fin (of_nat (foldl (\<lambda>a c. b * a + (case map_of (zip alphabet [0..<b]) c of Some d \<Rightarrow> d | None \<Rightarrow> 0))
                          0 (map toUpper_char ds)))
      else NaN)"

text \<open>
  \<open>Number(s)\<close> for a string: white space is trimmed, the empty string is zero, then a
  hexadecimal, octal or binary integer, or a signed decimal literal; anything else is
  \<open>NaN\<close>.
\<close>

definition StringToNumber :: "string \<Rightarrow> jsnum" where
  "StringToNumber s =
     (let t = trim s in
      if t = [] then Fin 0
      else if take 2 t \<in> set [''0x'', ''0X''] then radix_val 16 ''0123456789ABCDEF'' (drop 2 t)
      else if take 2 t \<in> set [''0o'', ''0O''] then radix_val 8 ''01234567'' (drop 2 t)
      else if take 2 t \<in> set [''0b'', ''0B''] then radix_val 2 ''01'' (drop 2 t)
      else if hd t = CHR ''-'' then negate (unsigned_decimal (tl t))
      else if hd t = CHR ''+'' then unsigned_decimal (tl t)
      else unsigned_decimal t)"

text \<open>
  \<open>Number(v)\<close> for a value.  An array is first turned into the string of its elements
  joined by commas, an object into \<open>[object Object]\<close>.
\<close>

fun ToNumber :: "jsval \<Rightarrow> jsnum" where
  "ToNumber VUndefined = NaN"
| "ToNumber VNull = Fin 0"
| "ToNumber (VBool b) = Fin (if b then 1 else 0)"
| "ToNumber (VNum n) = n"
| "ToNumber (VStr s) = StringToNumber s"
| "ToNumber (VArr []) = Fin 0"
| "ToNumber (VArr [x]) =
     (case x of VUndefined \<Rightarrow> Fin 0 | VNull \<Rightarrow> Fin 0 | VBool b \<Rightarrow> NaN | _ \<Rightarrow> ToNumber x)"
| "ToNumber (VArr (x # y # zs)) = NaN"
| "ToNumber (VObj kvs) = NaN"
| "ToNumber (VFun name) = NaN"
| "ToNumber (VPromise r) = NaN"

definition isNaN :: "jsval \<Rightarrow> bool" where
  "isNaN v = (ToNumber v = NaN)"

text \<open>\<open>parseInt(t, 10)\<close> of a token or of \<open>undefined\<close>.\<close>

definition parseInt10 :: "string option \<Rightarrow> jsnum" where
  "parseInt10 t =
     (case t of
        None \<Rightarrow> NaN
      | Some s \<Rightarrow>
          (let u = dropWhile is_space s;
               neg = (case u of c # cs \<Rightarrow> c = CHR ''-'' | [] \<Rightarrow> False);
               r = (case u of c # cs \<Rightarrow> if c = CHR ''-'' \<or> c = CHR ''+'' then cs else u | [] \<Rightarrow> []);
               ds = takeWhile is_digit r
           in if ds = [] then NaN
              else Fin (if neg then - of_nat (dec_val ds) else of_nat (dec_val ds))))"

text \<open>
  Strict equality \<open>===\<close> on the values of the model.  Arrays, objects and functions are
  compared by structure here and by identity in the language: two values that differ
  here differ there, and for the other values the two agree.
\<close>

definition strict_eq :: "jsval \<Rightarrow> jsval \<Rightarrow> bool" where
  "strict_eq a b = (a = b \<and> a \<noteq> VNum NaN)"

section \<open>The command records of \<open>QueryParser\<close>\<close>

text \<open>
  A node of a criteria tree.  \<open>Cond key op val\<close> is \<open>{type: 'cond', key, op, val}\<close>,
  \<open>Logic op\<close> is \<open>{type: 'logic', op}\<close>, \<open>Compound logic conditions\<close> is
  \<open>{type: 'compound', logic, conditions}\<close>, and \<open>NoCond\<close> is an array slot that
  holds \<open>undefined\<close>.
\<close>

datatype criteria =
    Cond string string jsval
  | Logic string
  | Compound string "criteria list"
  | NoCond

fun crit_op :: "criteria \<Rightarrow> string option" where
  "crit_op (Cond k op v) = Some op"
| "crit_op (Logic op) = Some op"
| "crit_op (Compound l cs) = None"
| "crit_op NoCond = None"

definition bindE :: "'e + 'a \<Rightarrow> ('a \<Rightarrow> 'e + 'b) \<Rightarrow> 'e + 'b" where
  "bindE m f = (case m of Inl e \<Rightarrow> Inl e | Inr x \<Rightarrow> f x)"

lemma bindE_simps [simp]: "bindE (Inl e) f = Inl e" "bindE (Inr x) f = f x"
  by (simp_all add: bindE_def)

text \<open>Reading a property of \<open>undefined\<close> throws this \<open>TypeError\<close>.\<close>

definition undefined_read :: "string \<Rightarrow> js_error" where
  "undefined_read prop =
     TypeError (''Cannot read properties of undefined (reading '' @ [CHR 0x27] @ prop @ [CHR 0x27] @ '')'')"

text \<open>\<open>tokens[i].toUpperCase()\<close>, which throws when the slot is empty.\<close>

definition upper_at :: "string list \<Rightarrow> nat \<Rightarrow> js_error + string" where
  "upper_at tokens i =
     (case js_nth tokens i of
        None \<Rightarrow> Inl (undefined_read ''toUpperCase'')
      | Some t \<Rightarrow> Inr (toUpperCase t))"

text \<open>\<open>tokens[i] && kws.includes(tokens[i].toUpperCase())\<close>, which never throws.\<close>

definition upper_in :: "string list \<Rightarrow> nat \<Rightarrow> string list \<Rightarrow> bool" where
  "upper_in tokens i kws =
     (case js_nth tokens i of None \<Rightarrow> False | Some t \<Rightarrow> toUpperCase t \<in> set kws)"

definition starts_with_quote :: "string \<Rightarrow> bool" where
  "starts_with_quote s = (case s of [] \<Rightarrow> False | c # cs \<Rightarrow> c = CHR 0x27 \<or> c = CHR 0x22)"

text \<open>\<open>s.slice(1, -1)\<close>.\<close>

definition slice1 :: "string \<Rightarrow> string" where
  "slice1 s = butlast (tl s)"

text \<open>
  The value of a token: a quoted token loses its quotes, a numeric token becomes a
  number, any other token stays a string.  (\<open>v.startsWith\<close> was already safe to call.)
\<close>

definition token_value :: "string \<Rightarrow> jsval" where
  "token_value v =
     (if starts_with_quote v then VStr (slice1 v)
      else if \<not> isNaN (VStr v) then VNum (StringToNumber v)
      else VStr v)"

text \<open>
  The value after an ordinary operator:
  \<open>if (val && quoted) ... else if (val && !isNaN(val)) ...\<close>.
\<close>

definition normal_val :: "string option \<Rightarrow> jsval" where
  "normal_val t =
     (case t of
        None \<Rightarrow> VUndefined
      | Some v \<Rightarrow> if v = [] then VStr v else token_value v)"

text \<open>
  A bound of \<open>BETWEEN\<close>: \<open>if (v && quoted) ... else if (!isNaN(v)) ...\<close>.
\<close>

definition between_val :: "string option \<Rightarrow> jsval" where
  "between_val t = (case t of None \<Rightarrow> VUndefined | Some v \<Rightarrow> token_value v)"

datatype 'a loop_step = Continue 'a | Break 'a | Throw js_error

section \<open>\<open>parseWhere\<close>\<close>

text \<open>The values of an \<open>IN (...)\<close> list, from the token after the parenthesis.\<close>

function in_values :: "string list \<Rightarrow> nat \<Rightarrow> jsval list \<Rightarrow> js_error + (nat \<times> jsval list)" where
  "in_values tokens p vals =
     (case js_nth tokens p of
        None \<Rightarrow> Inl (undefined_read ''startsWith'')
      | Some t \<Rightarrow>
          if t = '')'' then Inr (p, vals)
          else if length tokens \<le> p + 1
          then Inr (p + 1, if t \<noteq> '','' then vals @ [token_value t] else vals)
          else in_values tokens (p + 1) (if t \<noteq> '','' then vals @ [token_value t] else vals))"
  by pat_completeness auto
termination
  by (relation "measure (\<lambda>(tokens, p, vals). length tokens - p)") auto

declare in_values.simps [simp del]

text \<open>
  The first chain of tests on the operator: \<open>BETWEEN\<close> and \<open>IS\<close> push their
  condition here.  The result is the operator, the conditions so far and \<open>consumed\<close>.
\<close>

definition where_special ::
  "string list \<Rightarrow> nat \<Rightarrow> string \<Rightarrow> string \<Rightarrow> criteria list \<Rightarrow> js_error + (string \<times> criteria list \<times> nat)" where
  "where_special tokens i key op sc =
     (if op = ''BETWEEN'' \<or> op = ''ANTARA'' then
        bindE (upper_at tokens (i + 3)) (\<lambda>connector.
          if connector \<noteq> ''AND'' \<and> connector \<noteq> ''DAN''
          then Inl (Error ''Syntax: ... BETWEEN val1 AND val2'')
          else Inr (''BETWEEN'',
                    sc @ [Cond key ''BETWEEN''
                            (VArr [between_val (js_nth tokens (i + 2)), between_val (js_nth tokens (i + 4))])],
                    5))
      else if op = ''IS'' then
        bindE (upper_at tokens (i + 2)) (\<lambda>next.
          if next = ''NULL'' \<or> next = ''KOSONG''
          then Inr (op, sc @ [Cond key ''IS NULL'' VNull], 3)
          else if next = ''NOT'' \<or> next = ''TIDAK'' then
            bindE (upper_at tokens (i + 3)) (\<lambda>next2.
              if next2 = ''NULL'' \<or> next2 = ''KOSONG''
              then Inr (op, sc @ [Cond key ''IS NOT NULL'' VNull], 4)
              else Inl (Error ''Syntax: IS NOT NULL''))
          else Inl (Error ''Syntax: IS NULL or IS NOT NULL''))
      else Inr (op, sc, 2))"

text \<open>
  The second test on the operator, which follows the first chain for every operator:
  the \<open>IN\<close> family, else the ordinary operators.  So after \<open>BETWEEN\<close> and \<open>IS\<close>
  have pushed their condition, the ordinary branch pushes a second one and sets
  \<open>consumed\<close> to 3.
\<close>

definition where_cond ::
  "string list \<Rightarrow> nat \<Rightarrow> string \<Rightarrow> string \<Rightarrow> criteria list \<Rightarrow> nat \<Rightarrow> (nat \<times> criteria list) loop_step" where
  "where_cond tokens i key op sc consumed =
     (if op \<in> set [''IN'', ''DALAM'', ''NOT'', ''TIDAK''] then
        (let isNot = (op = ''NOT'' \<or> op = ''TIDAK'');
             p = (if isNot then i + 3 else i + 2);
             finalOp = (if isNot then ''NOT IN'' else ''IN'');
             consumed' = (if isNot then consumed + 1 else consumed);
             body =
               (if js_nth tokens p = Some ''('' then
                  (case in_values tokens (p + 1) [] of
                     Inl e \<Rightarrow> Throw e
                   | Inr (p', vals) \<Rightarrow> Continue (i + ((p' - i) + 1), sc @ [Cond key finalOp (VArr vals)]))
                else Continue (i + consumed', sc @ [Cond key finalOp VNull]))
         in if isNot then
              (case upper_at tokens (i + 2) of
                 Inl e \<Rightarrow> Throw e
               | Inr next \<Rightarrow> if next \<noteq> ''IN'' \<and> next \<noteq> ''DALAM'' then Break (i, sc) else body)
            else body)
      else Continue (i + 3, sc @ [Cond key op (normal_val (js_nth tokens (i + 2)))]))"

definition where_stop_words :: "string list" where
  "where_stop_words =
     [''DENGAN'', ''ORDER'', ''URUTKAN'', ''LIMIT'', ''HANYA'', ''OFFSET'', ''MULAI'', ''LANGKAHI'',
      ''GROUP'', ''KELOMPOK'', '')'', '';'']"

text \<open>One turn of the scanning loop, entered with \<open>i < tokens.length\<close>.\<close>

definition where_step :: "string list \<Rightarrow> nat \<times> criteria list \<Rightarrow> (nat \<times> criteria list) loop_step" where
  "where_step tokens st =
     (let i = fst st; sc = snd st; token = tokens ! i; upper = toUpperCase token in
      if upper \<in> set [''AND'', ''OR'', ''DAN'', ''ATAU''] then
        Continue (i + 1,
                  sc @ [Logic (if upper = ''DAN'' then ''AND'' else if upper = ''ATAU'' then ''OR'' else upper)])
      else if upper \<in> set where_stop_words then Break st
      else if i + 1 < length tokens then
        (let rawOp = toUpperCase (tokens ! (i + 1));
             op = (if rawOp = ''SEPERTI'' then ''LIKE'' else rawOp)
         in case where_special tokens i token op sc of
              Inl e \<Rightarrow> Throw e
            | Inr (op', sc', consumed) \<Rightarrow> where_cond tokens i token op' sc' consumed)
      else Break st)"

lemma where_special_consumed:
  "where_special tokens i key op sc = Inr (op', sc', consumed) \<Longrightarrow> 0 < consumed"
  by (auto simp: where_special_def bindE_def split: if_splits sum.splits)

lemma where_cond_advances:
  assumes "where_cond tokens i key op sc consumed = Continue st'" and "0 < consumed"
  shows "i < fst st'"
proof (cases "op \<in> set [''IN'', ''DALAM'', ''NOT'', ''TIDAK'']")
  case False
  with assms show ?thesis by (auto simp: where_cond_def)
next
  case True
  define isNot where "isNot = (op = ''NOT'' \<or> op = ''TIDAK'')"
  define p where "p = (if isNot then i + 3 else i + 2)"
  define body where "body =
               (if js_nth tokens p = Some ''('' then
                  (case in_values tokens (p + 1) [] of
                     Inl e \<Rightarrow> Throw e
                   | Inr (p', vals) \<Rightarrow>
                       Continue (i + ((p' - i) + 1),
                                 sc @ [Cond key (if isNot then ''NOT IN'' else ''IN'') (VArr vals)]))
                else Continue (i + (if isNot then consumed + 1 else consumed),
                               sc @ [Cond key (if isNot then ''NOT IN'' else ''IN'') VNull]))"
  have body_adv: "body = Continue st' \<Longrightarrow> i < fst st'"
    using assms(2) by (auto simp: body_def split: if_splits sum.splits)
  have "where_cond tokens i key op sc consumed =
          (if isNot then
              (case upper_at tokens (i + 2) of
                 Inl e \<Rightarrow> Throw e
               | Inr next \<Rightarrow> if next \<noteq> ''IN'' \<and> next \<noteq> ''DALAM'' then Break (i, sc) else body)
            else body)"
    using True unfolding where_cond_def Let_def isNot_def p_def body_def by simp
  with assms(1) have "body = Continue st'"
    by (auto split: if_splits sum.splits)
  then show ?thesis by (rule body_adv)
qed

lemma where_step_advances: "where_step tokens st = Continue st' \<Longrightarrow> fst st < fst st'"
proof -
  assume a: "where_step tokens st = Continue st'"
  define upper where "upper = toUpperCase (tokens ! fst st)"
  show ?thesis
  proof (cases "upper \<in> set [''AND'', ''OR'', ''DAN'', ''ATAU'']")
    case True
    with a show ?thesis by (auto simp: where_step_def Let_def upper_def)
  next
    case False
    with a have "\<exists>op op' sc' consumed.
        where_special tokens (fst st) (tokens ! fst st) op (snd st) = Inr (op', sc', consumed) \<and>
        where_cond tokens (fst st) (tokens ! fst st) op' sc' consumed = Continue st'"
      unfolding where_step_def Let_def upper_def
      by (auto split: if_splits sum.splits prod.splits)
    then show ?thesis
      using where_special_consumed where_cond_advances by blast
  qed
qed

function where_loop :: "string list \<Rightarrow> nat \<times> criteria list \<Rightarrow> js_error + criteria list" where
  "where_loop tokens st =
     (if fst st < length tokens then
        (case where_step tokens st of
           Continue st' \<Rightarrow> where_loop tokens st'
         | Break st' \<Rightarrow> Inr (snd st')
         | Throw e \<Rightarrow> Inl e)
      else Inr (snd st))"
  by pat_completeness auto
termination
  by (relation "measure (\<lambda>(tokens, st). length tokens - fst st)")
    (auto dest!: where_step_advances)

declare where_loop.simps [simp del]

text \<open>
  Pass 1 joins the runs linked by \<open>AND\<close>: \<open>k\<close> walks the odd positions, where the
  connectors stand in a well-formed clause; \<open>current\<close> is the group being built.
\<close>

function pass1_loop :: "criteria list \<Rightarrow> nat \<Rightarrow> criteria \<Rightarrow> criteria list \<Rightarrow> criteria list" where
  "pass1_loop sc k current pass1 =
     (if k < length sc then
        (let logic = sc ! k;
             nextCond = (case js_nth sc (k + 1) of None \<Rightarrow> NoCond | Some c \<Rightarrow> c)
         in if crit_op logic = Some ''AND'' then
              pass1_loop sc (k + 2)
                (case current of
                   Compound l cs \<Rightarrow>
                     if l = ''AND'' then Compound l (cs @ [nextCond])
                     else Compound ''AND'' [current, nextCond]
                 | _ \<Rightarrow> Compound ''AND'' [current, nextCond])
                pass1
            else pass1_loop sc (k + 2) nextCond (pass1 @ [current, logic]))
      else pass1 @ [current])"
  by pat_completeness auto
termination
  by (relation "measure (\<lambda>(sc, k, current, pass1). length sc - k)") auto

declare pass1_loop.simps [simp del]

text \<open>Pass 2 keeps the entries at the even positions of pass 1.\<close>

fun even_entries :: "'a list \<Rightarrow> 'a list" where
  "even_entries [] = []"
| "even_entries [x] = [x]"
| "even_entries (x # y # zs) = x # even_entries zs"

definition build_tree :: "criteria list \<Rightarrow> criteria option" where
  "build_tree sc =
     (if sc = [] then None
      else
        let pass1 = pass1_loop sc 1 (sc ! 0) [] in
        if length pass1 = 1 then Some (pass1 ! 0)
        else Some (Compound ''OR'' (even_entries pass1)))"

definition parseWhere :: "string list \<Rightarrow> nat \<Rightarrow> js_error + criteria option" where
  "parseWhere tokens startIndex =
     (case where_loop tokens (startIndex, []) of
        Inl e \<Rightarrow> Inl e
      | Inr sc \<Rightarrow> Inr (build_tree sc))"

text \<open>
  An object with string keys is the list of its own properties in insertion order;
  \<open>obj[k] = v\<close> replaces the value of an existing key in place and appends a new key.
  The assignment to the key \<open>__proto__\<close>, which sets the prototype and adds no
  property, is not modelled.
\<close>

type_synonym obj = "(string \<times> jsval) list"

fun obj_set :: "(string \<times> 'v) list \<Rightarrow> string \<Rightarrow> 'v \<Rightarrow> (string \<times> 'v) list" where
  "obj_set [] k v = [(k, v)]"
| "obj_set ((k', v') # kvs) k v = (if k' = k then (k, v) # kvs else (k', v') # obj_set kvs k v)"

text \<open>
  The objects of the program are plain objects (object literals and results of
  \<open>JSON.parse\<close>), so a property that an object does not own is looked up in
  \<open>Object.prototype\<close>.  Its members are functions, and \<open>__proto__\<close> reads as the
  prototype itself.
\<close>

definition object_prototype :: obj where
  "object_prototype =
     [(''constructor'', VFun ''Object''),
      (''__defineGetter__'', VFun ''__defineGetter__''),
      (''__defineSetter__'', VFun ''__defineSetter__''),
      (''hasOwnProperty'', VFun ''hasOwnProperty''),
      (''__lookupGetter__'', VFun ''__lookupGetter__''),
      (''__lookupSetter__'', VFun ''__lookupSetter__''),
      (''isPrototypeOf'', VFun ''isPrototypeOf''),
      (''propertyIsEnumerable'', VFun ''propertyIsEnumerable''),
      (''toString'', VFun ''toString''),
      (''valueOf'', VFun ''valueOf''),
      (''__proto__'', VObj []),
      (''toLocaleString'', VFun ''toLocaleString'')]"

text \<open>\<open>data[field]\<close>: an own property, else an inherited one, else \<open>undefined\<close>.\<close>

definition obj_get :: "obj \<Rightarrow> string \<Rightarrow> jsval" where
  "obj_get data field =
     (case map_of data field of
        Some v \<Rightarrow> v
      | None \<Rightarrow> (case map_of object_prototype field of Some v \<Rightarrow> v | None \<Rightarrow> VUndefined))"


text \<open>
  \<open>ob.f(name)\<close> as a condition, for an object \<open>ob\<close> and the member \<open>f\<close> of
  \<open>Object.prototype\<close>: \<open>hasOwnProperty\<close> and \<open>propertyIsEnumerable\<close> test the own
  properties; \<open>isPrototypeOf\<close> of a string is false; \<open>toString\<close>, \<open>toLocaleString\<close>,
  \<open>valueOf\<close> and \<open>Object\<close> return a string or an object, which is truthy; the lookup
  of an accessor finds the one of \<open>__proto__\<close> only; the definition of an accessor
  without a function throws.  Any other name is no function of the model.
\<close>

definition prototype_call :: "string \<Rightarrow> obj \<Rightarrow> string \<Rightarrow> js_error + bool" where
  "prototype_call f ob name =
     (if f \<in> set [''hasOwnProperty'', ''propertyIsEnumerable''] then Inr (map_of ob name \<noteq> None)
      else if f = ''isPrototypeOf'' then Inr False
      else if f \<in> set [''toString'', ''toLocaleString'', ''valueOf'', ''Object''] then Inr True
      else if f \<in> set [''__lookupGetter__'', ''__lookupSetter__'']
      then Inr (map_of ob name = None \<and> name = ''__proto__'')
      else if f \<in> set [''__defineGetter__'', ''__defineSetter__'']
      then Inl (TypeError (''Object.prototype.'' @ f @ '': Expecting function''))
      else Inl (TypeError (f @ '' is not a function'')))"

text \<open>
  \<open>ob.hasOwnProperty(name)\<close>, called through the object: an own property named
  \<open>hasOwnProperty\<close> hides the inherited function, and the call throws when its value is
  not a function.  \<open>expr\<close> is the text of the callee in the message.
\<close>

definition hasOwnProperty_call :: "string \<Rightarrow> obj \<Rightarrow> string \<Rightarrow> js_error + bool" where
  "hasOwnProperty_call expr ob name =
     (case map_of ob ''hasOwnProperty'' of
        None \<Rightarrow> Inr (map_of ob name \<noteq> None)
      | Some (VFun f) \<Rightarrow> prototype_call f ob name
      | Some v \<Rightarrow> Inl (TypeError (expr @ '' is not a function'')))"

record join_on =
  on_left :: "string option"
  on_op :: "string option"
  on_right :: "string option"

record join_spec =
  join_table :: "string option"
  join_type :: string
  join_cond :: "join_on option"

record sort_spec =
  sort_key :: "string option"
  sort_dir :: string

record select_cmd =
  sel_table :: "string option"
  sel_cols :: "string list"
  sel_joins :: "join_spec list"
  sel_criteria :: "criteria option"
  sel_sort :: "sort_spec option"
  sel_limit :: "jsnum option"
  sel_offset :: "jsnum option"
  sel_distinct :: bool

record having_spec =
  having_field :: "string option"
  having_op :: "string option"
  having_val :: jsval

record aggregate_cmd =
  agg_table :: "string option"
  agg_func :: string
  agg_field :: "string option"
  agg_criteria :: "criteria option"
  agg_groupBy :: "string option"
  agg_having :: "having_spec option"

record field_config =
  fc_type :: "string option"
  fc_required :: bool
  fc_default :: jsval

text \<open>
  The command record, one constructor for each value of \<open>type\<close>.  A field that can
  hold \<open>undefined\<close> or \<open>null\<close> is an option.
\<close>

datatype command =
    CREATE_TABLE "string option"
  | SHOW_TABLES
  | SHOW_INDEXES "string option"
  | SHOW_STATS "string option"
  | INSERT "string option" obj
  | SELECT select_cmd
  | DELETE "string option" "criteria option"
  | UPDATE "string option" obj "criteria option"
  | DROP_TABLE "string option"
  | CREATE_INDEX "string option" "string option"
  | AGGREGATE aggregate_cmd
  | EXPLAIN command
  | BEGIN_TRANSACTION
  | COMMIT
  | ROLLBACK
  | CREATE_VIEW string command
  | DROP_VIEW string
  | DEFINE_SCHEMA string "(string \<times> field_config) list"
  | CREATE_TRIGGER string "string option" "string option" "string option" string
  | DROP_TRIGGER string
  | CREATE_PROCEDURE string "string option list" string
  | EXECUTE_PROCEDURE string "jsval list"
  | BACKUP string
  | RESTORE string
  | ERROR string
  | EMPTY

lemma js_nth_SomeD: "js_nth xs i = Some x \<Longrightarrow> i < length xs"
  by (auto simp: js_nth_def split: if_splits)

text \<open>\<open>tokens[i] || null\<close>.\<close>

definition or_null :: "string option \<Rightarrow> string option" where
  "or_null t = (case t of None \<Rightarrow> None | Some s \<Rightarrow> if s = [] then None else Some s)"

section \<open>The statement parsers\<close>

definition parseCreate :: "string list \<Rightarrow> js_error + command" where
  "parseCreate tokens =
     bindE (upper_at tokens 0) (\<lambda>t0.
       if t0 = ''CREATE'' then
         bindE (upper_at tokens 1) (\<lambda>t1.
           if t1 \<noteq> ''TABLE'' then Inl (Error ''Syntax: CREATE TABLE [name]'')
           else Inr (CREATE_TABLE (js_nth tokens 2)))
       else if length tokens < 2 then Inl (Error ''Syntax: LAHAN [nama_kebun]'')
       else Inr (CREATE_TABLE (js_nth tokens 1)))"

definition parseShow :: "string list \<Rightarrow> js_error + command" where
  "parseShow tokens =
     bindE (upper_at tokens 0) (\<lambda>cmd.
       let sub = (case js_nth tokens 1 of None \<Rightarrow> [] | Some t \<Rightarrow> toUpperCase t);
           tbl = or_null (js_nth tokens 2)
       in if cmd = ''LIHAT'' \<and> sub = ''LAHAN'' then Inr SHOW_TABLES
          else if cmd = ''LIHAT'' \<and> sub = ''INDEKS'' then Inr (SHOW_INDEXES tbl)
          else if cmd = ''LIHAT'' \<and> sub = ''STATISTIK'' then Inr (SHOW_STATS tbl)
          else if cmd \<noteq> ''LIHAT'' \<and> cmd = ''SHOW'' \<and> sub = ''TABLES'' then Inr SHOW_TABLES
          else if cmd \<noteq> ''LIHAT'' \<and> cmd = ''SHOW'' \<and> sub = ''INDEXES'' then Inr (SHOW_INDEXES tbl)
          else if cmd \<noteq> ''LIHAT'' \<and> cmd = ''SHOW'' \<and> sub = ''STATS'' then Inr (SHOW_STATS tbl)
          else Inl (Error ''Syntax: LIHAT LAHAN | SHOW TABLES | LIHAT INDEKS [table] | SHOW INDEXES | LIHAT STATISTIK [table] | SHOW STATS''))"

definition parseDrop :: "string list \<Rightarrow> js_error + command" where
  "parseDrop tokens =
     bindE (upper_at tokens 0) (\<lambda>t0.
       if t0 = ''DROP'' \<and> upper_in tokens 1 [''TABLE''] then Inr (DROP_TABLE (js_nth tokens 2))
       else if t0 \<noteq> ''DROP'' \<and> t0 = ''BAKAR'' \<and> upper_in tokens 1 [''LAHAN'']
       then Inr (DROP_TABLE (js_nth tokens 2))
       else Inl (Error ''Syntax: BAKAR LAHAN [nama] | DROP TABLE [nama]''))"

text \<open>
  The column list of \<open>INSERT\<close>, from the token after the parenthesis.  The bound is
  tested after the index has moved, so a list that is never closed throws.
\<close>

function insert_cols :: "string list \<Rightarrow> nat \<Rightarrow> string list \<Rightarrow> js_error + (nat \<times> string list)" where
  "insert_cols tokens i cols =
     (if js_nth tokens i = Some '')'' then Inr (i, cols)
      else if length tokens \<le> i + 1 then Inl (Error ''Unclosed parenthesis in columns'')
      else insert_cols tokens (i + 1) (if tokens ! i \<noteq> '','' then cols @ [tokens ! i] else cols))"
  by pat_completeness auto
termination
  by (relation "measure (\<lambda>(tokens, i, cols). length tokens - i)") auto

declare insert_cols.simps [simp del]

text \<open>The value of one token of the \<open>VALUES\<close> list.\<close>

definition insert_value :: "string \<Rightarrow> jsval" where
  "insert_value val =
     (if starts_with_quote val then VStr (slice1 val)
      else if toUpperCase val = ''NULL'' then VNull
      else if toUpperCase val = ''TRUE'' then VBool True
      else if toUpperCase val = ''FALSE'' then VBool False
      else if \<not> isNaN (VStr val) then VNum (StringToNumber val)
      else VStr val)"

text \<open>
  The value list has no bound test: past the last token \<open>tokens[i]\<close> is
  \<open>undefined\<close>, and \<open>val.startsWith\<close> throws.
\<close>

function insert_vals :: "string list \<Rightarrow> nat \<Rightarrow> jsval list \<Rightarrow> js_error + jsval list" where
  "insert_vals tokens i vals =
     (case js_nth tokens i of
        None \<Rightarrow> Inl (undefined_read ''startsWith'')
      | Some t \<Rightarrow>
          if t = '')'' then Inr vals
          else insert_vals tokens (i + 1) (if t \<noteq> '','' then vals @ [insert_value t] else vals))"
  by pat_completeness auto
termination
  by (relation "measure (\<lambda>(tokens, i, vals). length tokens - i)") (auto dest: js_nth_SomeD)

declare insert_vals.simps [simp del]

definition parseInsert :: "string list \<Rightarrow> js_error + command" where
  "parseInsert tokens =
     bindE (upper_at tokens 0) (\<lambda>t0.
     bindE (upper_at tokens 1) (\<lambda>t1.
       if t0 = ''INSERT'' \<and> t1 \<noteq> ''INTO'' then Inl (Error ''Syntax: INSERT INTO [table] ...'')
       else if t0 \<noteq> ''INSERT'' \<and> t1 \<noteq> ''KE'' then Inl (Error ''Syntax: TANAM KE [kebun] ...'')
       else if js_nth tokens 3 \<noteq> Some ''('' then Inl (Error ''Syntax: ... [table] (col1, ...) ...'')
       else
         bindE (insert_cols tokens 4 []) (\<lambda>(i, cols).
         bindE (upper_at tokens (i + 1)) (\<lambda>valueKeyword.
           if valueKeyword \<noteq> ''BIBIT'' \<and> valueKeyword \<noteq> ''VALUES''
           then Inl (Error ''Expected BIBIT or VALUES'')
           else if js_nth tokens (i + 2) \<noteq> Some ''('' then Inl (Error ''Syntax: ... VALUES (val1, ...)'')
           else
             bindE (insert_vals tokens (i + 3) []) (\<lambda>vals.
               if length cols \<noteq> length vals then Inl (Error ''Columns and Values count mismatch'')
               else Inr (INSERT (js_nth tokens 2)
                          (fold (\<lambda>(k, v) data. obj_set data k v) (zip cols vals) [])))))))"

section \<open>\<open>parseSelect\<close>\<close>

function select_cols :: "string list \<Rightarrow> nat \<Rightarrow> string list \<Rightarrow> nat \<times> string list" where
  "select_cols tokens i cols =
     (case js_nth tokens i of
        None \<Rightarrow> (i, cols)
      | Some t \<Rightarrow>
          if toUpperCase t \<in> set [''DARI'', ''FROM''] then (i, cols)
          else select_cols tokens (i + 1) (if t \<noteq> '','' then cols @ [t] else cols))"
  by pat_completeness auto
termination
  by (relation "measure (\<lambda>(tokens, i, cols). length tokens - i)") (auto dest: js_nth_SomeD)

declare select_cols.simps [simp del]

text \<open>\<open>if (tokens[i] && kws.includes(tokens[i].toUpperCase())) i++\<close>.\<close>

definition skip_kw :: "string list \<Rightarrow> nat \<Rightarrow> string list \<Rightarrow> nat" where
  "skip_kw tokens i kws = (if upper_in tokens i kws then i + 1 else i)"

text \<open>
  The head of one turn of the join loop: the join type and the index of the table name,
  or \<open>continue\<close> (\<open>GABUNG\<close> before a direction), or \<open>break\<close>.
\<close>

datatype join_head = JoinType nat string | Again nat | Stop nat

definition join_keyword :: "string list \<Rightarrow> nat \<Rightarrow> join_head" where
  "join_keyword tokens i =
     (let token = toUpperCase (tokens ! i) in
      if token = ''JOIN'' \<or> token = ''GABUNG'' then
        (if token = ''GABUNG'' \<and> upper_in tokens (i + 1) [''KIRI'', ''KANAN'', ''SILANG'', ''PENUH'']
         then Again (i + 1) else JoinType (i + 1) ''INNER'')
      else if token = ''INNER'' then
        (if upper_in tokens (i + 1) [''JOIN'', ''GABUNG''] then JoinType (i + 2) ''INNER''
         else Stop (i + 1))
      else if token = ''LEFT'' \<or> token = ''KIRI'' then
        JoinType (skip_kw tokens (skip_kw tokens (i + 1) [''OUTER'']) [''JOIN'', ''GABUNG'']) ''LEFT''
      else if token = ''RIGHT'' \<or> token = ''KANAN'' then
        JoinType (skip_kw tokens (skip_kw tokens (i + 1) [''OUTER'']) [''JOIN'', ''GABUNG'']) ''RIGHT''
      else if token = ''FULL'' \<or> token = ''PENUH'' then
        JoinType (skip_kw tokens (skip_kw tokens (i + 1) [''OUTER'']) [''JOIN'', ''GABUNG'']) ''FULL''
      else if token = ''CROSS'' \<or> token = ''SILANG'' then
        JoinType (skip_kw tokens (i + 1) [''JOIN'', ''GABUNG'']) ''CROSS''
      else Stop i)"

definition join_step :: "string list \<Rightarrow> nat \<times> join_spec list \<Rightarrow> (nat \<times> join_spec list) loop_step" where
  "join_step tokens st =
     (case join_keyword tokens (fst st) of
        Again i \<Rightarrow> Continue (i, snd st)
      | Stop i \<Rightarrow> Break (i, snd st)
      | JoinType i jt \<Rightarrow>
          if jt = ''CROSS'' then
            Continue (i + 1, snd st @ [\<lparr>join_table = js_nth tokens i, join_type = jt, join_cond = None\<rparr>])
          else if length tokens \<le> i + 1 \<or> \<not> upper_in tokens (i + 1) [''ON'', ''PADA'']
          then Throw (Error (''Syntax: '' @ jt @ '' JOIN [table] ON [condition]''))
          else Continue (i + 5,
                 snd st @ [\<lparr>join_table = js_nth tokens i, join_type = jt,
                            join_cond = Some \<lparr>on_left = js_nth tokens (i + 2),
                                              on_op = js_nth tokens (i + 3),
                                              on_right = js_nth tokens (i + 4)\<rparr>\<rparr>]))"

lemma skip_kw_ge: "i \<le> skip_kw tokens i kws"
  by (simp add: skip_kw_def)

lemma join_keyword_advances:
  "join_keyword tokens i = JoinType i' jt \<Longrightarrow> i < i'"
  "join_keyword tokens i = Again i' \<Longrightarrow> i < i'"
proof -
  have a: "i < skip_kw tokens (skip_kw tokens (i + 1) [''OUTER'']) [''JOIN'', ''GABUNG'']"
    using skip_kw_ge [of "i + 1" tokens "[''OUTER'']"]
      skip_kw_ge [of "skip_kw tokens (i + 1) [''OUTER'']" tokens "[''JOIN'', ''GABUNG'']"]
    by linarith
  have b: "i < skip_kw tokens (i + 1) [''JOIN'', ''GABUNG'']"
    using skip_kw_ge [of "i + 1" tokens "[''JOIN'', ''GABUNG'']"] by linarith
  show "join_keyword tokens i = JoinType i' jt \<Longrightarrow> i < i'"
    using a b by (auto simp: join_keyword_def Let_def split: if_splits)
  show "join_keyword tokens i = Again i' \<Longrightarrow> i < i'"
    by (auto simp: join_keyword_def Let_def split: if_splits)
qed

lemma join_step_advances: "join_step tokens st = Continue st' \<Longrightarrow> fst st < fst st'"
  by (auto simp: join_step_def split: join_head.splits if_splits dest: join_keyword_advances)

function select_joins :: "string list \<Rightarrow> nat \<times> join_spec list \<Rightarrow> js_error + (nat \<times> join_spec list)" where
  "select_joins tokens st =
     (if fst st < length tokens then
        (case join_step tokens st of
           Continue st' \<Rightarrow> select_joins tokens st'
         | Break st' \<Rightarrow> Inr st'
         | Throw e \<Rightarrow> Inl e)
      else Inr st)"
  by pat_completeness auto
termination
  by (relation "measure (\<lambda>(tokens, st). length tokens - fst st)")
    (auto dest!: join_step_advances)

declare select_joins.simps [simp del]

text \<open>\<open>while (i < tokens.length && !kws.includes(tokens[i].toUpperCase())) i++\<close>.\<close>

function skip_until :: "string list \<Rightarrow> string list \<Rightarrow> nat \<Rightarrow> nat" where
  "skip_until kws tokens i =
     (case js_nth tokens i of
        None \<Rightarrow> i
      | Some t \<Rightarrow> if toUpperCase t \<in> set kws then i else skip_until kws tokens (i + 1))"
  by pat_completeness auto
termination
  by (relation "measure (\<lambda>(kws, tokens, i). length tokens - i)") (auto dest: js_nth_SomeD)

declare skip_until.simps [simp del]

definition select_where :: "string list \<Rightarrow> nat \<Rightarrow> js_error + (nat \<times> criteria option)" where
  "select_where tokens i =
     (if i < length tokens \<and> upper_in tokens i [''DIMANA'', ''WHERE''] then
        bindE (parseWhere tokens (i + 1)) (\<lambda>criteria.
          Inr (skip_until [''ORDER'', ''URUTKAN'', ''LIMIT'', ''HANYA'', ''OFFSET'', ''MULAI''] tokens (i + 1),
               criteria))
      else Inr (i, None))"

text \<open>
  \<open>ORDER BY\<close>: after the optional keywords, the sort key is read when the token before
  \<open>i\<close> is \<open>BY\<close> or \<open>BERDASARKAN\<close>.  Here \<open>i\<close> is at least 3, so \<open>tokens[i - 1]\<close>
  is a token whenever \<open>i < tokens.length\<close>.
\<close>

definition select_sort :: "string list \<Rightarrow> nat \<Rightarrow> js_error + (nat \<times> sort_spec option)" where
  "select_sort tokens i =
     (if i < length tokens then
        bindE (if toUpperCase (tokens ! i) = ''ORDER'' then
                 bindE (upper_at tokens (i + 1)) (\<lambda>t. Inr (if t = ''BY'' then i + 2 else i + 1))
               else if toUpperCase (tokens ! i) = ''URUTKAN'' then
                 bindE (upper_at tokens (i + 1)) (\<lambda>t. Inr (if t = ''BERDASARKAN'' then i + 2 else i + 1))
               else Inr i)
          (\<lambda>j.
             if j < length tokens \<and> upper_in tokens (j - 1) [''BY'', ''BERDASARKAN''] then
               (let hasDir = (j + 1 < length tokens \<and> upper_in tokens (j + 1) [''ASC'', ''DESC'', ''NAIK'', ''TURUN''])
                in Inr (if hasDir then j + 2 else j + 1,
                        Some \<lparr>sort_key = js_nth tokens j,
                              sort_dir = (if hasDir \<and> upper_in tokens (j + 1) [''DESC'', ''TURUN'']
                                          then ''desc'' else ''asc'')\<rparr>))
             else Inr (j, None))
      else Inr (i, None))"

definition select_limit :: "string list \<Rightarrow> nat \<Rightarrow> nat \<times> jsnum option" where
  "select_limit tokens i =
     (if i < length tokens \<and> upper_in tokens i [''LIMIT'', ''HANYA'']
      then (i + 2, Some (parseInt10 (js_nth tokens (i + 1))))
      else (i, None))"

definition select_offset :: "string list \<Rightarrow> nat \<Rightarrow> jsnum option" where
  "select_offset tokens i =
     (if i < length tokens then
        (if upper_in tokens i [''OFFSET'', ''LANGKAHI''] then Some (parseInt10 (js_nth tokens (i + 1)))
         else if upper_in tokens i [''MULAI'']
         then Some (parseInt10 (js_nth tokens (skip_kw tokens (i + 1) [''DARI''])))
         else None)
      else None)"

definition parseSelect :: "string list \<Rightarrow> js_error + command" where
  "parseSelect tokens =
     (let distinct = upper_in tokens 1 [''DISTINCT''];
          ic = select_cols tokens (if distinct then 2 else 1) []
      in if length tokens \<le> fst ic then Inl (Error ''Expected DARI or FROM'')
         else
           bindE (select_joins tokens (fst ic + 2, [])) (\<lambda>(i3, joins).
           bindE (select_where tokens i3) (\<lambda>(i4, criteria).
           bindE (select_sort tokens i4) (\<lambda>(i5, sort).
             Inr (SELECT \<lparr>sel_table = js_nth tokens (fst ic + 1), sel_cols = snd ic,
                           sel_joins = joins, sel_criteria = criteria, sel_sort = sort,
                           sel_limit = snd (select_limit tokens i5),
                           sel_offset = select_offset tokens (fst (select_limit tokens i5)),
                           sel_distinct = distinct\<rparr>)))))"

section \<open>\<open>DELETE\<close>, \<open>UPDATE\<close>, \<open>CREATE INDEX\<close> and aggregates\<close>

definition where_clause :: "string list \<Rightarrow> nat \<Rightarrow> js_error + criteria option" where
  "where_clause tokens i =
     (if i < length tokens \<and> upper_in tokens i [''DIMANA'', ''WHERE'']
      then parseWhere tokens (i + 1) else Inr None)"

definition parseDelete :: "string list \<Rightarrow> js_error + command" where
  "parseDelete tokens =
     bindE (upper_at tokens 0) (\<lambda>t0.
     bindE (upper_at tokens 1) (\<lambda>t1.
       if t0 = ''DELETE'' \<and> t1 \<noteq> ''FROM'' then Inl (Error ''Syntax: DELETE FROM [table] ...'')
       else if t0 \<noteq> ''DELETE'' \<and> t1 \<noteq> ''DARI'' then Inl (Error ''Syntax: GUSUR DARI [kebun] ...'')
       else bindE (where_clause tokens 3) (\<lambda>criteria. Inr (DELETE (js_nth tokens 2) criteria))))"

function update_loop :: "string list \<Rightarrow> nat \<Rightarrow> obj \<Rightarrow> js_error + (nat \<times> obj)" where
  "update_loop tokens i updates =
     (case js_nth tokens i of
        None \<Rightarrow> Inr (i, updates)
      | Some t \<Rightarrow>
          if toUpperCase t \<in> set [''DIMANA'', ''WHERE''] then Inr (i, updates)
          else if t = '','' then update_loop tokens (i + 1) updates
          else if js_nth tokens (i + 1) \<noteq> Some ''='' then Inl (Error ''Syntax: key=value in update list'')
          else
            (case js_nth tokens (i + 2) of
               None \<Rightarrow> Inl (undefined_read ''startsWith'')
             | Some v \<Rightarrow> update_loop tokens (i + 3) (obj_set updates t (token_value v))))"
  by pat_completeness auto
termination
  by (relation "measure (\<lambda>(tokens, i, updates). length tokens - i)") (auto dest: js_nth_SomeD)

declare update_loop.simps [simp del]

definition parseUpdate :: "string list \<Rightarrow> js_error + command" where
  "parseUpdate tokens =
     bindE (upper_at tokens 0) (\<lambda>t0.
       if t0 \<noteq> ''UPDATE'' \<and> length tokens < 3 then Inl (Error ''Syntax: PUPUK [kebun] DENGAN ...'')
       else
         bindE (upper_at tokens 2) (\<lambda>t2.
           if t0 = ''UPDATE'' \<and> t2 \<noteq> ''SET'' then Inl (Error ''Expected SET'')
           else if t0 \<noteq> ''UPDATE'' \<and> t2 \<noteq> ''DENGAN'' then Inl (Error ''Expected DENGAN'')
           else
             bindE (update_loop tokens 3 []) (\<lambda>(i, updates).
             bindE (where_clause tokens i) (\<lambda>criteria.
               Inr (UPDATE (js_nth tokens 1) updates criteria)))))"

definition parseCreateIndex :: "string list \<Rightarrow> js_error + command" where
  "parseCreateIndex tokens =
     bindE (upper_at tokens 0) (\<lambda>t0.
     bindE (if t0 = ''CREATE'' then upper_at tokens 1 else Inr []) (\<lambda>t1.
       if t0 = ''CREATE'' \<and> t1 = ''INDEX'' then
         bindE (upper_at tokens 2) (\<lambda>t2.
           let i = (if t2 \<noteq> ''ON'' \<and> upper_in tokens 3 [''ON''] then 3 else 2) in
           bindE (upper_at tokens i) (\<lambda>ti.
             if ti \<noteq> ''ON'' then Inl (Error ''Syntax: CREATE INDEX ... ON [table] ...'')
             else if js_nth tokens (i + 2) \<noteq> Some ''('' then Inl (Error ''Syntax: ... ON [table] ( [field] )'')
             else if js_nth tokens (i + 4) \<noteq> Some '')'' then Inl (Error ''Unclosed parenthesis for index field'')
             else Inr (CREATE_INDEX (js_nth tokens (i + 1)) (js_nth tokens (i + 3)))))
       else if length tokens < 4 then Inl (Error ''Syntax: INDEKS [table] PADA [field]'')
       else
         bindE (upper_at tokens 2) (\<lambda>t2.
           if t2 \<noteq> ''PADA'' then Inl (Error ''Expected PADA'')
           else Inr (CREATE_INDEX (js_nth tokens 1) (js_nth tokens 3)))))"

definition aggregate_where :: "string list \<Rightarrow> js_error + (nat \<times> criteria option)" where
  "aggregate_where tokens =
     (if 7 < length tokens \<and> upper_in tokens 7 [''DIMANA'', ''WHERE''] then
        bindE (parseWhere tokens 8) (\<lambda>criteria.
          Inr (skip_until [''KELOMPOK'', ''GROUP'', ''DENGAN'', ''HAVING''] tokens 8, criteria))
      else Inr (7, None))"

definition aggregate_group :: "string list \<Rightarrow> nat \<Rightarrow> js_error + (nat \<times> string option)" where
  "aggregate_group tokens i =
     (if i < length tokens \<and> upper_in tokens i [''KELOMPOK'', ''GROUP''] then
        bindE (if toUpperCase (tokens ! i) = ''GROUP'' then upper_at tokens (i + 1) else Inr []) (\<lambda>t.
          let j = (if toUpperCase (tokens ! i) = ''GROUP'' \<and> t = ''BY'' then i + 2 else i + 1)
          in Inr (j + 1, js_nth tokens j))
      else Inr (i, None))"

definition having_value :: "string option \<Rightarrow> jsval" where
  "having_value t =
     (case t of
        None \<Rightarrow> VUndefined
      | Some v \<Rightarrow> if \<not> isNaN (VStr v) then VNum (StringToNumber v) else VStr v)"

definition aggregate_having :: "string list \<Rightarrow> nat \<Rightarrow> having_spec option" where
  "aggregate_having tokens i =
     (if i < length tokens then
        (let j = (if upper_in tokens i [''HAVING'', ''PUNYA''] then Some (i + 1)
                  else if upper_in tokens i [''DENGAN''] \<and> upper_in tokens (i + 1) [''SYARAT'']
                  then Some (i + 2) else None)
         in case j of
              None \<Rightarrow> None
            | Some k \<Rightarrow> Some \<lparr>having_field = js_nth tokens k, having_op = js_nth tokens (k + 1),
                               having_val = having_value (js_nth tokens (k + 2))\<rparr>)
      else None)"

definition parseAggregate :: "string list \<Rightarrow> js_error + command" where
  "parseAggregate tokens =
     bindE (upper_at tokens 1) (\<lambda>aggFunc.
       if js_nth tokens 2 \<noteq> Some ''('' then Inl (Error ''Syntax: HITUNG FUNC(field) ...'')
       else if js_nth tokens 4 \<noteq> Some '')'' then Inl (Error ''Expected closing parenthesis'')
       else if \<not> upper_in tokens 5 [''DARI'', ''FROM''] then Inl (Error ''Expected DARI or FROM'')
       else
         bindE (aggregate_where tokens) (\<lambda>(i, criteria).
         bindE (aggregate_group tokens i) (\<lambda>(j, groupField).
           Inr (AGGREGATE \<lparr>agg_table = js_nth tokens 6, agg_func = aggFunc,
                            agg_field = (if js_nth tokens 3 = Some ''*'' then None else js_nth tokens 3),
                            agg_criteria = criteria, agg_groupBy = groupField,
                            agg_having = aggregate_having tokens j\<rparr>))))"

section \<open>The remaining statement parsers\<close>

definition parseExplain :: "string list \<Rightarrow> js_error + command" where
  "parseExplain tokens =
     (let innerTokens = drop 1 tokens in
      if innerTokens = [] then Inl (Error ''EXPLAIN requires a query to analyze'')
      else
        let innerCmd = toUpperCase (innerTokens ! 0) in
        bindE (if innerCmd = ''PANEN'' \<or> innerCmd = ''SELECT'' then parseSelect innerTokens
               else if innerCmd = ''GUSUR'' \<or> innerCmd = ''DELETE'' then parseDelete innerTokens
               else if innerCmd = ''PUPUK'' \<or> innerCmd = ''UPDATE'' then parseUpdate innerTokens
               else if innerCmd = ''HITUNG'' then parseAggregate innerTokens
               else Inl (Error (''EXPLAIN not supported for: '' @ innerCmd)))
          (\<lambda>innerCommand. Inr (EXPLAIN innerCommand)))"

definition parseBeginTransaction :: "string list \<Rightarrow> js_error + command" where
  "parseBeginTransaction tokens =
     bindE (upper_at tokens 0) (\<lambda>t0.
       if t0 = ''MULAI'' then
         (if upper_in tokens 1 [''AKAD''] then Inr BEGIN_TRANSACTION
          else Inl (Error ''Syntax: MULAI AKAD''))
       else Inr BEGIN_TRANSACTION)"

text \<open>\<open>if (!name) throw ...\<close>: the name is missing or empty.\<close>

definition falsy :: "string option \<Rightarrow> bool" where
  "falsy t = (case t of None \<Rightarrow> True | Some s \<Rightarrow> s = [])"

definition parseCreateView :: "string list \<Rightarrow> js_error + command" where
  "parseCreateView tokens =
     bindE (upper_at tokens 0) (\<lambda>t0.
       if t0 \<noteq> ''PASANG'' then Inl (Error ''Syntax: PASANG TEROPONG [nama] SEBAGAI [query]'')
       else
         bindE (upper_at tokens 1) (\<lambda>t1.
           if t1 \<noteq> ''TEROPONG'' then Inl (Error ''Expected TEROPONG after PASANG'')
           else if falsy (js_nth tokens 2) then Inl (Error ''View name required'')
           else
             bindE (upper_at tokens 3) (\<lambda>t3.
               if t3 \<noteq> ''SEBAGAI'' then Inl (Error ''Expected SEBAGAI after view name'')
               else
                 bindE (parseSelect (drop 4 tokens)) (\<lambda>selectCommand.
                   Inr (CREATE_VIEW (tokens ! 2) selectCommand)))))"

text \<open>\<open>xs.join(' ')\<close>.\<close>

fun join_space :: "string list \<Rightarrow> string" where
  "join_space [] = []"
| "join_space [x] = x"
| "join_space (x # y # zs) = x @ '' '' @ join_space (y # zs)"

definition parseCreateTrigger :: "string list \<Rightarrow> js_error + command" where
  "parseCreateTrigger tokens =
     bindE (upper_at tokens 0) (\<lambda>t0.
     bindE (if t0 \<noteq> ''PASANG'' then Inr [] else upper_at tokens 1) (\<lambda>t1.
       if t0 \<noteq> ''PASANG'' \<or> t1 \<noteq> ''KENTONGAN'' then Inl (Error ''Syntax: PASANG KENTONGAN [nama] PADA ...'')
       else if falsy (js_nth tokens 2) then Inl (Error ''Trigger name required'')
       else
         bindE (upper_at tokens 3) (\<lambda>t3.
           if t3 \<noteq> ''PADA'' then Inl (Error ''Expected PADA after trigger name'')
           else
             bindE (upper_at tokens 7) (\<lambda>t7.
               if t7 \<noteq> ''LAKUKAN'' then Inl (Error ''Expected LAKUKAN before action query'')
               else Inr (CREATE_TRIGGER (tokens ! 2) (js_nth tokens 4) (js_nth tokens 5)
                          (js_nth tokens 6) (join_space (drop 8 tokens)))))))"

definition parseCreateViewOrTrigger :: "string list \<Rightarrow> js_error + command" where
  "parseCreateViewOrTrigger tokens =
     bindE (upper_at tokens 1) (\<lambda>t1.
       if t1 = ''TEROPONG'' then parseCreateView tokens
       else if t1 = ''KENTONGAN'' then parseCreateTrigger tokens
       else Inl (Error ''Syntax: PASANG TEROPONG [nama] ... or PASANG KENTONGAN [nama] ...''))"

definition parseDropView :: "string list \<Rightarrow> js_error + command" where
  "parseDropView tokens =
     bindE (upper_at tokens 0) (\<lambda>t0.
       if t0 \<noteq> ''BUANG'' then Inl (Error ''Syntax: BUANG TEROPONG [nama]'')
       else
         bindE (upper_at tokens 1) (\<lambda>t1.
           if t1 \<noteq> ''TEROPONG'' then Inl (Error ''Expected TEROPONG after BUANG'')
           else if falsy (js_nth tokens 2) then Inl (Error ''View name required'')
           else Inr (DROP_VIEW (tokens ! 2))))"

definition parseDropTrigger :: "string list \<Rightarrow> js_error + command" where
  "parseDropTrigger tokens =
     bindE (upper_at tokens 0) (\<lambda>t0.
     bindE (if t0 \<noteq> ''BUANG'' then Inr [] else upper_at tokens 1) (\<lambda>t1.
       if t0 \<noteq> ''BUANG'' \<or> t1 \<noteq> ''KENTONGAN'' then Inl (Error ''Syntax: BUANG KENTONGAN [nama]'')
       else if falsy (js_nth tokens 2) then Inl (Error ''Trigger name required'')
       else Inr (DROP_TRIGGER (tokens ! 2))))"

definition parseDropViewOrTrigger :: "string list \<Rightarrow> js_error + command" where
  "parseDropViewOrTrigger tokens =
     bindE (upper_at tokens 1) (\<lambda>t1.
       if t1 = ''TEROPONG'' then parseDropView tokens
       else if t1 = ''KENTONGAN'' then parseDropTrigger tokens
       else Inl (Error ''Syntax: BUANG TEROPONG [nama] or BUANG KENTONGAN [nama]''))"

section \<open>\<open>parseSchemaDefinition\<close>\<close>

text \<open>
  The modifiers of one field, from index \<open>i\<close>: the loop state is the index,
  \<open>required\<close> and the default value.  This loop tests \<open>i < tokens.length\<close>.
\<close>

function schema_modifiers ::
  "string list \<Rightarrow> nat \<Rightarrow> bool \<Rightarrow> jsval \<Rightarrow> js_error + (nat \<times> bool \<times> jsval)" where
  "schema_modifiers tokens i required dflt =
     (case js_nth tokens i of
        None \<Rightarrow> Inr (i, required, dflt)
      | Some t \<Rightarrow>
          if t = '','' \<or> t = '')'' then Inr (i, required, dflt)
          else if toUpperCase t = ''WAJIB'' \<or> toUpperCase t = ''REQUIRED''
          then schema_modifiers tokens (i + 1) True dflt
          else if toUpperCase t = ''DEFAULT'' \<or> toUpperCase t = ''BAWAAN'' then
            (case js_nth tokens (i + 1) of
               None \<Rightarrow> Inl (undefined_read ''startsWith'')
             | Some d \<Rightarrow> schema_modifiers tokens (i + 2) required (token_value d))
          else Inr (i, required, dflt))"
  by pat_completeness auto
termination
  by (relation "measure (\<lambda>(tokens, i, required, dflt). length tokens - i)")
    (auto dest: js_nth_SomeD)

declare schema_modifiers.simps [simp del]

text \<open>A property key made from a token slot: \<open>undefined\<close> becomes the key \<open>undefined\<close>.\<close>

definition property_key :: "string option \<Rightarrow> string" where
  "property_key t = (case t of None \<Rightarrow> ''undefined'' | Some s \<Rightarrow> s)"

text \<open>
  The field loop \<open>while (tokens[i] !== ')')\<close> has no bound test and nothing in its body
  throws past the last token: there \<open>tokens[i]\<close> is \<open>undefined\<close>, which is not
  \<open>')'\<close>, and each turn only moves the index and stores the field \<open>undefined\<close>
  again.  The loop is therefore a partial function; \<open>None\<close> is a run that never ends.
\<close>

partial_function (option) schema_fields ::
  "string list \<Rightarrow> nat \<Rightarrow> (string \<times> field_config) list \<Rightarrow> (js_error + (string \<times> field_config) list) option" where
  "schema_fields tokens i schema =
     (if js_nth tokens i = Some '')'' then Some (Inr schema)
      else
        (case schema_modifiers tokens (i + 2) False VUndefined of
           Inl e \<Rightarrow> Some (Inl e)
         | Inr (j, required, dflt) \<Rightarrow>
             schema_fields tokens (if js_nth tokens j = Some '','' then j + 1 else j)
               (obj_set schema (property_key (js_nth tokens i))
                  \<lparr>fc_type = js_nth tokens (i + 1), fc_required = required, fc_default = dflt\<rparr>)))"

declare schema_fields.simps [code]

definition parseSchemaDefinition :: "string list \<Rightarrow> (js_error + command) option" where
  "parseSchemaDefinition tokens =
     (case upper_at tokens 0 of
        Inl e \<Rightarrow> Some (Inl e)
      | Inr t0 \<Rightarrow>
          if t0 \<noteq> ''SERTIFIKASI'' then Some (Inl (Error ''Syntax: SERTIFIKASI LAHAN [table] (...)''))
          else
            (case upper_at tokens 1 of
               Inl e \<Rightarrow> Some (Inl e)
             | Inr t1 \<Rightarrow>
                 if t1 \<noteq> ''LAHAN'' then Some (Inl (Error ''Expected LAHAN after SERTIFIKASI''))
                 else if falsy (js_nth tokens 2) then Some (Inl (Error ''Table name required''))
                 else if js_nth tokens 3 \<noteq> Some ''('' then Some (Inl (Error ''Expected ( after table name''))
                 else
                   (case schema_fields tokens 4 [] of
                      None \<Rightarrow> None
                    | Some (Inl e) \<Rightarrow> Some (Inl e)
                    | Some (Inr schema) \<Rightarrow> Some (Inr (DEFINE_SCHEMA (tokens ! 2) schema)))))"

section \<open>Stored procedures, backup and restore\<close>

text \<open>
  The parameter list of \<open>SIMPAN SOP\<close>: again no bound test; past the last token every
  turn pushes \<open>undefined\<close> onto \<open>params\<close>.  A run that never reaches \<open>')'\<close>
  does not return a command (\<open>None\<close>).
\<close>

partial_function (option) procedure_params ::
  "string list \<Rightarrow> nat \<Rightarrow> string option list \<Rightarrow> (nat \<times> string option list) option" where
  "procedure_params tokens i params =
     (if js_nth tokens i = Some '')'' then Some (i, params)
      else procedure_params tokens (i + 1)
             (if js_nth tokens i \<noteq> Some '','' then params @ [js_nth tokens i] else params))"

declare procedure_params.simps [code]

definition parseStoredProcedure :: "string list \<Rightarrow> (js_error + command) option" where
  "parseStoredProcedure tokens =
     (case bindE (upper_at tokens 0) (\<lambda>t0. if t0 \<noteq> ''SIMPAN'' then Inr [] else upper_at tokens 1) of
        Inl e \<Rightarrow> Some (Inl e)
      | Inr t1 \<Rightarrow>
          if t1 \<noteq> ''SOP'' then Some (Inl (Error ''Syntax: SIMPAN SOP [nama] (...) SEBAGAI [query]''))
          else if falsy (js_nth tokens 2) then Some (Inl (Error ''Procedure name required''))
          else
            (case (if js_nth tokens 3 = Some ''('' then procedure_params tokens 4 []
                   else Some (2, [])) of
               None \<Rightarrow> None
             | Some (i, params) \<Rightarrow>
                 Some (bindE (upper_at tokens (i + 1)) (\<lambda>t.
                         if t \<noteq> ''SEBAGAI'' then Inl (Error ''Expected SEBAGAI after parameters'')
                         else Inr (CREATE_PROCEDURE (tokens ! 2) params
                                    (join_space (drop (i + 2) tokens)))))))"

function procedure_args :: "string list \<Rightarrow> nat \<Rightarrow> jsval list \<Rightarrow> js_error + jsval list" where
  "procedure_args tokens i args =
     (case js_nth tokens i of
        None \<Rightarrow> Inl (undefined_read ''startsWith'')
      | Some t \<Rightarrow>
          if t = '')'' then Inr args
          else procedure_args tokens (i + 1) (if t \<noteq> '','' then args @ [token_value t] else args))"
  by pat_completeness auto
termination
  by (relation "measure (\<lambda>(tokens, i, args). length tokens - i)") (auto dest: js_nth_SomeD)

declare procedure_args.simps [simp del]

definition parseExecuteProcedure :: "string list \<Rightarrow> js_error + command" where
  "parseExecuteProcedure tokens =
     bindE (upper_at tokens 0) (\<lambda>t0.
     bindE (if t0 \<noteq> ''JALANKAN'' then Inr [] else upper_at tokens 1) (\<lambda>t1.
       if t0 \<noteq> ''JALANKAN'' \<or> t1 \<noteq> ''SOP'' then Inl (Error ''Syntax: JALANKAN SOP [nama] (...)'')
       else if falsy (js_nth tokens 2) then Inl (Error ''Procedure name required'')
       else
         bindE (if js_nth tokens 3 = Some ''('' then procedure_args tokens 4 [] else Inr []) (\<lambda>args.
           Inr (EXECUTE_PROCEDURE (tokens ! 2) args))))"

definition strip_quotes :: "string \<Rightarrow> string" where
  "strip_quotes s = (if starts_with_quote s then slice1 s else s)"

definition parseBackup :: "string list \<Rightarrow> js_error + command" where
  "parseBackup tokens =
     bindE (upper_at tokens 0) (\<lambda>t0.
     bindE (if t0 \<noteq> ''CADANGKAN'' then Inr [] else upper_at tokens 1) (\<lambda>t1.
       if t0 \<noteq> ''CADANGKAN'' \<or> t1 \<noteq> ''LUMBUNG'' then Inl (Error ''Syntax: CADANGKAN LUMBUNG KE [path]'')
       else
         bindE (upper_at tokens 2) (\<lambda>t2.
           if t2 \<noteq> ''KE'' then Inl (Error ''Expected KE after LUMBUNG'')
           else if falsy (js_nth tokens 3) then Inl (Error ''Backup path required'')
           else Inr (BACKUP (strip_quotes (tokens ! 3))))))"

definition parseRestore :: "string list \<Rightarrow> js_error + command" where
  "parseRestore tokens =
     bindE (upper_at tokens 0) (\<lambda>t0.
     bindE (if t0 \<noteq> ''PULIHKAN'' then Inr [] else upper_at tokens 1) (\<lambda>t1.
       if t0 \<noteq> ''PULIHKAN'' \<or> t1 \<noteq> ''LUMBUNG'' then Inl (Error ''Syntax: PULIHKAN LUMBUNG DARI [path]'')
       else
         bindE (upper_at tokens 2) (\<lambda>t2.
           if t2 \<noteq> ''DARI'' then Inl (Error ''Expected DARI after LUMBUNG'')
           else if falsy (js_nth tokens 3) then Inl (Error ''Backup path required'')
           else Inr (RESTORE (strip_quotes (tokens ! 3))))))"

section \<open>Parameter binding and \<open>parse\<close>\<close>

text \<open>
  \<open>bindValue\<close>: a string value \<open>@name\<close> is replaced by \<open>params[name]\<close> when
  \<open>params.hasOwnProperty(name)\<close> holds; the call can throw.  The parameters are an
  object; an array of parameters is the object of its indices and its \<open>length\<close>.
\<close>

definition bindValue :: "obj \<Rightarrow> jsval \<Rightarrow> js_error + jsval" where
  "bindValue params val =
     (case val of
        VStr s \<Rightarrow>
          (if take 1 s = ''@''
           then bindE (hasOwnProperty_call ''params.hasOwnProperty'' params (drop 1 s))
                  (\<lambda>has. Inr (if has then obj_get params (drop 1 s) else val))
           else Inr val)
      | _ \<Rightarrow> Inr val)"

text \<open>\<open>vals.map(f)\<close> for a function that may throw: the first exception ends the walk.\<close>

fun map_throwing :: "('a \<Rightarrow> js_error + 'b) \<Rightarrow> 'a list \<Rightarrow> js_error + 'b list" where
  "map_throwing f [] = Inr []"
| "map_throwing f (x # xs) =
     (case f x of
        Inl e \<Rightarrow> Inl e
      | Inr y \<Rightarrow> (case map_throwing f xs of Inl e \<Rightarrow> Inl e | Inr ys \<Rightarrow> Inr (y # ys)))"

text \<open>
  \<open>_info_bindCriteria\<close> walks the tree.  Reading \<open>criteria.type\<close> of a slot that
  holds \<open>undefined\<close> throws a \<open>TypeError\<close>.
\<close>

fun bindCriteria :: "(jsval \<Rightarrow> js_error + jsval) \<Rightarrow> criteria \<Rightarrow> js_error + criteria"
  and bindCriteriaList :: "(jsval \<Rightarrow> js_error + jsval) \<Rightarrow> criteria list \<Rightarrow> js_error + criteria list" where
  "bindCriteria f NoCond = Inl (undefined_read ''type'')"
| "bindCriteria f (Compound l cs) =
     (case bindCriteriaList f cs of Inl e \<Rightarrow> Inl e | Inr cs' \<Rightarrow> Inr (Compound l cs'))"
| "bindCriteria f (Cond k op v) =
     (case (case v of VArr vs \<Rightarrow> bindE (map_throwing f vs) (\<lambda>vs'. Inr (VArr vs')) | _ \<Rightarrow> f v) of
        Inl e \<Rightarrow> Inl e
      | Inr v' \<Rightarrow> Inr (Cond k op v'))"
| "bindCriteria f (Logic op) = Inr (Logic op)"
| "bindCriteriaList f [] = Inr []"
| "bindCriteriaList f (c # cs) =
     (case bindCriteria f c of
        Inl e \<Rightarrow> Inl e
      | Inr c' \<Rightarrow> (case bindCriteriaList f cs of Inl e \<Rightarrow> Inl e | Inr cs' \<Rightarrow> Inr (c' # cs')))"

definition bindCriteriaOpt :: "obj \<Rightarrow> criteria option \<Rightarrow> js_error + criteria option" where
  "bindCriteriaOpt params c =
     (case c of
        None \<Rightarrow> Inr None
      | Some t \<Rightarrow> bindE (bindCriteria (bindValue params) t) (\<lambda>t'. Inr (Some t')))"

text \<open>The loops \<open>for (const key in ...)\<close> over the data of an insert and over the updates.\<close>

definition bindProperties :: "obj \<Rightarrow> obj \<Rightarrow> js_error + obj" where
  "bindProperties params ob =
     map_throwing (\<lambda>(k, v). bindE (bindValue params v) (\<lambda>v'. Inr (k, v'))) ob"

definition bindParameters :: "command \<Rightarrow> obj \<Rightarrow> js_error + command" where
  "bindParameters command params =
     (case command of
        SELECT s \<Rightarrow>
          bindE (bindCriteriaOpt params (sel_criteria s)) (\<lambda>c. Inr (SELECT (s\<lparr>sel_criteria := c\<rparr>)))
      | DELETE t c \<Rightarrow> bindE (bindCriteriaOpt params c) (\<lambda>c'. Inr (DELETE t c'))
      | UPDATE t updates c \<Rightarrow>
          bindE (bindCriteriaOpt params c) (\<lambda>c'.
          bindE (bindProperties params updates) (\<lambda>updates'. Inr (UPDATE t updates' c')))
      | AGGREGATE a \<Rightarrow>
          bindE (bindCriteriaOpt params (agg_criteria a)) (\<lambda>c. Inr (AGGREGATE (a\<lparr>agg_criteria := c\<rparr>)))
      | INSERT t data \<Rightarrow> bindE (bindProperties params data) (\<lambda>data'. Inr (INSERT t data'))
      | _ \<Rightarrow> Inr command)"

text \<open>
  The \<open>switch\<close> of \<open>parse\<close> on the upper-cased first token.  \<open>None\<close> is a run that
  does not return.
\<close>

definition parse_statement :: "string list \<Rightarrow> (js_error + command) option" where
  "parse_statement tokens =
     (let cmd = toUpperCase (tokens ! 0) in
      if cmd = ''LAHAN'' \<or> cmd = ''CREATE'' then
        Some (if upper_in tokens 1 [''INDEX''] then parseCreateIndex tokens else parseCreate tokens)
      else if cmd = ''LIHAT'' \<or> cmd = ''SHOW'' then Some (parseShow tokens)
      else if cmd = ''TANAM'' \<or> cmd = ''INSERT'' then Some (parseInsert tokens)
      else if cmd = ''PANEN'' \<or> cmd = ''SELECT'' then Some (parseSelect tokens)
      else if cmd = ''GUSUR'' \<or> cmd = ''DELETE'' then Some (parseDelete tokens)
      else if cmd = ''PUPUK'' \<or> cmd = ''UPDATE'' then Some (parseUpdate tokens)
      else if cmd = ''BAKAR'' \<or> cmd = ''DROP'' then Some (parseDrop tokens)
      else if cmd = ''INDEKS'' then Some (parseCreateIndex tokens)
      else if cmd = ''HITUNG'' then Some (parseAggregate tokens)
      else if cmd = ''EXPLAIN'' \<or> cmd = ''JELASKAN'' then Some (parseExplain tokens)
      else if cmd = ''MULAI'' then Some (parseBeginTransaction tokens)
      else if cmd = ''BEGIN'' then Some (Inr BEGIN_TRANSACTION)
      else if cmd = ''SAHKAN'' \<or> cmd = ''COMMIT'' then Some (Inr COMMIT)
      else if cmd = ''BATALKAN'' \<or> cmd = ''ROLLBACK'' then Some (Inr ROLLBACK)
      else if cmd = ''PASANG'' then Some (parseCreateViewOrTrigger tokens)
      else if cmd = ''BUANG'' then Some (parseDropViewOrTrigger tokens)
      else if cmd = ''SERTIFIKASI'' then parseSchemaDefinition tokens
      else if cmd = ''SIMPAN'' then parseStoredProcedure tokens
      else if cmd = ''JALANKAN'' then Some (parseExecuteProcedure tokens)
      else if cmd = ''CADANGKAN'' then Some (parseBackup tokens)
      else if cmd = ''PULIHKAN'' then Some (parseRestore tokens)
      else Some (Inl (Error (''Perintah tidak dikenal: '' @ cmd))))"

text \<open>
  \<open>parse(queryString, params)\<close>: everything after the emptiness test runs inside
  \<open>try\<close>, and \<open>catch\<close> turns any exception into an \<open>ERROR\<close> command.  \<open>params\<close>
  is \<open>None\<close> when the caller passes none.
\<close>

definition parse :: "string \<Rightarrow> obj option \<Rightarrow> command option" where
  "parse queryString params =
     (let tokens = tokenize queryString in
      if tokens = [] then Some EMPTY
      else
        (case parse_statement tokens of
           None \<Rightarrow> None
         | Some (Inl e) \<Rightarrow> Some (ERROR (message e))
         | Some (Inr command) \<Rightarrow>
             (case params of
                None \<Rightarrow> Some command
              | Some ps \<Rightarrow>
                  (case bindParameters command ps of
                     Inl e \<Rightarrow> Some (ERROR (message e))
                   | Inr command' \<Rightarrow> Some command'))))"

section \<open>Properties of the parser\<close>

subsection \<open>The field loop of \<open>parseSchemaDefinition\<close> past the last token\<close>

lemma js_nth_beyond: "length xs \<le> i \<Longrightarrow> js_nth xs i = None"
  by (simp add: js_nth_def)

lemma schema_modifiers_beyond:
  "length tokens \<le> i \<Longrightarrow> schema_modifiers tokens i required dflt = Inr (i, required, dflt)"
  by (subst schema_modifiers.simps) (simp add: js_nth_beyond)

lemma schema_fields_step_inside:
  assumes IH: "\<And>t i s y. f t i s = Some y \<Longrightarrow> i < length t"
    and body: "(if js_nth tokens i = Some '')'' then Some (Inr schema)
      else case schema_modifiers tokens (i + 2) False VUndefined of
           Inl e \<Rightarrow> Some (Inl e)
           | Inr (j, required, dflt) \<Rightarrow>
               f tokens (if js_nth tokens j = Some '','' then j + 1 else j)
                (obj_set schema (property_key (js_nth tokens i))
                  \<lparr>fc_type = js_nth tokens (i + 1), fc_required = required,
                     fc_default = dflt\<rparr>)) = Some r"
  shows "i < length tokens"
proof (rule ccontr)
  assume "\<not> i < length tokens"
  then have out: "length tokens \<le> i" by simp
  then have "length tokens \<le> i + 2" by simp
  then have m: "schema_modifiers tokens (i + 2) False VUndefined = Inr (i + 2, False, VUndefined)"
    and n2: "js_nth tokens (i + 2) = None"
    by (simp_all only: schema_modifiers_beyond js_nth_beyond)
  from out have n: "js_nth tokens i = None" by (simp add: js_nth_beyond)
  from body have "\<exists>s. f tokens (i + 2) s = Some r"
    unfolding m n using n2 by auto
  then obtain s where "f tokens (i + 2) s = Some r" ..
  then have "i + 2 < length tokens" by (rule IH)
  with out show False by simp
qed

lemma schema_fields_returns_inside:
  assumes "schema_fields tokens i schema = Some r"
  shows "i < length tokens"
  by (rule schema_fields.raw_induct [where P = "\<lambda>t i s y. i < length t", OF _ assms])
    (rule schema_fields_step_inside)

lemma schema_fields_beyond: "length tokens \<le> i \<Longrightarrow> schema_fields tokens i schema = None"
  using schema_fields_returns_inside [of tokens i schema]
  by (cases "schema_fields tokens i schema") auto

lemma tokenize_unclosed_schema:
  "tokenize ''SERTIFIKASI LAHAN t ('' = [''SERTIFIKASI'', ''LAHAN'', ''t'', ''('']"
  by code_simp

lemma parse_unclosed_schema: "parse ''SERTIFIKASI LAHAN t ('' None = None"
proof -
  have "schema_fields [''SERTIFIKASI'', ''LAHAN'', ''t'', ''(''] 4 [] = None"
    by (rule schema_fields_beyond) simp
  then have "parseSchemaDefinition [''SERTIFIKASI'', ''LAHAN'', ''t'', ''(''] = None"
    by (simp add: parseSchemaDefinition_def upper_at_def js_nth_def toUpperCase_def toUpper_char_def
        lower_letters_def upper_letters_def falsy_def)
  then show ?thesis
    by (simp add: parse_def tokenize_unclosed_schema parse_statement_def toUpperCase_def
        toUpper_char_def lower_letters_def upper_letters_def)
qed

text \<open>
  C2 (the code breaks the claim).  \<open>parse\<close> does not return on every input string: on
  a schema definition whose parenthesis is never closed the field loop runs forever, so no
  command record, not even an \<open>ERROR\<close> record, is returned.
\<close>

theorem parse_unclosed_schema_diverges: "parse ''SERTIFIKASI LAHAN t ('' None = None"
  by (rule parse_unclosed_schema)

text \<open>
  Every other statement keyword is parsed by a total function: \<open>parse\<close> returns a
  command unless the statement starts with \<open>SERTIFIKASI\<close> or \<open>SIMPAN\<close>, and a
  statement parser that throws yields the \<open>ERROR\<close> command with the message thrown.
\<close>

lemma parse_statement_returns:
  assumes "toUpperCase (tokens ! 0) \<noteq> ''SERTIFIKASI''" and "toUpperCase (tokens ! 0) \<noteq> ''SIMPAN''"
  shows "\<exists>r. parse_statement tokens = Some r"
  using assms by (simp add: parse_statement_def Let_def)

lemma parse_returns:
  assumes "toUpperCase (tokenize q ! 0) \<noteq> ''SERTIFIKASI''" and "toUpperCase (tokenize q ! 0) \<noteq> ''SIMPAN''"
  shows "\<exists>c. parse q params = Some c"
proof -
  from parse_statement_returns [OF assms] obtain r where "parse_statement (tokenize q) = Some r" ..
  then show ?thesis
    by (cases r; cases params) (auto simp: parse_def Let_def split: sum.splits)
qed

lemma parse_error_record:
  assumes "tokenize q \<noteq> []" and "parse_statement (tokenize q) = Some (Inl e)"
  shows "parse q params = Some (ERROR (message e))"
  using assms by (simp add: parse_def Let_def)

subsection \<open>\<open>BETWEEN\<close> and \<open>IS NULL\<close> in \<open>parseWhere\<close>\<close>

text \<open>
  C3 (the code breaks the claim).  In the \<open>WHERE\<close> clause of the README's example the
  condition \<open>status IS NOT NULL\<close> is linked by \<open>AND\<close> to the \<open>BETWEEN\<close> condition;
  the tree \<open>parseWhere\<close> builds is an \<open>OR\<close> node over the \<open>BETWEEN\<close> condition and
  a node that holds a connector and an empty slot: the second condition is lost and no
  \<open>AND\<close> group of the two conditions exists.
\<close>

theorem parseWhere_between_example:
  "parseWhere (tokenize ''age BETWEEN 18 AND 30 AND status IS NOT NULL'') 0 =
     Inr (Some (Compound ''OR''
                 [Cond ''age'' ''BETWEEN'' (VArr [VNum (Fin 18), VNum (Fin 30)]),
                  Compound ''AND'' [Logic ''AND'', NoCond]]))"
  by code_simp

lemma parse_between_example:
  "parse ''SELECT * FROM users WHERE age BETWEEN 18 AND 30 AND status IS NOT NULL'' None =
     Some (SELECT \<lparr>sel_table = Some ''users'', sel_cols = [''*''], sel_joins = [],
            sel_criteria =
              Some (Compound ''OR''
                     [Cond ''age'' ''BETWEEN'' (VArr [VNum (Fin 18), VNum (Fin 30)]),
                      Compound ''AND'' [Logic ''AND'', NoCond]]),
            sel_sort = None, sel_limit = None, sel_offset = None, sel_distinct = False\<rparr>)"
  by code_simp


text \<open>
  With ordinary comparisons and \<open>IN\<close> lists the tree is the one the claim describes: the
  conditions linked by \<open>AND\<close> form one node each, and \<open>OR\<close> joins the nodes.
\<close>

lemma parseWhere_precedence_example:
  "parseWhere (tokenize ''a = 1 AND b = 2 OR c = 3 AND d IN (1, 2)'') 0 =
     Inr (Some (Compound ''OR''
                 [Compound ''AND'' [Cond ''a'' ''='' (VNum (Fin 1)), Cond ''b'' ''='' (VNum (Fin 2))],
                  Compound ''AND'' [Cond ''c'' ''='' (VNum (Fin 3)),
                                    Cond ''d'' ''IN'' (VArr [VNum (Fin 1), VNum (Fin 2)])]]))"
  by code_simp
section \<open>The engine: \<open>SawitDB.query\<close>\<close>

text \<open>
  Modelled from the spec: the \<open>TransactionManager\<close> (\<open>services/TransactionManager\<close> is
  not among the source files).  The buffer records the ordered list of buffered
  \<open>INSERT\<close>, \<open>UPDATE\<close> and \<open>DELETE\<close> commands; \<open>BEGIN\<close> inside an active
  transaction is an error; \<open>ROLLBACK\<close> discards the buffer.
\<close>

record tx_state =
  tx_active :: bool
  tx_buffer :: "(string \<times> command) list"

definition isActive :: "tx_state \<Rightarrow> bool" where
  "isActive t = tx_active t"

definition tx_begin :: "tx_state \<Rightarrow> js_error + tx_state" where
  "tx_begin t =
     (if tx_active t then Inl (Error ''Transaction already active'')
      else Inr \<lparr>tx_active = True, tx_buffer = []\<rparr>)"

definition bufferOperation :: "string \<Rightarrow> command \<Rightarrow> tx_state \<Rightarrow> tx_state" where
  "bufferOperation kind cmd t = t\<lparr>tx_buffer := tx_buffer t @ [(kind, cmd)]\<rparr>"

definition tx_rollback :: "tx_state \<Rightarrow> tx_state" where
  "tx_rollback t = \<lparr>tx_active = False, tx_buffer = []\<rparr>"

text \<open>
  The database handle.  \<open>store\<close> is everything the executors and managers read and
  write: the pages behind the pager, the catalog, the indexes, the views and schemas.
  \<open>pager_open\<close> is false once \<open>close()\<close> has set \<open>this.pager\<close> to \<open>null\<close>.
  \<open>queryCache\<close> is the \<open>Map\<close> from query text to parsed command, in insertion order.
\<close>

record 's db =
  pager_open :: bool
  queryCache :: "(string \<times> command) list"
  queryString :: string
  tx :: tx_state
  store :: 's

definition close :: "'s db \<Rightarrow> 's db" where
  "close d = d\<lparr>pager_open := False\<rparr>"

text \<open>
  The services behind the \<open>switch\<close> of \<open>query\<close>, over a store of any type.
  \<open>run\<close> stands for the calls the switch makes to the managers and executors other
  than the insert executor (several of them, the table manager and the select, delete,
  update and aggregate executors among them, are not among the source files): the call
  made for a command, its result or exception, and its effect on the store.
  \<open>insert_many\<close> stands for \<open>InsertExecutor.insertMany\<close> on the store, which a later
  section models on the pages of the pager.  \<open>reply\<close> is the value the transaction
  manager returns, which the spec does not fix.
\<close>

record 's services =
  run :: "command \<Rightarrow> 's \<Rightarrow> (js_error + jsval) \<times> 's"
  insert_many :: "string option \<Rightarrow> obj list \<Rightarrow> 's \<Rightarrow> (js_error + jsval) \<times> 's"
  reply :: "string \<Rightarrow> jsval"

text \<open>
  \<open>InsertExecutor.execute\<close>: empty data is refused before anything is read or written;
  a single object is wrapped into an array.
\<close>

definition insert_execute ::
  "'s services \<Rightarrow> string option \<Rightarrow> obj \<Rightarrow> 's \<Rightarrow> (js_error + jsval) \<times> 's" where
  "insert_execute sv table data s =
     (if data = []
      then (Inl (Error ''Data kosong / fiktif? Ini melanggar integritas (Korupsi Data).''), s)
      else insert_many sv table [data] s)"

text \<open>
  Modelled from the spec: \<open>COMMIT\<close> replays the buffered operations in order against the
  live executors; a failure aborts and triggers rollback; the buffer is discarded.
\<close>

definition replay_one :: "'s services \<Rightarrow> command \<Rightarrow> 's \<Rightarrow> (js_error + jsval) \<times> 's" where
  "replay_one sv cmd s =
     (case cmd of INSERT table data \<Rightarrow> insert_execute sv table data s | _ \<Rightarrow> run sv cmd s)"

fun replay :: "'s services \<Rightarrow> (string \<times> command) list \<Rightarrow> 's \<Rightarrow> js_error option \<times> 's" where
  "replay sv [] s = (None, s)"
| "replay sv ((kind, cmd) # ops) s =
     (case replay_one sv cmd s of
        (Inl e, s') \<Rightarrow> (Some e, s')
      | (Inr v, s') \<Rightarrow> replay sv ops s')"

definition lift_store :: "'s db \<Rightarrow> ('a \<times> 's) \<Rightarrow> 'a \<times> 's db" where
  "lift_store d r = (fst r, d\<lparr>store := snd r\<rparr>)"

text \<open>
  \<open>BackupManager.createBackup\<close> and \<open>restoreBackup\<close> are \<open>async\<close> functions: the call
  returns a promise and throws nothing; what the body returns or throws is how the
  promise settles.  The effect of the body on the store is taken at the call.
\<close>

definition settled :: "'s db \<Rightarrow> (js_error + jsval) \<times> 's \<Rightarrow> (js_error + jsval) \<times> 's db" where
  "settled d r = (Inr (VPromise (fst r)), d\<lparr>store := snd r\<rparr>)"

text \<open>
  The \<open>switch\<close> on the command type.  While a transaction is active the three write
  commands go to \<open>bufferOperation\<close> and return; otherwise to their executor.
\<close>

definition dispatch :: "'s services \<Rightarrow> 's db \<Rightarrow> command \<Rightarrow> (js_error + jsval) \<times> 's db" where
  "dispatch sv d cmd =
     (case cmd of
        INSERT table data \<Rightarrow>
          if isActive (tx d)
          then (Inr (reply sv ''INSERT''), d\<lparr>tx := bufferOperation ''INSERT'' cmd (tx d)\<rparr>)
          else lift_store d (insert_execute sv table data (store d))
      | DELETE table criteria \<Rightarrow>
          if isActive (tx d)
          then (Inr (reply sv ''DELETE''), d\<lparr>tx := bufferOperation ''DELETE'' cmd (tx d)\<rparr>)
          else lift_store d (run sv cmd (store d))
      | UPDATE table updates criteria \<Rightarrow>
          if isActive (tx d)
          then (Inr (reply sv ''UPDATE''), d\<lparr>tx := bufferOperation ''UPDATE'' cmd (tx d)\<rparr>)
          else lift_store d (run sv cmd (store d))
      | BEGIN_TRANSACTION \<Rightarrow>
          (case tx_begin (tx d) of
             Inl e \<Rightarrow> (Inl e, d)
           | Inr t \<Rightarrow> (Inr (reply sv ''BEGIN''), d\<lparr>tx := t\<rparr>))
      | COMMIT \<Rightarrow>
          (case replay sv (tx_buffer (tx d)) (store d) of
             (None, s) \<Rightarrow> (Inr (reply sv ''COMMIT''), d\<lparr>tx := tx_rollback (tx d), store := s\<rparr>)
           | (Some e, s) \<Rightarrow> (Inl e, d\<lparr>tx := tx_rollback (tx d), store := s\<rparr>))
      | ROLLBACK \<Rightarrow> (Inr (reply sv ''ROLLBACK''), d\<lparr>tx := tx_rollback (tx d)\<rparr>)
      | ERROR m \<Rightarrow>
          (Inr (VStr ''Perintah tidak dikenal atau belum diimplementasikan di Engine Refactor.''), d)
      | EMPTY \<Rightarrow>
          (Inr (VStr ''Perintah tidak dikenal atau belum diimplementasikan di Engine Refactor.''), d)
      | BACKUP path \<Rightarrow> settled d (run sv cmd (store d))
      | RESTORE path \<Rightarrow> settled d (run sv cmd (store d))
      | _ \<Rightarrow> lift_store d (run sv cmd (store d)))"

text \<open>\<open>try { switch ... } catch (e) { return `Error: ${e.message}` }\<close>.\<close>

definition guarded_dispatch :: "'s services \<Rightarrow> 's db \<Rightarrow> command \<Rightarrow> (js_error + jsval) \<times> 's db" where
  "guarded_dispatch sv d cmd =
     (case dispatch sv d cmd of
        (Inl e, d') \<Rightarrow> (Inr (VStr (''Error: '' @ message e)), d')
      | (Inr v, d') \<Rightarrow> (Inr v, d'))"

definition queryCacheLimit :: nat where
  "queryCacheLimit = 1000"

text \<open>A cache hit moves the entry to the end; a new entry may push the oldest ones out.\<close>

definition cache_touch :: "(string \<times> command) list \<Rightarrow> string \<Rightarrow> command \<Rightarrow> (string \<times> command) list" where
  "cache_touch cache key cached = filter (\<lambda>e. fst e \<noteq> key) cache @ [(key, cached)]"

definition cache_store :: "(string \<times> command) list \<Rightarrow> string \<Rightarrow> command \<Rightarrow> (string \<times> command) list" where
  "cache_store cache key cmd =
     (let c = obj_set cache key cmd in drop (length c - queryCacheLimit) c)"

text \<open>
  \<open>query(queryString, params)\<close>.  The outer \<open>None\<close> is a call that does not return;
  \<open>Inl\<close> is an exception that leaves \<open>query\<close>.  The parser is called without the
  parameters; \<open>_bindParameters\<close> is called after it, before the \<open>try\<close> block.
\<close>

definition error_message :: "command \<Rightarrow> string option" where
  "error_message cmd = (case cmd of ERROR m \<Rightarrow> Some m | _ \<Rightarrow> None)"

definition query ::
  "'s services \<Rightarrow> 's db \<Rightarrow> string \<Rightarrow> obj option \<Rightarrow> ((js_error + jsval) \<times> 's db) option" where
  "query sv d0 qs params =
     (if \<not> pager_open d0 then Some (Inr (VStr ''Error: Database is closed.''), d0)
      else
        let d = d0\<lparr>queryString := qs\<rparr> in
        (case (if params = None then map_of (queryCache d) qs else None) of
           Some cached \<Rightarrow>
             Some (guarded_dispatch sv (d\<lparr>queryCache := cache_touch (queryCache d) qs cached\<rparr>) cached)
         | None \<Rightarrow>
             (case parse qs None of
                None \<Rightarrow> None
              | Some templateCmd \<Rightarrow>
                  (case error_message templateCmd of
                     Some m \<Rightarrow> Some (Inr (VStr (''Error: '' @ m)), d)
                   | None \<Rightarrow>
                       (case params of
                          None \<Rightarrow>
                            Some (guarded_dispatch sv
                                   (d\<lparr>queryCache := cache_store (queryCache d) qs templateCmd\<rparr>)
                                   templateCmd)
                        | Some ps \<Rightarrow>
                            (case bindParameters templateCmd ps of
                               Inl e \<Rightarrow> Some (Inl e, d)
                             | Inr cmd \<Rightarrow> Some (guarded_dispatch sv d cmd)))))))"

section \<open>The network front end: \<open>SawitServer.handleQuery\<close>\<close>

record session =
  authenticated :: bool
  currentDatabase :: "string option"

text \<open>
  A response frame: \<open>{type: 'query_result', result, query, executionTime}\<close> (the time is
  left out) or \<open>{type: 'error', error}\<close>.
\<close>

datatype frame = QueryResultFrame jsval string | ErrorFrame string

record 's server =
  databases :: "(string \<times> 's db) list"
  threadPool :: bool
  totalQueries :: nat
  errors :: nat

text \<open>
  The statements \<open>handleQuery\<close> answers itself, before any database is consulted:
  the tests on \<open>query.trim().toUpperCase()\<close>, in the order of the source.
\<close>

definition server_level :: "string \<Rightarrow> bool" where
  "server_level q =
     (let qUpper = toUpperCase (trim q) in
      qUpper = ''LIHAT WILAYAH'' \<or> take 12 qUpper = ''BUKA WILAYAH'' \<or>
      take 13 qUpper = ''MASUK WILAYAH'' \<or> take 13 qUpper = ''BAKAR WILAYAH'' \<or>
      take 15 qUpper = ''CREATE DATABASE'' \<or> take 4 qUpper = ''USE '' \<or>
      qUpper = ''SHOW DATABASES'' \<or> take 13 qUpper = ''DROP DATABASE'')"

text \<open>
  \<open>await Promise.resolve(v)\<close>: a value that is no promise is the result; a promise
  gives its value when it is fulfilled and throws its error when it is rejected.
\<close>

fun awaited :: "jsval \<Rightarrow> js_error + jsval" where
  "awaited (VPromise (Inl e)) = Inl e"
| "awaited (VPromise (Inr v)) = awaited v"
| "awaited v = Inr v"

text \<open>
  \<open>getOrCreateDatabase(name)\<close>: the database of the map, or a new one from the
  constructor \<open>opener\<close>, which can throw.
\<close>

definition getOrCreateDatabase :: "(string \<Rightarrow> js_error + 's db) \<Rightarrow> 's server \<Rightarrow> string \<Rightarrow> js_error + 's db" where
  "getOrCreateDatabase opener srv name =
     (case map_of (databases srv) name of Some d \<Rightarrow> Inr d | None \<Rightarrow> opener name)"

text \<open>
  \<open>handleQuery\<close>.  \<open>wilayah\<close> stands for the eight server-level branches (they work on
  the data directory); \<open>opener\<close> is the \<open>SawitDB\<close> constructor called by
  \<open>getOrCreateDatabase\<close>; \<open>offload\<close> is \<open>await this.threadPool.execute(...)\<close>, the
  result or the rejection that the worker pool delivers.  The result \<open>None\<close> means that
  no frame is sent because the query never returns.
\<close>

definition handleQuery ::
  "'s services \<Rightarrow> (string \<Rightarrow> js_error + 's db) \<Rightarrow>
   ('s server \<Rightarrow> string \<Rightarrow> string \<Rightarrow> (js_error + jsval) \<times> 's server) \<Rightarrow>
   ('s server \<Rightarrow> session \<Rightarrow> string \<Rightarrow> frame \<times> 's server \<times> session) \<Rightarrow>
   's server \<Rightarrow> session \<Rightarrow> string \<Rightarrow> obj option \<Rightarrow> (frame \<times> 's server \<times> session) option" where
  "handleQuery sv opener offload wilayah srv ctx q params =
     (if server_level q then Some (wilayah srv ctx q)
      else
        (case currentDatabase ctx of
           None \<Rightarrow>
             Some (ErrorFrame ''Anda belum masuk wilayah manapun. Gunakan: MASUK WILAYAH [nama]'', srv, ctx)
         | Some name \<Rightarrow>
             if threadPool srv then
               (case offload srv name q of
                  (Inl e, srv') \<Rightarrow>
                    Some (ErrorFrame (''Query error: '' @ message e), srv'\<lparr>errors := errors srv' + 1\<rparr>, ctx)
                | (Inr result, srv') \<Rightarrow>
                    Some (QueryResultFrame result q, srv'\<lparr>totalQueries := totalQueries srv' + 1\<rparr>, ctx))
             else
               (case getOrCreateDatabase opener srv name of
                  Inl e \<Rightarrow>
                    Some (ErrorFrame (''Query error: '' @ message e), srv\<lparr>errors := errors srv + 1\<rparr>, ctx)
                | Inr d \<Rightarrow>
                    (case query sv d q params of
                       None \<Rightarrow> None
                     | Some (r, d') \<Rightarrow>
                         (case bindE r awaited of
                            Inl e \<Rightarrow>
                              Some (ErrorFrame (''Query error: '' @ message e),
                                    srv\<lparr>databases := obj_set (databases srv) name d',
                                        errors := errors srv + 1\<rparr>, ctx)
                          | Inr result \<Rightarrow>
                              Some (QueryResultFrame result q,
                                    srv\<lparr>databases := obj_set (databases srv) name d',
                                        totalQueries := totalQueries srv + 1\<rparr>, ctx))))))"
section \<open>Properties of the engine and the front end\<close>

definition fresh_db :: "'s \<Rightarrow> 's db" where
  "fresh_db s =
     \<lparr>pager_open = True, queryCache = [], queryString = [],
      tx = \<lparr>tx_active = False, tx_buffer = []\<rparr>, store = s\<rparr>"

text \<open>Services on a store without content, for closed examples.\<close>

definition idle_services :: "unit services" where
  "idle_services =
     \<lparr>run = (\<lambda>cmd s. (Inr VNull, s)),
      insert_many = (\<lambda>table rows s. (Inr (VStr ''1 bibit tertanam.''), s)),
      reply = (\<lambda>kind. VStr kind)\<rparr>"

definition write_kind :: "command \<Rightarrow> string option" where
  "write_kind cmd =
     (case cmd of
        INSERT table data \<Rightarrow> Some ''INSERT''
      | DELETE table criteria \<Rightarrow> Some ''DELETE''
      | UPDATE table updates criteria \<Rightarrow> Some ''UPDATE''
      | _ \<Rightarrow> None)"

text \<open>The command \<open>query\<close> hands to the \<open>switch\<close>: from the cache, or parsed and bound.\<close>

definition command_of :: "(string \<times> command) list \<Rightarrow> string \<Rightarrow> obj option \<Rightarrow> (js_error + command) option" where
  "command_of cache qs params =
     (case (if params = None then map_of cache qs else None) of
        Some cached \<Rightarrow> Some (Inr cached)
      | None \<Rightarrow>
          (case parse qs None of
             None \<Rightarrow> None
           | Some t \<Rightarrow> (case params of None \<Rightarrow> Some (Inr t) | Some ps \<Rightarrow> Some (bindParameters t ps))))"

lemma dispatch_buffers:
  assumes "isActive (tx d)" and "write_kind cmd = Some kind"
  shows "dispatch sv d cmd = (Inr (reply sv kind), d\<lparr>tx := bufferOperation kind cmd (tx d)\<rparr>)"
  using assms by (cases cmd) (auto simp: dispatch_def write_kind_def)

lemma guarded_dispatch_buffers:
  assumes "isActive (tx d)" and "write_kind cmd = Some kind"
  shows "guarded_dispatch sv d cmd = (Inr (reply sv kind), d\<lparr>tx := bufferOperation kind cmd (tx d)\<rparr>)"
  by (simp add: guarded_dispatch_def dispatch_buffers [OF assms])

lemma bindParameters_write_kind:
  "bindParameters t ps = Inr cmd \<Longrightarrow> write_kind t = write_kind cmd"
  by (cases t) (auto simp: bindParameters_def write_kind_def bindE_def split: sum.splits)

lemma write_kind_no_error: "write_kind cmd = Some kind \<Longrightarrow> error_message cmd = None"
  by (cases cmd) (auto simp: write_kind_def error_message_def)

lemma query_dispatches:
  assumes op: "pager_open d"
    and c: "command_of (queryCache d) qs params = Some (Inr cmd)"
    and w: "write_kind cmd = Some kind"
  shows "\<exists>d1. query sv d qs params = Some (guarded_dispatch sv d1 cmd) \<and>
              tx d1 = tx d \<and> store d1 = store d"
proof (cases params)
  case np: None
  show ?thesis
  proof (cases "map_of (queryCache d) qs")
    case (Some cached)
    with c np have "cached = cmd" by (simp add: command_of_def)
    with Some np op show ?thesis
      by (intro exI [of _ "d\<lparr>queryString := qs, queryCache := cache_touch (queryCache d) qs cmd\<rparr>"])
        (simp add: query_def Let_def)
  next
    case None
    with np c have p: "parse qs None = Some cmd"
      by (auto simp: command_of_def split: option.splits)
    show ?thesis
      using None np p op write_kind_no_error [OF w]
      by (intro exI [of _ "d\<lparr>queryString := qs, queryCache := cache_store (queryCache d) qs cmd\<rparr>"])
        (simp add: query_def Let_def)
  qed
next
  case (Some ps)
  with c obtain t where p: "parse qs None = Some t" and b: "bindParameters t ps = Inr cmd"
    by (auto simp: command_of_def split: option.splits)
  from bindParameters_write_kind [OF b] w have "write_kind t = Some kind" by simp
  then have "error_message t = None" by (rule write_kind_no_error)
  then show ?thesis
    using Some p b op
    by (intro exI [of _ "d\<lparr>queryString := qs\<rparr>"]) (simp add: query_def Let_def)
qed

text \<open>
  While a transaction is active, a statement whose command reaches the \<open>switch\<close> as an
  \<open>INSERT\<close>, \<open>UPDATE\<close> or \<open>DELETE\<close> appends the command to the transaction buffer
  and leaves the store (the pages, the catalog and the indexes) as it was; the result is
  the transaction manager's reply for every choice of executors, so none is invoked.
\<close>

lemma buffered_write_leaves_store:
  assumes "pager_open d" and "tx_active (tx d)"
    and "command_of (queryCache d) qs params = Some (Inr cmd)"
    and "write_kind cmd = Some kind"
  shows "\<exists>d'. query sv d qs params = Some (Inr (reply sv kind), d') \<and>
              store d' = store d \<and>
              tx_buffer (tx d') = tx_buffer (tx d) @ [(kind, cmd)] \<and> tx_active (tx d')"
proof -
  from query_dispatches [OF assms(1) assms(3) assms(4), of sv]
  obtain d1 where q: "query sv d qs params = Some (guarded_dispatch sv d1 cmd)"
    and same: "tx d1 = tx d" "store d1 = store d"
    by blast
  have act: "isActive (tx d1)" using assms(2) same by (simp add: isActive_def)
  show ?thesis
    unfolding q guarded_dispatch_buffers [OF act assms(4)]
    using same assms(2) by (simp add: bufferOperation_def)
qed

text \<open>A database with an active transaction that has buffered the operations \<open>ops\<close>.\<close>

definition in_transaction :: "'s \<Rightarrow> (string \<times> command) list \<Rightarrow> 's db" where
  "in_transaction s ops = (fresh_db s)\<lparr>tx := \<lparr>tx_active = True, tx_buffer = ops\<rparr>\<rparr>"

lemma parse_insert_example:
  "parse ''INSERT INTO t (a) VALUES (1)'' None = Some (INSERT (Some ''t'') [(''a'', VNum (Fin 1))])"
  by code_simp

lemma buffered_write_example:
  "\<exists>d'. query idle_services (in_transaction () []) ''INSERT INTO t (a) VALUES (1)'' None =
           Some (Inr (reply idle_services ''INSERT''), d') \<and>
         store d' = store (in_transaction () []) \<and>
         tx_buffer (tx d') = [(''INSERT'', INSERT (Some ''t'') [(''a'', VNum (Fin 1))])] \<and>
         tx_active (tx d')"
proof -
  have a: "pager_open (in_transaction () [])" "tx_active (tx (in_transaction () []))"
    by (simp_all add: in_transaction_def fresh_db_def)
  have c: "command_of (queryCache (in_transaction () [])) ''INSERT INTO t (a) VALUES (1)'' None =
     Some (Inr (INSERT (Some ''t'') [(''a'', VNum (Fin 1))]))"
    by (simp add: command_of_def in_transaction_def fresh_db_def parse_insert_example)
  have w: "write_kind (INSERT (Some ''t'') [(''a'', VNum (Fin 1))]) = Some ''INSERT''"
    by (simp add: write_kind_def)
  from buffered_write_leaves_store [OF a c w, of idle_services] show ?thesis
    by (simp add: in_transaction_def fresh_db_def)
qed

lemma parse_dangling_and:
  "parse ''DELETE FROM t WHERE a = 1 AND'' None =
     Some (DELETE (Some ''t'') (Some (Compound ''AND'' [Cond ''a'' ''='' (VNum (Fin 1)), NoCond])))"
  by code_simp

lemma bind_dangling_and:
  "bindParameters (DELETE (Some ''t'') (Some (Compound ''AND'' [Cond ''a'' ''='' (VNum (Fin 1)), NoCond])))
     [(''x'', VNum (Fin 1))] = Inl (undefined_read ''type'')"
  by (simp add: bindParameters_def bindCriteriaOpt_def bindValue_def)

text \<open>
  C8 (the code breaks the claim).  With a transaction active, the \<open>DELETE\<close> statement
  whose \<open>WHERE\<close> clause ends in \<open>AND\<close>, sent with a parameter map, is not recorded:
  \<open>_bindParameters\<close>, which \<open>query\<close> calls before its \<open>try\<close> block and before the
  \<open>switch\<close>, throws, \<open>query\<close> raises, and the transaction buffer is what it was.
\<close>

theorem write_in_transaction_not_buffered:
  "query sv (in_transaction s ops) ''DELETE FROM t WHERE a = 1 AND'' (Some [(''x'', VNum (Fin 1))]) =
     Some (Inl (undefined_read ''type''),
           (in_transaction s ops)\<lparr>queryString := ''DELETE FROM t WHERE a = 1 AND''\<rparr>) \<and>
   tx_buffer (tx ((in_transaction s ops)\<lparr>queryString := ''DELETE FROM t WHERE a = 1 AND''\<rparr>)) = ops \<and>
   parse ''DELETE FROM t WHERE a = 1 AND'' None =
     Some (DELETE (Some ''t'') (Some (Compound ''AND'' [Cond ''a'' ''='' (VNum (Fin 1)), NoCond])))"
  by (simp add: query_def in_transaction_def fresh_db_def parse_dangling_and bind_dangling_and Let_def
      error_message_def)

text \<open>
  Without parameters the same statement is recorded: \<open>query\<close> binds nothing and the
  \<open>switch\<close> buffers the command.
\<close>

lemma write_without_parameters_buffered:
  "\<exists>d'. query sv (in_transaction s ops) ''DELETE FROM t WHERE a = 1 AND'' None =
           Some (Inr (reply sv ''DELETE''), d') \<and>
         store d' = s \<and>
         tx_buffer (tx d') =
           ops @ [(''DELETE'',
                   DELETE (Some ''t'') (Some (Compound ''AND'' [Cond ''a'' ''='' (VNum (Fin 1)), NoCond])))] \<and>
         tx_active (tx d')"
proof -
  have a: "pager_open (in_transaction s ops)" "tx_active (tx (in_transaction s ops))"
    by (simp_all add: in_transaction_def fresh_db_def)
  have c: "command_of (queryCache (in_transaction s ops)) ''DELETE FROM t WHERE a = 1 AND'' None =
     Some (Inr (DELETE (Some ''t'') (Some (Compound ''AND'' [Cond ''a'' ''='' (VNum (Fin 1)), NoCond]))))"
    by (simp add: command_of_def in_transaction_def fresh_db_def parse_dangling_and)
  have w: "write_kind (DELETE (Some ''t'') (Some (Compound ''AND'' [Cond ''a'' ''='' (VNum (Fin 1)), NoCond]))) =
      Some ''DELETE''"
    by (simp add: write_kind_def)
  from buffered_write_leaves_store [OF a c w, of sv] show ?thesis
    by (simp add: in_transaction_def fresh_db_def)
qed

text \<open>
  The same with parameters that hide \<open>hasOwnProperty\<close>: the binding of \<open>@v\<close> calls
  \<open>params.hasOwnProperty\<close>, which is no function.
\<close>

lemma parse_delete_parameter:
  "parse ''DELETE FROM t WHERE a = @v'' None =
     Some (DELETE (Some ''t'') (Some (Cond ''a'' ''='' (VStr ''@v''))))"
  by code_simp

lemma write_with_hidden_hasOwnProperty:
  "query sv (in_transaction s ops) ''DELETE FROM t WHERE a = @v''
     (Some [(''hasOwnProperty'', VNum (Fin 1)), (''v'', VNum (Fin 2))]) =
     Some (Inl (TypeError ''params.hasOwnProperty is not a function''),
           (in_transaction s ops)\<lparr>queryString := ''DELETE FROM t WHERE a = @v''\<rparr>)"
  by (simp add: query_def in_transaction_def fresh_db_def parse_delete_parameter Let_def
      error_message_def bindParameters_def bindCriteriaOpt_def bindValue_def hasOwnProperty_call_def)

lemma bindParameters_error_message:
  "bindParameters t ps = Inr cmd \<Longrightarrow> error_message t = error_message cmd"
  by (cases t) (auto simp: bindParameters_def error_message_def bindE_def split: sum.splits)

lemma query_reaches_switch:
  assumes op: "pager_open d"
    and c: "command_of (queryCache d) qs params = Some (Inr cmd)"
    and w: "error_message cmd = None"
  shows "\<exists>d1. query sv d qs params = Some (guarded_dispatch sv d1 cmd) \<and>
              tx d1 = tx d \<and> store d1 = store d"
proof (cases params)
  case np: None
  show ?thesis
  proof (cases "map_of (queryCache d) qs")
    case (Some cached)
    with c np have "cached = cmd" by (simp add: command_of_def)
    with Some np op show ?thesis
      by (intro exI [of _ "d\<lparr>queryString := qs, queryCache := cache_touch (queryCache d) qs cmd\<rparr>"])
        (simp add: query_def Let_def)
  next
    case None
    with np c have p: "parse qs None = Some cmd"
      by (auto simp: command_of_def split: option.splits)
    show ?thesis
      using None np p op w
      by (intro exI [of _ "d\<lparr>queryString := qs, queryCache := cache_store (queryCache d) qs cmd\<rparr>"])
        (simp add: query_def Let_def)
  qed
next
  case (Some ps)
  with c obtain t where p: "parse qs None = Some t" and b: "bindParameters t ps = Inr cmd"
    by (auto simp: command_of_def split: option.splits)
  from bindParameters_error_message [OF b] w have "error_message t = None" by simp
  then show ?thesis
    using Some p b op
    by (intro exI [of _ "d\<lparr>queryString := qs\<rparr>"]) (simp add: query_def Let_def)
qed

lemma guarded_dispatch_catches:
  "dispatch sv d cmd = (Inl e, d') \<Longrightarrow>
   guarded_dispatch sv d cmd = (Inr (VStr (''Error: '' @ message e)), d')"
  by (simp add: guarded_dispatch_def)

lemma guarded_dispatch_returns: "\<exists>v d'. guarded_dispatch sv d cmd = (Inr v, d')"
  by (cases "dispatch sv d cmd") (auto simp: guarded_dispatch_def split: sum.splits)

lemma handleQuery_local:
  assumes "\<not> server_level q" and "currentDatabase ctx = Some name" and "\<not> threadPool srv"
    and "getOrCreateDatabase opener srv name = Inr d" and "query sv d q params = Some (r, d')"
  shows "map_option fst (handleQuery sv opener offload wilayah srv ctx q params) =
           Some (case bindE r awaited of
                   Inl e \<Rightarrow> ErrorFrame (''Query error: '' @ message e)
                 | Inr result \<Rightarrow> QueryResultFrame result q)"
  using assms by (simp add: handleQuery_def split: sum.splits)

lemma frame_of_caught_exception:
  assumes "\<not> server_level q" and "currentDatabase ctx = Some name" and "\<not> threadPool srv"
    and "getOrCreateDatabase opener srv name = Inr d" and "pager_open d"
    and "command_of (queryCache d) q params = Some (Inr cmd)"
    and "error_message cmd = None"
    and "\<forall>d1. tx d1 = tx d \<and> store d1 = store d \<longrightarrow> fst (dispatch sv d1 cmd) = Inl e"
  shows "map_option fst (handleQuery sv opener offload wilayah srv ctx q params) =
           Some (QueryResultFrame (VStr (''Error: '' @ message e)) q)"
proof -
  from query_reaches_switch [OF assms(5) assms(6) assms(7), of sv]
  obtain d1 where q: "query sv d q params = Some (guarded_dispatch sv d1 cmd)"
    and same: "tx d1 = tx d" "store d1 = store d"
    by blast
  from assms(8) same have "fst (dispatch sv d1 cmd) = Inl e" by blast
  then obtain d2 where "dispatch sv d1 cmd = (Inl e, d2)"
    by (cases "dispatch sv d1 cmd") auto
  then have g: "guarded_dispatch sv d1 cmd = (Inr (VStr (''Error: '' @ message e)), d2)"
    by (rule guarded_dispatch_catches)
  from q g have "query sv d q params = Some (Inr (VStr (''Error: '' @ message e)), d2)" by simp
  from handleQuery_local [OF assms(1-4) this] show ?thesis by simp
qed

lemma frame_of_failed_open:
  assumes "\<not> server_level q" and "currentDatabase ctx = Some name" and "\<not> threadPool srv"
    and "getOrCreateDatabase opener srv name = Inl e"
  shows "map_option fst (handleQuery sv opener offload wilayah srv ctx q params) =
           Some (ErrorFrame (''Query error: '' @ message e))"
  using assms by (simp add: handleQuery_def)

lemma frame_of_failed_binding:
  assumes "\<not> server_level q" and "currentDatabase ctx = Some name" and "\<not> threadPool srv"
    and "getOrCreateDatabase opener srv name = Inr d" and "pager_open d"
    and "parse q None = Some t" and "error_message t = None" and "bindParameters t ps = Inl e"
  shows "map_option fst (handleQuery sv opener offload wilayah srv ctx q (Some ps)) =
           Some (ErrorFrame (''Query error: '' @ message e))"
proof -
  have "query sv d q (Some ps) = Some (Inl e, d\<lparr>queryString := q\<rparr>)"
    using assms(5-8) by (simp add: query_def Let_def)
  from handleQuery_local [OF assms(1-4) this] show ?thesis by simp
qed

definition backup_kind :: "command \<Rightarrow> bool" where
  "backup_kind cmd = (case cmd of BACKUP path \<Rightarrow> True | RESTORE path \<Rightarrow> True | _ \<Rightarrow> False)"

lemma guarded_dispatch_backup:
  "backup_kind cmd \<Longrightarrow>
   guarded_dispatch sv d cmd = (Inr (VPromise (fst (run sv cmd (store d)))), d\<lparr>store := snd (run sv cmd (store d))\<rparr>)"
  by (cases cmd) (simp_all add: backup_kind_def guarded_dispatch_def dispatch_def settled_def)

lemma backup_kind_no_error: "backup_kind cmd \<Longrightarrow> error_message cmd = None"
  by (cases cmd) (simp_all add: backup_kind_def error_message_def)

lemma frame_of_rejected_backup:
  assumes "\<not> server_level q" and "currentDatabase ctx = Some name" and "\<not> threadPool srv"
    and "getOrCreateDatabase opener srv name = Inr d" and "pager_open d"
    and "command_of (queryCache d) q params = Some (Inr cmd)" and "backup_kind cmd"
    and "fst (run sv cmd (store d)) = Inl e"
  shows "map_option fst (handleQuery sv opener offload wilayah srv ctx q params) =
           Some (ErrorFrame (''Query error: '' @ message e))"
proof -
  from query_reaches_switch [OF assms(5) assms(6) backup_kind_no_error [OF assms(7)], of sv]
  obtain d1 where q: "query sv d q params = Some (guarded_dispatch sv d1 cmd)"
    and same: "store d1 = store d"
    by blast
  have g: "guarded_dispatch sv d1 cmd = (Inr (VPromise (Inl e)), d1\<lparr>store := snd (run sv cmd (store d))\<rparr>)"
    using guarded_dispatch_backup [OF assms(7), of sv d1] same assms(8) by simp
  from q g have "query sv d q params =
      Some (Inr (VPromise (Inl e)), d1\<lparr>store := snd (run sv cmd (store d))\<rparr>)" by simp
  from handleQuery_local [OF assms(1-4) this] show ?thesis by simp
qed

text \<open>
  C9 (as the code has it).  For a request that is no server-level statement, with a
  database selected and no worker pool: when the database opens and the \<open>switch\<close> of
  \<open>query\<close> throws \<open>e\<close> on the command, \<open>query\<close> returns the string \<open>Error: \<close>
  followed by the message as an ordinary value, and the client receives a
  \<open>query_result\<close> frame that carries this string.  The client receives an \<open>error\<close>
  frame with \<open>Query error: \<close> and the message when the database does not open, when the
  binding of the parameters throws (it runs before the \<open>try\<close> of \<open>query\<close>), and when a
  \<open>BACKUP\<close> or \<open>RESTORE\<close> fails (the promise that \<open>query\<close> returns is rejected).
\<close>

theorem failed_statement_frames:
  assumes "\<not> server_level q" and "currentDatabase ctx = Some name" and "\<not> threadPool srv"
  shows "(\<forall>d cmd e.
            getOrCreateDatabase opener srv name = Inr d \<and> pager_open d \<and>
            command_of (queryCache d) q params = Some (Inr cmd) \<and> error_message cmd = None \<and>
            (\<forall>d1. tx d1 = tx d \<and> store d1 = store d \<longrightarrow> fst (dispatch sv d1 cmd) = Inl e) \<longrightarrow>
            map_option fst (handleQuery sv opener offload wilayah srv ctx q params) =
              Some (QueryResultFrame (VStr (''Error: '' @ message e)) q)) \<and>
         (\<forall>e. getOrCreateDatabase opener srv name = Inl e \<longrightarrow>
            map_option fst (handleQuery sv opener offload wilayah srv ctx q params) =
              Some (ErrorFrame (''Query error: '' @ message e))) \<and>
         (\<forall>d t ps e.
            getOrCreateDatabase opener srv name = Inr d \<and> pager_open d \<and> params = Some ps \<and>
            parse q None = Some t \<and> error_message t = None \<and> bindParameters t ps = Inl e \<longrightarrow>
            map_option fst (handleQuery sv opener offload wilayah srv ctx q params) =
              Some (ErrorFrame (''Query error: '' @ message e))) \<and>
         (\<forall>d cmd e.
            getOrCreateDatabase opener srv name = Inr d \<and> pager_open d \<and>
            command_of (queryCache d) q params = Some (Inr cmd) \<and> backup_kind cmd \<and>
            fst (run sv cmd (store d)) = Inl e \<longrightarrow>
            map_option fst (handleQuery sv opener offload wilayah srv ctx q params) =
              Some (ErrorFrame (''Query error: '' @ message e)))"
proof (intro conjI allI impI)
  fix d cmd e
  assume "getOrCreateDatabase opener srv name = Inr d \<and> pager_open d \<and>
            command_of (queryCache d) q params = Some (Inr cmd) \<and> error_message cmd = None \<and>
            (\<forall>d1. tx d1 = tx d \<and> store d1 = store d \<longrightarrow> fst (dispatch sv d1 cmd) = Inl e)"
  then show "map_option fst (handleQuery sv opener offload wilayah srv ctx q params) =
              Some (QueryResultFrame (VStr (''Error: '' @ message e)) q)"
    using frame_of_caught_exception [OF assms] by blast
next
  fix e
  assume "getOrCreateDatabase opener srv name = Inl e"
  then show "map_option fst (handleQuery sv opener offload wilayah srv ctx q params) =
              Some (ErrorFrame (''Query error: '' @ message e))"
    by (rule frame_of_failed_open [OF assms])
next
  fix d t ps e
  assume "getOrCreateDatabase opener srv name = Inr d \<and> pager_open d \<and> params = Some ps \<and>
            parse q None = Some t \<and> error_message t = None \<and> bindParameters t ps = Inl e"
  then show "map_option fst (handleQuery sv opener offload wilayah srv ctx q params) =
              Some (ErrorFrame (''Query error: '' @ message e))"
    using frame_of_failed_binding [OF assms] by blast
next
  fix d cmd e
  assume "getOrCreateDatabase opener srv name = Inr d \<and> pager_open d \<and>
            command_of (queryCache d) q params = Some (Inr cmd) \<and> backup_kind cmd \<and>
            fst (run sv cmd (store d)) = Inl e"
  then show "map_option fst (handleQuery sv opener offload wilayah srv ctx q params) =
              Some (ErrorFrame (''Query error: '' @ message e))"
    using frame_of_rejected_backup [OF assms] by blast
qed

definition server1 :: "unit server" where
  "server1 = \<lparr>databases = [(''db1'', fresh_db ())], threadPool = False, totalQueries = 0, errors = 0\<rparr>"

definition session1 :: session where
  "session1 = \<lparr>authenticated = True, currentDatabase = Some ''db1''\<rparr>"

definition session2 :: session where
  "session2 = \<lparr>authenticated = True, currentDatabase = Some ''db2''\<rparr>"

definition no_opener :: "string \<Rightarrow> js_error + unit db" where
  "no_opener name = Inl (Error ''cannot open'')"

definition no_offload :: "unit server \<Rightarrow> string \<Rightarrow> string \<Rightarrow> (js_error + jsval) \<times> unit server" where
  "no_offload srv name q = (Inl (Error ''ThreadPool not initialized''), srv)"

definition no_wilayah :: "unit server \<Rightarrow> session \<Rightarrow> string \<Rightarrow> frame \<times> unit server \<times> session" where
  "no_wilayah srv ctx q = (ErrorFrame ''server-level statement'', srv, ctx)"

text \<open>Services whose backup fails.\<close>

definition failing_backup :: "unit services" where
  "failing_backup = idle_services\<lparr>run := (\<lambda>cmd s. (Inl (Error ''Backup failed: disk''), s))\<rparr>"

definition empty_insert :: string where
  "empty_insert = ''INSERT INTO t () VALUES ()''"

definition dangling_and :: string where
  "dangling_and = ''DELETE FROM t WHERE a = 1 AND''"

definition backup_statement :: string where
  "backup_statement = ''CADANGKAN LUMBUNG KE cadangan''"

definition data_kosong :: string where
  "data_kosong = ''Data kosong / fiktif? Ini melanggar integritas (Korupsi Data).''"

lemma parse_empty_insert: "parse empty_insert None = Some (INSERT (Some ''t'') [])"
  unfolding empty_insert_def by code_simp

lemma parse_backup_statement: "parse backup_statement None = Some (BACKUP ''cadangan'')"
  unfolding backup_statement_def by code_simp

lemma not_server_level:
  "\<not> server_level empty_insert" "\<not> server_level dangling_and" "\<not> server_level backup_statement"
  unfolding empty_insert_def dangling_and_def backup_statement_def by code_simp+

lemma empty_insert_throws:
  assumes "tx d1 = tx (fresh_db ())"
  shows "fst (dispatch idle_services d1 (INSERT (Some ''t'') [])) = Inl (Error data_kosong)"
  using assms
  by (simp add: dispatch_def isActive_def fresh_db_def insert_execute_def lift_store_def data_kosong_def)

lemma server1_facts:
  "currentDatabase session1 = Some ''db1''" "currentDatabase session2 = Some ''db2''"
  "\<not> threadPool server1"
  "getOrCreateDatabase no_opener server1 ''db1'' = Inr (fresh_db ())"
  "getOrCreateDatabase no_opener server1 ''db2'' = Inl (Error ''cannot open'')"
  "pager_open (fresh_db ())"
  by (simp_all add: session1_def session2_def server1_def getOrCreateDatabase_def no_opener_def fresh_db_def)

theorem failed_statement_frames_witness:
  "\<not> server_level empty_insert \<and> currentDatabase session1 = Some ''db1'' \<and> \<not> threadPool server1 \<and>
   getOrCreateDatabase no_opener server1 ''db1'' = Inr (fresh_db ()) \<and> pager_open (fresh_db ()) \<and>
   command_of (queryCache (fresh_db ())) empty_insert None = Some (Inr (INSERT (Some ''t'') [])) \<and>
   error_message (INSERT (Some ''t'') []) = None \<and>
   fst (dispatch idle_services (fresh_db ()) (INSERT (Some ''t'') [])) = Inl (Error data_kosong) \<and>
   map_option fst (handleQuery idle_services no_opener no_offload no_wilayah server1 session1 empty_insert None) =
     Some (QueryResultFrame (VStr (''Error: '' @ data_kosong)) empty_insert) \<and>
   getOrCreateDatabase no_opener server1 ''db2'' = Inl (Error ''cannot open'') \<and>
   map_option fst (handleQuery idle_services no_opener no_offload no_wilayah server1 session2 empty_insert None) =
     Some (ErrorFrame ''Query error: cannot open'') \<and>
   parse dangling_and None =
     Some (DELETE (Some ''t'') (Some (Compound ''AND'' [Cond ''a'' ''='' (VNum (Fin 1)), NoCond]))) \<and>
   map_option fst (handleQuery idle_services no_opener no_offload no_wilayah server1 session1 dangling_and
                     (Some [(''x'', VNum (Fin 1))])) =
     Some (ErrorFrame (''Query error: '' @ message (undefined_read ''type''))) \<and>
   command_of (queryCache (fresh_db ())) backup_statement None = Some (Inr (BACKUP ''cadangan'')) \<and>
   fst (run failing_backup (BACKUP ''cadangan'') (store (fresh_db ()))) = Inl (Error ''Backup failed: disk'') \<and>
   map_option fst (handleQuery failing_backup no_opener no_offload no_wilayah server1 session1 backup_statement None) =
     Some (ErrorFrame ''Query error: Backup failed: disk'')"
proof -
  note f = server1_facts
  have c: "command_of (queryCache (fresh_db ())) empty_insert None = Some (Inr (INSERT (Some ''t'') []))"
    by (simp add: command_of_def fresh_db_def parse_empty_insert)
  have e: "error_message (INSERT (Some ''t'') []) = None"
    by (simp add: error_message_def)
  have t: "\<forall>d1. tx d1 = tx (fresh_db ()) \<and> store d1 = store (fresh_db ()) \<longrightarrow>
             fst (dispatch idle_services d1 (INSERT (Some ''t'') [])) = Inl (Error data_kosong)"
    using empty_insert_throws by blast
  have p: "parse dangling_and None =
     Some (DELETE (Some ''t'') (Some (Compound ''AND'' [Cond ''a'' ''='' (VNum (Fin 1)), NoCond])))"
    unfolding dangling_and_def by (rule parse_dangling_and)
  have pe: "error_message (DELETE (Some ''t'') (Some (Compound ''AND'' [Cond ''a'' ''='' (VNum (Fin 1)), NoCond]))) = None"
    by (simp add: error_message_def)
  have cb: "command_of (queryCache (fresh_db ())) backup_statement None = Some (Inr (BACKUP ''cadangan''))"
    by (simp add: command_of_def fresh_db_def parse_backup_statement)
  have bk: "backup_kind (BACKUP ''cadangan'')" by (simp add: backup_kind_def)
  have rb: "fst (run failing_backup (BACKUP ''cadangan'') (store (fresh_db ()))) = Inl (Error ''Backup failed: disk'')"
    by (simp add: failing_backup_def)
  note w1 = failed_statement_frames [OF not_server_level(1) f(1) f(3),
      of no_opener None idle_services no_offload no_wilayah]
  note w2 = failed_statement_frames [OF not_server_level(1) f(2) f(3),
      of no_opener None idle_services no_offload no_wilayah]
  note w3 = failed_statement_frames [OF not_server_level(2) f(1) f(3),
      of no_opener "Some [(''x'', VNum (Fin 1))]" idle_services no_offload no_wilayah]
  note w4 = failed_statement_frames [OF not_server_level(3) f(1) f(3),
      of no_opener None failing_backup no_offload no_wilayah]
  have 1: "map_option fst (handleQuery idle_services no_opener no_offload no_wilayah server1 session1 empty_insert None) =
     Some (QueryResultFrame (VStr (''Error: '' @ data_kosong)) empty_insert)"
    using w1 f(4) f(6) c e t by (metis message.simps(1))
  have 2: "map_option fst (handleQuery idle_services no_opener no_offload no_wilayah server1 session2 empty_insert None) =
     Some (ErrorFrame ''Query error: cannot open'')"
    using w2 f(5) by (metis append.simps message.simps(1))
  have 3: "map_option fst (handleQuery idle_services no_opener no_offload no_wilayah server1 session1 dangling_and
                     (Some [(''x'', VNum (Fin 1))])) =
     Some (ErrorFrame (''Query error: '' @ message (undefined_read ''type'')))"
    using w3 f(4) f(6) p pe bind_dangling_and by blast
  have 4: "map_option fst (handleQuery failing_backup no_opener no_offload no_wilayah server1 session1 backup_statement None) =
     Some (ErrorFrame ''Query error: Backup failed: disk'')"
    using w4 f(4) f(6) cb bk rb by (metis append.simps message.simps(1))
  show ?thesis
    using not_server_level(1) f c e empty_insert_throws [of "fresh_db ()"] 1 2 3 4 p cb rb by simp
qed

text \<open>
  C9 (as stated) fails.  \<open>INSERT INTO t () VALUES ()\<close> parses to an insert without
  data; \<open>InsertExecutor.execute\<close> throws; the frame the client receives is a
  \<open>query_result\<close> frame, not an \<open>error\<close> frame.
\<close>

theorem failed_statement_frame_counterexample:
  "fst (dispatch idle_services (fresh_db ()) (INSERT (Some ''t'') [])) = Inl (Error data_kosong) \<and>
   (\<forall>m. map_option fst (handleQuery idle_services no_opener no_offload no_wilayah server1 session1 empty_insert None)
         \<noteq> Some (ErrorFrame m))"
proof -
  have q: "query idle_services (fresh_db ()) empty_insert None =
            Some (Inr (VStr (''Error: '' @ data_kosong)),
                  (fresh_db ())\<lparr>queryString := empty_insert,
                                queryCache := cache_store [] empty_insert (INSERT (Some ''t'') [])\<rparr>)"
    by (simp add: query_def fresh_db_def parse_empty_insert error_message_def Let_def
        guarded_dispatch_def dispatch_def isActive_def insert_execute_def lift_store_def data_kosong_def)
  have "map_option fst (handleQuery idle_services no_opener no_offload no_wilayah server1 session1 empty_insert None) =
          Some (QueryResultFrame (VStr (''Error: '' @ data_kosong)) empty_insert)"
    using handleQuery_local [OF not_server_level(1) server1_facts(1) server1_facts(3) server1_facts(4) q]
    by simp
  then have "\<forall>m. map_option fst (handleQuery idle_services no_opener no_offload no_wilayah server1 session1 empty_insert None)
         \<noteq> Some (ErrorFrame m)"
    by (simp only: option.inject frame.distinct not_False_eq_True simp_thms)
  then show ?thesis
    using empty_insert_throws [of "fresh_db ()"] by blast
qed

section \<open>Totality of \<open>query\<close>\<close>

lemma query_closed:
  "\<not> pager_open d \<Longrightarrow> query sv d qs params = Some (Inr (VStr ''Error: Database is closed.''), d)"
  by (simp add: query_def)

lemma query_after_close:
  "query sv (close d) qs params = Some (Inr (VStr ''Error: Database is closed.''), close d)"
  by (simp add: query_closed close_def)

lemma query_parse_error:
  assumes "pager_open d" and "params \<noteq> None \<or> map_of (queryCache d) qs = None"
    and "parse qs None = Some (ERROR m)"
  shows "query sv d qs params = Some (Inr (VStr (''Error: '' @ m)), d\<lparr>queryString := qs\<rparr>)"
  using assms by (auto simp: query_def Let_def error_message_def)

text \<open>
  C10 (the code breaks the claim).  \<open>query\<close> raises: with a parameter map, a \<open>WHERE\<close>
  clause that ends in \<open>AND\<close> leaves an empty slot in the criteria tree, and
  \<open>_bindParameters\<close>, which \<open>query\<close> calls before its \<open>try\<close> block, throws a
  \<open>TypeError\<close> on it.
\<close>

theorem query_raises_on_dangling_and:
  "query sv (fresh_db s) ''DELETE FROM t WHERE a = 1 AND'' (Some [(''x'', VNum (Fin 1))]) =
     Some (Inl (undefined_read ''type''),
           (fresh_db s)\<lparr>queryString := ''DELETE FROM t WHERE a = 1 AND''\<rparr>)"
  by (simp add: query_def fresh_db_def parse_dangling_and bind_dangling_and Let_def error_message_def)

lemma query_diverges_on_unclosed_schema:
  "query sv (fresh_db s) ''SERTIFIKASI LAHAN t ('' None = None"
  by (simp add: query_def fresh_db_def Let_def parse_unclosed_schema)

section \<open>\<open>SchemaManager\<close>: validation and coercion of a row\<close>

text \<open>
  Two built-in conversions are parameters of the model: \<open>toText v\<close> is the string
  \<open>`${v}`\<close> used in messages, and \<open>toISO v\<close> is
  \<open>new Date(v).toISOString()\<close>, or \<open>None\<close> when the date is invalid.
\<close>

record builtins =
  toText :: "jsval \<Rightarrow> string"
  toISO :: "jsval \<Rightarrow> string option"

definition typeof :: "jsval \<Rightarrow> string" where
  "typeof v =
     (case v of
        VUndefined \<Rightarrow> ''undefined''
      | VBool b \<Rightarrow> ''boolean''
      | VNum n \<Rightarrow> ''number''
      | VStr s \<Rightarrow> ''string''
      | VFun name \<Rightarrow> ''function''
      | _ \<Rightarrow> ''object'')"

definition quoted :: "string \<Rightarrow> string" where
  "quoted s = [CHR 0x27] @ s @ [CHR 0x27]"

text \<open>\<open>_validateType(field, value, type)\<close>.\<close>

definition validateType :: "builtins \<Rightarrow> string \<Rightarrow> jsval \<Rightarrow> string option \<Rightarrow> js_error + jsval" where
  "validateType bi field val ty =
     (case ty of
        None \<Rightarrow> Inl (undefined_read ''toUpperCase'')
      | Some t \<Rightarrow>
          (let upperType = toUpperCase t in
           if upperType = ''TEKS'' \<or> upperType = ''STRING'' then
             (if typeof val \<noteq> ''string''
              then Inl (Error (''Field '' @ quoted field @ '' must be a string, got '' @ typeof val))
              else Inr val)
           else if upperType = ''ANGKA'' \<or> upperType = ''NUMBER'' then
             (if ToNumber val = NaN
              then Inl (Error (''Field '' @ quoted field @ '' must be a number, got '' @ quoted (toText bi val)))
              else Inr (VNum (ToNumber val)))
           else if upperType = ''TANGGAL'' \<or> upperType = ''DATE'' then
             (case toISO bi val of
                None \<Rightarrow> Inl (Error (''Field '' @ quoted field @ '' must be a valid date, got '' @ quoted (toText bi val)))
              | Some stamp \<Rightarrow> Inr (VStr stamp))
           else if upperType = ''BENAR_SALAH'' \<or> upperType = ''BOOLEAN'' then
             (if typeof val = ''boolean'' then Inr val
              else if val = VStr ''true'' \<or> val = VNum (Fin 1) then Inr (VBool True)
              else if val = VStr ''false'' \<or> val = VNum (Fin 0) then Inr (VBool False)
              else Inl (Error (''Field '' @ quoted field @ '' must be a boolean, got '' @ quoted (toText bi val))))
           else Inl (Error (''Unknown type '' @ quoted t @ '' for field '' @ quoted field))))"

text \<open>
  \<open>schema[field]\<close> as a condition: the configuration of the field is an object and
  the inherited members are functions and objects, all of them truthy.
\<close>

definition schema_has :: "(string \<times> field_config) list \<Rightarrow> string \<Rightarrow> bool" where
  "schema_has schema field = (map_of schema field \<noteq> None \<or> map_of object_prototype field \<noteq> None)"

text \<open>One turn of the loop over the schema's fields; \<open>acc\<close> is \<open>validatedData\<close>.\<close>

definition validate_field :: "builtins \<Rightarrow> obj \<Rightarrow> obj \<Rightarrow> string \<times> field_config \<Rightarrow> js_error + obj" where
  "validate_field bi data acc fc =
     (let field = fst fc; config = snd fc; val = obj_get data field in
      if fc_required config \<and> (val = VUndefined \<or> val = VNull)
      then Inl (Error (''Field '' @ quoted field @ '' is required but missing''))
      else if val = VUndefined \<and> fc_default config \<noteq> VUndefined
      then Inr (obj_set acc field (fc_default config))
      else if val = VNull \<and> \<not> fc_required config then Inr (obj_set acc field VNull)
      else if val \<noteq> VUndefined \<and> val \<noteq> VNull
      then bindE (validateType bi field val (fc_type config)) (\<lambda>v. Inr (obj_set acc field v))
      else Inr acc)"

fun validate_fields ::
  "builtins \<Rightarrow> obj \<Rightarrow> obj \<Rightarrow> (string \<times> field_config) list \<Rightarrow> js_error + obj" where
  "validate_fields bi data acc [] = Inr acc"
| "validate_fields bi data acc (fc # fcs) =
     (case validate_field bi data acc fc of
        Inl e \<Rightarrow> Inl e
      | Inr acc' \<Rightarrow> validate_fields bi data acc' fcs)"

text \<open>The second loop: the fields of the row that the schema does not name.\<close>

definition pass_extra :: "(string \<times> field_config) list \<Rightarrow> string \<times> jsval \<Rightarrow> obj \<Rightarrow> obj" where
  "pass_extra schema kv acc = (if \<not> schema_has schema (fst kv) then obj_set acc (fst kv) (snd kv) else acc)"

type_synonym schema_map = "(string \<times> (string \<times> field_config) list) list"

definition lookup_name :: "(string \<times> 'a) list \<Rightarrow> string option \<Rightarrow> 'a option" where
  "lookup_name m name = (case name of None \<Rightarrow> None | Some n \<Rightarrow> map_of m n)"

text \<open>\<open>validateData(tableName, data)\<close>: without a schema the row is returned as it is.\<close>

definition validateData :: "builtins \<Rightarrow> schema_map \<Rightarrow> string option \<Rightarrow> obj \<Rightarrow> js_error + obj" where
  "validateData bi schemas tableName data =
     (case lookup_name schemas tableName of
        None \<Rightarrow> Inr data
      | Some schema \<Rightarrow>
          (case validate_fields bi data [] schema of
             Inl e \<Rightarrow> Inl e
           | Inr acc \<Rightarrow> Inr (fold (pass_extra schema) data acc)))"

section \<open>Properties of validation\<close>

text \<open>What the claim says a coerced value is, for an upper-cased type name.\<close>

definition coerced :: "builtins \<Rightarrow> string \<Rightarrow> jsval \<Rightarrow> jsval \<Rightarrow> bool" where
  "coerced bi upperType val r =
     (if upperType = ''ANGKA'' \<or> upperType = ''NUMBER''
      then ToNumber val \<noteq> NaN \<and> r = VNum (ToNumber val)
      else if upperType = ''BENAR_SALAH'' \<or> upperType = ''BOOLEAN''
      then (\<exists>b. r = VBool b \<and>
                (val = VBool b \<or>
                 (b \<and> (val = VStr ''true'' \<or> val = VNum (Fin 1))) \<or>
                 (\<not> b \<and> (val = VStr ''false'' \<or> val = VNum (Fin 0)))))
      else if upperType = ''TANGGAL'' \<or> upperType = ''DATE''
      then (\<exists>stamp. toISO bi val = Some stamp \<and> r = VStr stamp)
      else (upperType = ''TEKS'' \<or> upperType = ''STRING'') \<and> (\<exists>s. val = VStr s) \<and> r = val)"

text \<open>What the validated row \<open>out\<close> holds for the schema field \<open>field\<close>.\<close>

definition field_result :: "builtins \<Rightarrow> obj \<Rightarrow> obj \<Rightarrow> string \<Rightarrow> field_config \<Rightarrow> bool" where
  "field_result bi data out field config =
     (let val = obj_get data field in
      if val = VUndefined
      then \<not> fc_required config \<and>
           map_of out field = (if fc_default config \<noteq> VUndefined then Some (fc_default config) else None)
      else if val = VNull then \<not> fc_required config \<and> map_of out field = Some VNull
      else (\<exists>t r. fc_type config = Some t \<and> map_of out field = Some r \<and> coerced bi (toUpperCase t) val r))"

lemma map_of_obj_set: "map_of (obj_set acc k v) k' = (if k' = k then Some v else map_of acc k')"
  by (induction acc) auto

lemma validateType_coerced:
  "validateType bi field val ty = Inr r \<Longrightarrow> \<exists>t. ty = Some t \<and> coerced bi (toUpperCase t) val r"
  by (cases ty; cases val)
    (auto simp: validateType_def coerced_def typeof_def Let_def split: if_splits option.splits)

lemma validate_field_other:
  "validate_field bi data acc fc = Inr acc' \<Longrightarrow> k \<noteq> fst fc \<Longrightarrow> map_of acc' k = map_of acc k"
  by (auto simp: validate_field_def Let_def map_of_obj_set bindE_def split: if_splits sum.splits)

lemma validate_field_result:
  assumes "validate_field bi data acc (field, config) = Inr acc'" and "map_of acc field = None"
  shows "field_result bi data acc' field config"
proof -
  define val where "val = obj_get data field"
  consider "val = VUndefined" | "val = VNull" | "val \<noteq> VUndefined" "val \<noteq> VNull" by blast
  then show ?thesis
  proof cases
    case 1
    with assms show ?thesis
      by (auto simp: validate_field_def field_result_def Let_def val_def map_of_obj_set split: if_splits)
  next
    case 2
    with assms show ?thesis
      by (auto simp: validate_field_def field_result_def Let_def val_def map_of_obj_set split: if_splits)
  next
    case 3
    with assms obtain r where v: "validateType bi field val (fc_type config) = Inr r"
      and a: "acc' = obj_set acc field r"
      by (auto simp: validate_field_def Let_def val_def bindE_def split: if_splits sum.splits)
    from validateType_coerced [OF v] obtain t where "fc_type config = Some t" "coerced bi (toUpperCase t) val r"
      by blast
    with 3 a show ?thesis
      by (auto simp: field_result_def Let_def val_def [symmetric] map_of_obj_set)
  qed
qed

lemma field_result_cong:
  "map_of out field = map_of out' field \<Longrightarrow> field_result bi data out field config = field_result bi data out' field config"
  by (simp add: field_result_def)

lemma validate_fields_other:
  "validate_fields bi data acc schema = Inr out \<Longrightarrow> k \<notin> fst ` set schema \<Longrightarrow> map_of out k = map_of acc k"
proof (induction schema arbitrary: acc)
  case Nil
  then show ?case by simp
next
  case (Cons fc schema)
  from Cons.prems(1) obtain acc' where s: "validate_field bi data acc fc = Inr acc'"
    and r: "validate_fields bi data acc' schema = Inr out"
    by (auto split: sum.splits)
  from Cons.prems(2) have "k \<noteq> fst fc" "k \<notin> fst ` set schema" by auto
  with Cons.IH [OF r] validate_field_other [OF s] show ?case by simp
qed

lemma validate_fields_result:
  assumes "validate_fields bi data acc schema = Inr out" and "distinct (map fst schema)"
    and "\<forall>k \<in> fst ` set schema. map_of acc k = None" and "(field, config) \<in> set schema"
  shows "field_result bi data out field config"
  using assms
proof (induction schema arbitrary: acc)
  case Nil
  then show ?case by simp
next
  case (Cons fc schema)
  from Cons.prems(1) obtain acc' where s: "validate_field bi data acc fc = Inr acc'"
    and r: "validate_fields bi data acc' schema = Inr out"
    by (auto split: sum.splits)
  from Cons.prems(2) have d: "distinct (map fst schema)" and nf: "fst fc \<notin> fst ` set schema"
    by auto
  show ?case
  proof (cases "(field, config) = fc")
    case True
    with s Cons.prems(3) have "field_result bi data acc' field config"
      by (intro validate_field_result [of bi data acc]) auto
    moreover have "map_of out field = map_of acc' field"
      using validate_fields_other [OF r] nf True by auto
    ultimately show ?thesis using field_result_cong by blast
  next
    case False
    with Cons.prems(4) have mem: "(field, config) \<in> set schema" by auto
    have "\<forall>k \<in> fst ` set schema. map_of acc' k = None"
    proof
      fix k assume k: "k \<in> fst ` set schema"
      with nf have "k \<noteq> fst fc" by blast
      with validate_field_other [OF s] Cons.prems(3) k show "map_of acc' k = None" by auto
    qed
    from Cons.IH [OF r d this mem] show ?thesis .
  qed
qed

lemma validate_fields_required:
  assumes "(field, config) \<in> set schema" and "fc_required config"
    and "obj_get data field = VUndefined \<or> obj_get data field = VNull"
  shows "\<exists>e. validate_fields bi data acc schema = Inl e"
  using assms(1)
proof (induction schema arbitrary: acc)
  case Nil
  then show ?case by simp
next
  case (Cons fc schema)
  show ?case
  proof (cases "validate_field bi data acc fc")
    case (Inl e)
    then show ?thesis by simp
  next
    case (Inr acc')
    have "fc \<noteq> (field, config)"
    proof
      assume "fc = (field, config)"
      with assms(2,3) have "\<exists>e. validate_field bi data acc fc = Inl e"
        by (auto simp: validate_field_def Let_def)
      with Inr show False by simp
    qed
    with Cons.prems have "(field, config) \<in> set schema" by auto
    from Cons.IH [OF this] Inr show ?thesis by simp
  qed
qed

lemma fold_pass_extra_schema_key:
  "schema_has schema k \<Longrightarrow> map_of (fold (pass_extra schema) data acc) k = map_of acc k"
  by (induction data arbitrary: acc) (auto simp: pass_extra_def map_of_obj_set)

lemma fold_pass_extra_absent:
  "k \<notin> fst ` set data \<Longrightarrow> map_of (fold (pass_extra schema) data acc) k = map_of acc k"
  by (induction data arbitrary: acc) (auto simp: pass_extra_def map_of_obj_set)

lemma fold_pass_extra_unknown:
  assumes "distinct (map fst data)" and "(k, v) \<in> set data" and "\<not> schema_has schema k"
  shows "map_of (fold (pass_extra schema) data acc) k = Some v"
  using assms
proof (induction data arbitrary: acc)
  case Nil
  then show ?case by simp
next
  case (Cons kv data)
  show ?case
  proof (cases "kv = (k, v)")
    case True
    with Cons.prems(1) have "k \<notin> fst ` set data" by auto
    then have "map_of (fold (pass_extra schema) data (obj_set acc k v)) k = Some v"
      by (simp add: fold_pass_extra_absent map_of_obj_set)
    moreover have "pass_extra schema kv acc = obj_set acc k v"
      using True Cons.prems(3) by (simp add: pass_extra_def)
    ultimately show ?thesis by simp
  next
    case False
    with Cons.prems have "(k, v) \<in> set data" "distinct (map fst data)" by auto
    from Cons.IH [OF this(2) this(1) Cons.prems(3)] show ?thesis by simp
  qed
qed

lemma map_of_in_schema: "(field, config) \<in> set schema \<Longrightarrow> schema_has schema field"
  unfolding schema_has_def by (induction schema) auto

text \<open>
  Validation in general, for a table with a schema (property names unique): a row that
  has a required field missing or \<open>null\<close> is refused; and in every validated row each
  schema field that the input gives is coerced as its type says (number, boolean with
  \<open>"true"\<close>, \<open>"false"\<close>, 0 and 1 accepted, ISO-8601 date string, string), a field that
  the input lacks holds its default when the schema has one, and a field that the schema
  does not name is passed on unchanged unless its name is that of an inherited member.
\<close>

lemma validateData_coerces:
  assumes "map_of schemas table = Some schema"
    and "distinct (map fst schema)" and "distinct (map fst data)"
  shows "((\<exists>field config. (field, config) \<in> set schema \<and> fc_required config \<and>
             (obj_get data field = VUndefined \<or> obj_get data field = VNull)) \<longrightarrow>
          (\<exists>e. validateData bi schemas (Some table) data = Inl e)) \<and>
         (\<forall>out. validateData bi schemas (Some table) data = Inr out \<longrightarrow>
            (\<forall>(field, config) \<in> set schema. field_result bi data out field config) \<and>
            (\<forall>(k, v) \<in> set data. \<not> schema_has schema k \<longrightarrow> map_of out k = Some v))"
proof (intro conjI impI allI)
  assume "\<exists>field config. (field, config) \<in> set schema \<and> fc_required config \<and>
             (obj_get data field = VUndefined \<or> obj_get data field = VNull)"
  then obtain field config where "(field, config) \<in> set schema" "fc_required config"
    "obj_get data field = VUndefined \<or> obj_get data field = VNull" by blast
  from validate_fields_required [OF this, of bi "[]"] assms(1)
  show "\<exists>e. validateData bi schemas (Some table) data = Inl e"
    by (auto simp: validateData_def lookup_name_def)
next
  fix out
  assume v: "validateData bi schemas (Some table) data = Inr out"
  with assms(1) obtain acc where a: "validate_fields bi data [] schema = Inr acc"
    and o: "out = fold (pass_extra schema) data acc"
    by (auto simp: validateData_def lookup_name_def split: sum.splits)
  show "\<forall>(field, config) \<in> set schema. field_result bi data out field config"
  proof (clarify)
    fix field config assume m: "(field, config) \<in> set schema"
    have "field_result bi data acc field config"
      by (rule validate_fields_result [OF a assms(2) _ m]) simp
    moreover have "map_of out field = map_of acc field"
      unfolding o by (rule fold_pass_extra_schema_key) (rule map_of_in_schema [OF m])
    ultimately show "field_result bi data out field config"
      using field_result_cong by blast
  qed
  show "\<forall>(k, v) \<in> set data. \<not> schema_has schema k \<longrightarrow> map_of out k = Some v"
    unfolding o using fold_pass_extra_unknown [OF assms(3)] by blast
qed

text \<open>A schema and two rows: one is coerced and completed, the other lacks a required field.\<close>

definition no_dates :: builtins where
  "no_dates = \<lparr>toText = (\<lambda>v. []), toISO = (\<lambda>v. None)\<rparr>"

definition nama_config :: field_config where
  "nama_config = \<lparr>fc_type = Some ''TEKS'', fc_required = True, fc_default = VUndefined\<rparr>"

definition umur_config :: field_config where
  "umur_config = \<lparr>fc_type = Some ''ANGKA'', fc_required = False, fc_default = VUndefined\<rparr>"

definition aktif_config :: field_config where
  "aktif_config = \<lparr>fc_type = Some ''boolean'', fc_required = False, fc_default = VBool True\<rparr>"

definition petani_schema :: "(string \<times> field_config) list" where
  "petani_schema = [(''nama'', nama_config), (''umur'', umur_config), (''aktif'', aktif_config)]"

definition petani_row :: obj where
  "petani_row = [(''nama'', VStr ''Budi''), (''umur'', VStr ''42''), (''catatan'', VStr ''baru'')]"

definition petani_out :: obj where
  "petani_out = [(''nama'', VStr ''Budi''), (''umur'', VNum (Fin 42)), (''aktif'', VBool True),
                 (''catatan'', VStr ''baru'')]"

definition nameless_row :: obj where
  "nameless_row = [(''umur'', VNum (Fin 7))]"

lemma petani_row_validated:
  "validateData no_dates [(''petani'', petani_schema)] (Some ''petani'') petani_row = Inr petani_out"
  by code_simp

lemma nameless_row_refused:
  "validateData no_dates [(''petani'', petani_schema)] (Some ''petani'') nameless_row =
     Inl (Error ''Field 'nama' is required but missing'')"
  by code_simp

text \<open>
  C7.  A field that the schema does not name is not always passed on: \<open>constructor\<close> is
  the name of a member that the schema object inherits, so \<open>schema[field]\<close> is truthy
  and the second loop leaves the field out of the validated row.  The other fields of the
  row are validated as the claim says.
\<close>

theorem validateData_drops_inherited_name:
  "validateData no_dates [(''petani'', petani_schema)] (Some ''petani'')
     [(''nama'', VStr ''Budi''), (''constructor'', VStr ''x''), (''catatan'', VStr ''baru'')] =
   Inr [(''nama'', VStr ''Budi''), (''aktif'', VBool True), (''catatan'', VStr ''baru'')]"
  by code_simp

text \<open>A statement that inserts this row.\<close>

lemma parse_insert_inherited_name:
  "parse ''INSERT INTO petani (nama, constructor, catatan) VALUES ('Budi', 'x', 'baru')'' None =
     Some (INSERT (Some ''petani'')
             [(''nama'', VStr ''Budi''), (''constructor'', VStr ''x''), (''catatan'', VStr ''baru'')])"
  by code_simp
section \<open>The row test of the table scan\<close>

text \<open>
  \<open>_scanTable\<close> tests a simple criterion inline: a criterion without \<open>type\<close> that has
  a \<open>key\<close> and an \<open>op\<close>.  Every other criterion is handed to
  \<open>ConditionEvaluator.checkMatch\<close>.  For \<open>LIKE\<close> the inline test rewrites the pattern
  with \<open>criteriaVal.replace(/%/g, '.*').replace(/_/g, '.')\<close> and tests the value with
  \<open>new RegExp('^' + pattern + '$', 'i')\<close>.
\<close>

definition replace_all :: "char \<Rightarrow> string \<Rightarrow> string \<Rightarrow> string" where
  "replace_all c r s = concat (map (\<lambda>x. if x = c then r else [x]) s)"

definition like_pattern :: "string \<Rightarrow> string" where
  "like_pattern criteriaVal = replace_all (CHR ''_'') ''.'' (replace_all (CHR ''%'') ''.*'' criteriaVal)"

text \<open>
  The regular expressions of the model: a sequence of atoms, each a character or the
  dot, each taken once or under a star.  A pattern text that uses any other syntax
  character (backslash, anchors, groups, classes, braces, alternation, the other
  quantifiers, or a star that follows no atom) is outside the model: \<open>regex_pieces\<close> is
  \<open>None\<close> there.
\<close>

datatype atom = AnyChar | Lit char

datatype piece = One atom | Star atom

definition syntax_characters :: string where
  "syntax_characters = CHR 0x5C # ''^$*+?()[]{}|''"

definition atom_of :: "char \<Rightarrow> atom" where
  "atom_of c = (if c = CHR ''.'' then AnyChar else Lit c)"

fun regex_pieces :: "string \<Rightarrow> piece list option" where
  "regex_pieces [] = Some []"
| "regex_pieces [c] = (if c \<in> set syntax_characters then None else Some [One (atom_of c)])"
| "regex_pieces (c # d # cs) =
     (if c \<in> set syntax_characters then None
      else if d = CHR ''*'' then map_option (Cons (Star (atom_of c))) (regex_pieces cs)
      else map_option (Cons (One (atom_of c))) (regex_pieces (d # cs)))"

text \<open>
  With the \<open>i\<close> flag two characters are equal when their canonical forms are: the
  upper-case form, where it is one character.  The characters of the model are the code
  units below 256: the letters \<open>a\<close> to \<open>z\<close> and the letters from \<open>0xE0\<close> to \<open>0xFE\<close>
  (but the division sign \<open>0xF7\<close>) have their upper-case form 32 below; the upper-case
  forms of \<open>0xB5\<close>, \<open>0xDF\<close> and \<open>0xFF\<close> are no such characters, and a character below
  256 equals none of them.  The dot matches every character but a line terminator.
\<close>

definition canonicalize :: "char \<Rightarrow> char" where
  "canonicalize c =
     (let n = of_char c :: nat in
      if (97 \<le> n \<and> n \<le> 122) \<or> (224 \<le> n \<and> n \<le> 254 \<and> n \<noteq> 247) then char_of (n - 32) else c)"

definition atom_matches :: "atom \<Rightarrow> char \<Rightarrow> bool" where
  "atom_matches a c =
     (case a of AnyChar \<Rightarrow> \<not> is_line_terminator c | Lit l \<Rightarrow> canonicalize l = canonicalize c)"

text \<open>\<open>pieces_match ps s\<close>: the expression between \<open>^\<close> and \<open>$\<close> matches all of \<open>s\<close>.\<close>

fun pieces_match :: "piece list \<Rightarrow> string \<Rightarrow> bool" where
  "pieces_match [] s = (s = [])"
| "pieces_match (One a # ps) [] = False"
| "pieces_match (One a # ps) (c # cs) = (atom_matches a c \<and> pieces_match ps cs)"
| "pieces_match (Star a # ps) [] = pieces_match ps []"
| "pieces_match (Star a # ps) (c # cs) =
     (pieces_match ps (c # cs) \<or> (atom_matches a c \<and> pieces_match (Star a # ps) cs))"

text \<open>
  \<open>RegExp.prototype.test\<close> converts the value to a string first.  A string has the
  method \<open>replace\<close>; the call on \<open>null\<close>, on \<open>undefined\<close> and on a value without a
  function \<open>replace\<close> is a \<open>TypeError\<close>.  An object that brings a function \<open>replace\<close>
  of its own is outside the model, as is a pattern outside \<open>regex_pieces\<close>: the result is
  \<open>None\<close> there.
\<close>

definition test_subject :: "builtins \<Rightarrow> jsval \<Rightarrow> string" where
  "test_subject bi v = (case v of VStr s \<Rightarrow> s | _ \<Rightarrow> toText bi v)"

definition like_matches :: "builtins \<Rightarrow> jsval \<Rightarrow> jsval \<Rightarrow> (js_error + bool) option" where
  "like_matches bi criteriaVal val =
     (case criteriaVal of
        VStr p \<Rightarrow>
          (case regex_pieces (like_pattern p) of
             None \<Rightarrow> None
           | Some ps \<Rightarrow> Some (Inr (pieces_match ps (test_subject bi val))))
      | VNull \<Rightarrow> Some (Inl (TypeError ''Cannot read properties of null (reading 'replace')''))
      | VUndefined \<Rightarrow> Some (Inl (undefined_read ''replace''))
      | VObj ob \<Rightarrow>
          (case obj_get ob ''replace'' of
             VFun f \<Rightarrow> None
           | _ \<Rightarrow> Some (Inl (TypeError ''criteriaVal.replace is not a function'')))
      | _ \<Rightarrow> Some (Inl (TypeError ''criteriaVal.replace is not a function'')))"

subsection \<open>The test of one row\<close>

text \<open>\<open>if (v)\<close>: the truth of a value.\<close>

definition truthy :: "jsval \<Rightarrow> bool" where
  "truthy v =
     (case v of
        VUndefined \<Rightarrow> False
      | VNull \<Rightarrow> False
      | VBool b \<Rightarrow> b
      | VNum n \<Rightarrow> n \<noteq> Fin 0 \<and> n \<noteq> NaN
      | VStr s \<Rightarrow> s \<noteq> []
      | _ \<Rightarrow> True)"

text \<open>
  \<open>criteria.type\<close>, \<open>criteria.key\<close>, \<open>criteria.op\<close> and \<open>criteria.val\<close>, read from a
  criterion that is not \<open>null\<close> or \<open>undefined\<close>: a member of an object, own or
  inherited; no other value has a member of these names.
\<close>

definition property :: "jsval \<Rightarrow> string \<Rightarrow> jsval" where
  "property v name = (case v of VObj ob \<Rightarrow> obj_get ob name | _ \<Rightarrow> VUndefined)"

text \<open>
  \<open>const hasSimpleCriteria = criteria && !criteria.type && criteria.key && criteria.op\<close>
\<close>

definition hasSimpleCriteria :: "jsval \<Rightarrow> bool" where
  "hasSimpleCriteria criteria =
     (truthy criteria \<and> \<not> truthy (property criteria ''type'') \<and>
      truthy (property criteria ''key'') \<and> truthy (property criteria ''op''))"

text \<open>
  The comparison operators of the language on two values (\<open>==\<close>, \<open>>\<close>, \<open><\<close>, \<open>>=\<close>,
  \<open><=\<close>), and the two methods of \<open>ConditionEvaluator\<close> that the scan calls, are
  parameters of the model.
\<close>

record scan_env =
  loose_eq :: "jsval \<Rightarrow> jsval \<Rightarrow> js_error + bool"
  greater_than :: "jsval \<Rightarrow> jsval \<Rightarrow> js_error + bool"
  less_than :: "jsval \<Rightarrow> jsval \<Rightarrow> js_error + bool"
  greater_equal :: "jsval \<Rightarrow> jsval \<Rightarrow> js_error + bool"
  less_equal :: "jsval \<Rightarrow> jsval \<Rightarrow> js_error + bool"
  checkSingleCondition :: "obj \<Rightarrow> jsval \<Rightarrow> js_error + jsval"
  checkMatch :: "obj \<Rightarrow> jsval \<Rightarrow> js_error + jsval"

text \<open>
  The value of \<open>matches\<close> for one row \<open>row\<close> of the page, as the \<open>if\<close> that follows
  reads it.  \<open>row[criteriaKey]\<close> takes the key as a string.
\<close>

definition row_matches :: "scan_env \<Rightarrow> builtins \<Rightarrow> jsval \<Rightarrow> obj \<Rightarrow> (js_error + bool) option" where
  "row_matches env bi criteria row =
     (if hasSimpleCriteria criteria then
        (let criteriaKey = property criteria ''key'';
             criteriaOp = property criteria ''op'';
             criteriaVal = property criteria ''val'';
             val = obj_get row (test_subject bi criteriaKey)
         in
           if criteriaOp = VStr ''='' then Some (loose_eq env val criteriaVal)
           else if criteriaOp = VStr ''>'' then Some (greater_than env val criteriaVal)
           else if criteriaOp = VStr ''<'' then Some (less_than env val criteriaVal)
           else if criteriaOp = VStr ''>='' then Some (greater_equal env val criteriaVal)
           else if criteriaOp = VStr ''<='' then Some (less_equal env val criteriaVal)
           else if criteriaOp = VStr ''!='' then
             Some (bindE (loose_eq env val criteriaVal) (\<lambda>b. Inr (\<not> b)))
           else if criteriaOp = VStr ''LIKE'' then like_matches bi criteriaVal val
           else Some (bindE (checkSingleCondition env row criteria) (\<lambda>m. Inr (truthy m))))
      else if truthy criteria then
        Some (bindE (checkMatch env row criteria) (\<lambda>m. Inr (truthy m)))
      else Some (Inr True))"

text \<open>
  The object that \<open>QueryParser.parseWhere\<close> builds for a criterion: every one carries a
  \<open>type\<close>.
\<close>

fun criteria_object :: "criteria \<Rightarrow> jsval" where
  "criteria_object (Cond k op v) =
     VObj [(''type'', VStr ''cond''), (''key'', VStr k), (''op'', VStr op), (''val'', v)]"
| "criteria_object (Logic op) = VObj [(''type'', VStr ''logic''), (''op'', VStr op)]"
| "criteria_object (Compound logic conditions) =
     VObj [(''type'', VStr ''compound''), (''logic'', VStr logic),
           (''conditions'', VArr (map criteria_object conditions))]"
| "criteria_object NoCond = VUndefined"

text \<open>
  A criterion \<open>{key, op, val}\<close> without \<open>type\<close>, as \<open>TriggerManager\<close>,
  \<open>ProcedureManager\<close> and \<open>SchemaManager\<close> hand it to the executors.
\<close>

definition simple_criterion :: "string \<Rightarrow> string \<Rightarrow> jsval \<Rightarrow> jsval" where
  "simple_criterion k op v = VObj [(''key'', VStr k), (''op'', VStr op), (''val'', v)]"

subsection \<open>The matching that the claim describes\<close>

text \<open>
  \<open>like_spec p s\<close>: \<open>%\<close> stands for any sequence of characters, \<open>_\<close> for any single
  character, and every other character of the pattern for itself, without regard to
  case.
\<close>

fun like_spec :: "string \<Rightarrow> string \<Rightarrow> bool" where
  "like_spec [] s = (s = [])"
| "like_spec (p # ps) [] = (p = CHR ''%'' \<and> like_spec ps [])"
| "like_spec (p # ps) (c # cs) =
     (if p = CHR ''%'' then like_spec ps (c # cs) \<or> like_spec (p # ps) cs
      else (p = CHR ''_'' \<or> canonicalize p = canonicalize c) \<and> like_spec ps cs)"

section \<open>Properties of the row test\<close>

lemma simple_criterion_members:
  "property (simple_criterion k op v) ''type'' = VUndefined"
  "property (simple_criterion k op v) ''key'' = VStr k"
  "property (simple_criterion k op v) ''op'' = VStr op"
  "property (simple_criterion k op v) ''val'' = v"
  by (simp_all add: simple_criterion_def property_def obj_get_def object_prototype_def)

lemma hasSimpleCriteria_simple:
  "hasSimpleCriteria (simple_criterion k op v) = (k \<noteq> [] \<and> op \<noteq> [])"
  by (simp add: hasSimpleCriteria_def simple_criterion_members)
    (simp add: truthy_def simple_criterion_def)

text \<open>
  A \<open>LIKE\<close> criterion without \<open>type\<close> is tested inline; a criterion that the parser
  built, of whatever operator, is handed to \<open>checkMatch\<close>.
\<close>

lemma row_matches_simple_like:
  "k \<noteq> [] \<Longrightarrow>
   row_matches env bi (simple_criterion k ''LIKE'' v) row = like_matches bi v (obj_get row k)"
  by (simp add: row_matches_def hasSimpleCriteria_simple simple_criterion_members Let_def
      test_subject_def)

lemma row_matches_parsed:
  "row_matches env bi (criteria_object (Cond k op v)) row =
     Some (bindE (checkMatch env row (criteria_object (Cond k op v))) (\<lambda>m. Inr (truthy m)))"
  by (simp add: row_matches_def hasSimpleCriteria_def property_def obj_get_def truthy_def)

definition piece_of :: "char \<Rightarrow> piece" where
  "piece_of c =
     (if c = CHR ''%'' then Star AnyChar else if c = CHR ''_'' then One AnyChar else One (Lit c))"

definition plain_char :: "char \<Rightarrow> bool" where
  "plain_char c = (c \<notin> set syntax_characters \<and> c \<noteq> CHR ''.'')"

lemma like_pattern_Nil [simp]: "like_pattern [] = []"
  by (simp add: like_pattern_def replace_all_def)

lemma like_pattern_Cons:
  "like_pattern (c # cs) =
     (if c = CHR ''%'' then ''.*'' else if c = CHR ''_'' then ''.'' else [c]) @ like_pattern cs"
  by (simp add: like_pattern_def replace_all_def)

lemma like_pattern_no_star: "\<forall>c \<in> set p. plain_char c \<Longrightarrow> like_pattern p \<noteq> CHR ''*'' # r"
  by (cases p) (auto simp: like_pattern_Cons plain_char_def syntax_characters_def)

lemma regex_pieces_step:
  assumes "c \<notin> set syntax_characters" and "\<And>r'. r \<noteq> CHR ''*'' # r'"
  shows "regex_pieces (c # r) = map_option (Cons (One (atom_of c))) (regex_pieces r)"
  using assms by (cases r) auto

lemma regex_pieces_like_pattern:
  "\<forall>c \<in> set p. plain_char c \<Longrightarrow> regex_pieces (like_pattern p) = Some (map piece_of p)"
proof (induction p)
  case Nil
  then show ?case by simp
next
  case (Cons c p)
  then have IH: "regex_pieces (like_pattern p) = Some (map piece_of p)"
    and c: "plain_char c" and ns: "\<And>r'. like_pattern p \<noteq> CHR ''*'' # r'"
    using like_pattern_no_star [of p] by auto
  have dot: "CHR ''.'' \<notin> set syntax_characters" by (simp add: syntax_characters_def)
  show ?case
  proof (cases "c = CHR ''%''")
    case True
    then show ?thesis
      using IH dot by (simp add: like_pattern_Cons piece_of_def atom_of_def)
  next
    case False
    show ?thesis
    proof (cases "c = CHR ''_''")
      case True
      then show ?thesis
        using IH regex_pieces_step [OF dot ns]
        by (simp add: like_pattern_Cons piece_of_def atom_of_def)
    next
      case False
      from c have "c \<notin> set syntax_characters" "c \<noteq> CHR ''.''" by (simp_all add: plain_char_def)
      with False \<open>c \<noteq> CHR ''%''\<close> show ?thesis
        using IH regex_pieces_step [OF _ ns, of c]
        by (simp add: like_pattern_Cons piece_of_def atom_of_def)
    qed
  qed
qed

lemma pieces_match_like_spec:
  "\<forall>c \<in> set s. \<not> is_line_terminator c \<Longrightarrow> pieces_match (map piece_of p) s = like_spec p s"
proof (induction p s rule: like_spec.induct)
  case (1 s)
  then show ?case by simp
next
  case (2 p ps)
  then show ?case by (simp add: piece_of_def)
next
  case (3 p ps c cs)
  then show ?case by (auto simp: piece_of_def atom_matches_def)
qed

text \<open>
  Where the pattern has no syntax character of regular expressions and the value no line
  terminator, the test of the scan is the matching that the claim describes.
\<close>

lemma like_matches_plain:
  assumes "\<forall>c \<in> set p. plain_char c" and "\<forall>c \<in> set s. \<not> is_line_terminator c"
  shows "like_matches bi (VStr p) (VStr s) = Some (Inr (like_spec p s))"
  using regex_pieces_like_pattern [OF assms(1)] pieces_match_like_spec [OF assms(2)]
  by (simp add: like_matches_def test_subject_def)

lemma row_matches_plain:
  assumes "k \<noteq> []" and "obj_get row k = VStr s"
    and "\<forall>c \<in> set p. plain_char c" and "\<forall>c \<in> set s. \<not> is_line_terminator c"
  shows "row_matches env bi (simple_criterion k ''LIKE'' (VStr p)) row = Some (Inr (like_spec p s))"
  using row_matches_simple_like [OF assms(1)] like_matches_plain [OF assms(3) assms(4)] assms(2)
  by simp

lemma parse_like_dot:
  "parse (''SELECT * FROM t WHERE nama LIKE 'a.c'' @ [CHR 0x27]) None =
     Some (SELECT \<lparr>sel_table = Some ''t'', sel_cols = [''*''], sel_joins = [],
                    sel_criteria = Some (Cond ''nama'' ''LIKE'' (VStr ''a.c'')),
                    sel_sort = None, sel_limit = None, sel_offset = None,
                    sel_distinct = False\<rparr>)"
  by code_simp


section \<open>\<open>IndexManager\<close>: keeping the indexes up to date\<close>

text \<open>
  The class \<open>BTreeIndex\<close> is not among the sources.  An index is a value of a type
  \<open>'i\<close>, and the two methods that \<open>IndexManager\<close> calls to change one are parameters:
  \<open>bt_insert key row\<close> is \<open>index.insert(key, row)\<close> and \<open>bt_delete key\<close> is
  \<open>index.delete(key)\<close>.
\<close>

record 'i btree_ops =
  bt_insert :: "jsval \<Rightarrow> obj \<Rightarrow> 'i \<Rightarrow> 'i"
  bt_delete :: "jsval \<Rightarrow> 'i \<Rightarrow> 'i"

text \<open>\<open>s.split(c)\<close>: the pieces of \<open>s\<close> between the occurrences of \<open>c\<close>.\<close>

fun split_on :: "char \<Rightarrow> string \<Rightarrow> string list" where
  "split_on c [] = [[]]"
| "split_on c (x # xs) =
     (if x = c then [] # split_on c xs
      else (case split_on c xs of [] \<Rightarrow> [[x]] | s # ss \<Rightarrow> (x # s) # ss))"

text \<open>
  \<open>const [tbl, field] = indexKey.split('.')\<close>: the first two pieces; a piece that is not
  there is \<open>undefined\<close>, which as a property name reads \<open>"undefined"\<close>.
\<close>

definition index_table :: "string \<Rightarrow> string option" where
  "index_table indexKey = js_nth (split_on (CHR ''.'') indexKey) 0"

definition index_field :: "string \<Rightarrow> string" where
  "index_field indexKey =
     (case js_nth (split_on (CHR ''.'') indexKey) 1 of None \<Rightarrow> ''undefined'' | Some f \<Rightarrow> f)"

text \<open>
  \<open>row.hasOwnProperty(field)\<close> for a row that has no member \<open>hasOwnProperty\<close> of its
  own, so that the call reaches the function of \<open>Object.prototype\<close>.
\<close>

definition hasOwnProperty :: "obj \<Rightarrow> string \<Rightarrow> bool" where
  "hasOwnProperty ob field = (map_of ob field \<noteq> None)"

text \<open>
  One turn of the loop of \<open>updateIndexes(table, newObj, oldObj)\<close>, for the index
  \<open>index\<close> stored under \<open>indexKey\<close>; \<open>null\<close> is \<open>None\<close>.
\<close>

definition update_index ::
  "'i btree_ops \<Rightarrow> string \<Rightarrow> obj option \<Rightarrow> obj option \<Rightarrow> string \<Rightarrow> 'i \<Rightarrow> 'i" where
  "update_index ops table newObj oldObj indexKey index =
     (let field = index_field indexKey in
      if index_table indexKey \<noteq> Some table then index
      else
        (let removed =
               (case oldObj of
                  None \<Rightarrow> index
                | Some old \<Rightarrow>
                    if hasOwnProperty old field \<and>
                       (case newObj of
                          None \<Rightarrow> True
                        | Some new \<Rightarrow> \<not> strict_eq (obj_get new field) (obj_get old field))
                    then bt_delete ops (obj_get old field) index
                    else index)
         in case newObj of
              None \<Rightarrow> removed
            | Some new \<Rightarrow>
                if hasOwnProperty new field \<and>
                   (case oldObj of
                      None \<Rightarrow> True
                    | Some old \<Rightarrow> \<not> strict_eq (obj_get new field) (obj_get old field))
                then bt_insert ops (obj_get new field) new removed
                else removed))"

text \<open>\<open>this.indexes\<close> is a \<open>Map\<close> from index keys to indexes, visited in insertion order.\<close>

definition updateIndexes ::
  "'i btree_ops \<Rightarrow> (string \<times> 'i) list \<Rightarrow> string \<Rightarrow> obj option \<Rightarrow> obj option \<Rightarrow> (string \<times> 'i) list" where
  "updateIndexes ops indexes table newObj oldObj =
     map (\<lambda>(indexKey, index). (indexKey, update_index ops table newObj oldObj indexKey index)) indexes"

definition removeFromIndexes ::
  "'i btree_ops \<Rightarrow> (string \<times> 'i) list \<Rightarrow> string \<Rightarrow> obj \<Rightarrow> (string \<times> 'i) list" where
  "removeFromIndexes ops indexes table data =
     map (\<lambda>(indexKey, index).
            (indexKey,
             if index_table indexKey = Some table \<and> hasOwnProperty data (index_field indexKey)
             then bt_delete ops (obj_get data (index_field indexKey)) index
             else index)) indexes"

text \<open>
  The index step of \<open>insertMany\<close>, for one validated row: every table but \<open>_indexes\<close>
  has its indexes updated with the row as \<open>newObj\<close> and \<open>null\<close> as \<open>oldObj\<close>.
\<close>

definition index_inserted :: "'i btree_ops \<Rightarrow> string \<Rightarrow> obj \<Rightarrow> (string \<times> 'i) list \<Rightarrow> (string \<times> 'i) list" where
  "index_inserted ops table data indexes =
     (if table \<noteq> ''_indexes'' then updateIndexes ops indexes table (Some data) None else indexes)"

section \<open>Properties of the index updates\<close>


text \<open>
  The contract of \<open>BTreeIndex\<close>, for a reading \<open>contents\<close> of an index as the multiset of
  its entries: \<open>insert(key, row)\<close> adds the entry; \<open>delete(key)\<close> removes the entry
  under the key where the index holds at most one.  What \<open>delete\<close> does to a key with
  several entries is left open.
\<close>

definition meets_contract :: "'i btree_ops \<Rightarrow> ('i \<Rightarrow> (jsval \<times> obj) multiset) \<Rightarrow> bool" where
  "meets_contract ops contents =
     ((\<forall>key row index. contents (bt_insert ops key row index) = add_mset (key, row) (contents index)) \<and>
      (\<forall>key index.
         size (filter_mset (\<lambda>e. fst e = key) (contents index)) \<le> 1 \<longrightarrow>
         contents (bt_delete ops key index) = filter_mset (\<lambda>e. fst e \<noteq> key) (contents index)))"




text \<open>
  Two instances of the parameters, for closed examples: an index as the list of its
  entries, where \<open>delete\<close> removes every entry under the key, or the first one only.
\<close>

definition entry_list_ops :: "(jsval \<times> obj) list btree_ops" where
  "entry_list_ops =
     \<lparr>bt_insert = (\<lambda>key row entries. entries @ [(key, row)]),
      bt_delete = (\<lambda>key entries. filter (\<lambda>e. fst e \<noteq> key) entries)\<rparr>"

fun delete_first :: "jsval \<Rightarrow> (jsval \<times> obj) list \<Rightarrow> (jsval \<times> obj) list" where
  "delete_first key [] = []"
| "delete_first key (e # es) = (if fst e = key then es else e # delete_first key es)"

definition first_entry_ops :: "(jsval \<times> obj) list btree_ops" where
  "first_entry_ops =
     \<lparr>bt_insert = (\<lambda>key row entries. entries @ [(key, row)]), bt_delete = delete_first\<rparr>"





text \<open>An insert adds the row under its value of the field, to the indexes of the table.\<close>

lemma update_index_insert:
  assumes "index_table indexKey = Some table" and "hasOwnProperty data (index_field indexKey)"
  shows "update_index ops table (Some data) None indexKey index =
           bt_insert ops (obj_get data (index_field indexKey)) data index"
  using assms by (simp add: update_index_def Let_def)












lemma delete_first_sole:
  "size (filter_mset (\<lambda>e. fst e = key) (mset es)) \<le> 1 \<Longrightarrow>
   mset (delete_first key es) = filter_mset (\<lambda>e. fst e \<noteq> key) (mset es)"
proof (induction es)
  case Nil
  then show ?case by simp
next
  case (Cons e es)
  show ?case
  proof (cases "fst e = key")
    case True
    with Cons.prems have "filter_mset (\<lambda>e. fst e = key) (mset es) = {#}" by simp
    then have "\<And>x. x \<in># mset es \<Longrightarrow> fst x \<noteq> key"
      unfolding filter_mset_eq_mempty_iff by blast
    then have "filter_mset (\<lambda>e. fst e \<noteq> key) (mset es) = mset es"
      by (simp add: filter_mset_eq_conv)
    with True show ?thesis by simp
  next
    case False
    with Cons show ?thesis by simp
  qed
qed

lemma first_entry_ops_contract: "meets_contract first_entry_ops mset"
  by (simp add: meets_contract_def first_entry_ops_def delete_first_sole)






section \<open>\<open>InsertExecutor.insertMany\<close>: appending rows to the pages of a table\<close>

subsection \<open>Buffers\<close>

text \<open>
  A \<open>Buffer\<close> is the list of its bytes, each a number below 256.  The methods of
  \<open>Buffer\<close> that \<open>insertMany\<close> calls throw a \<open>RangeError\<close> when the value or the offset
  is out of range; the text of the error is its code in the model.
\<close>

type_synonym buffer = "nat list"

definition out_of_range :: js_error where
  "out_of_range = RangeError ''ERR_OUT_OF_RANGE''"

definition readUInt16LE :: "buffer \<Rightarrow> nat \<Rightarrow> js_error + nat" where
  "readUInt16LE buf offset =
     (if offset + 2 \<le> length buf then Inr (buf ! offset + 256 * buf ! (offset + 1))
      else Inl out_of_range)"

definition readUInt32LE :: "buffer \<Rightarrow> nat \<Rightarrow> js_error + nat" where
  "readUInt32LE buf offset =
     (if offset + 4 \<le> length buf
      then Inr (buf ! offset + 256 * buf ! (offset + 1) + 65536 * buf ! (offset + 2) +
                16777216 * buf ! (offset + 3))
      else Inl out_of_range)"

definition writeUInt16LE :: "nat \<Rightarrow> nat \<Rightarrow> buffer \<Rightarrow> js_error + buffer" where
  "writeUInt16LE v offset buf =
     (if 65535 < v \<or> length buf < offset + 2 then Inl out_of_range
      else Inr (buf[offset := v mod 256, offset + 1 := v div 256]))"

definition writeUInt32LE :: "nat \<Rightarrow> nat \<Rightarrow> buffer \<Rightarrow> js_error + buffer" where
  "writeUInt32LE v offset buf =
     (if 4294967295 < v \<or> length buf < offset + 4 then Inl out_of_range
      else Inr (buf[offset := v mod 256, offset + 1 := v div 256 mod 256,
                    offset + 2 := v div 65536 mod 256, offset + 3 := v div 16777216]))"

text \<open>
  \<open>source.copy(target, targetStart)\<close> copies as many bytes of \<open>source\<close> as \<open>target\<close>
  has room for from \<open>targetStart\<close> on; the rest of \<open>source\<close> is not copied.
\<close>

definition copy :: "buffer \<Rightarrow> buffer \<Rightarrow> nat \<Rightarrow> buffer" where
  "copy source target targetStart =
     take (length target) (take targetStart target @ source @ drop (targetStart + length source) target)"

subsection \<open>The pager and the catalog\<close>

text \<open>
  Modelled from the spec: the module \<open>Pager\<close>, which is not among the sources.  The
  database file is the list of its pages, a page the buffer of its \<open>PAGE_SIZE\<close> bytes;
  \<open>readPage\<close> gives the bytes of a page and \<open>writePage\<close> replaces them, a page id out of
  range being a storage fault; \<open>allocPage\<close> returns the index of the end of the file and
  extends the file by one page with next page 0, record count 0 and free offset 8.  The
  caches, the write-ahead log and a full disk are not modelled.
\<close>

definition PAGE_SIZE :: nat where
  "PAGE_SIZE = 4096"

definition storage_fault :: js_error where
  "storage_fault = Error ''StorageFault''"

definition readPage :: "buffer list \<Rightarrow> nat \<Rightarrow> js_error + buffer" where
  "readPage file pageId = (case js_nth file pageId of None \<Rightarrow> Inl storage_fault | Some p \<Rightarrow> Inr p)"

definition writePage :: "buffer list \<Rightarrow> nat \<Rightarrow> buffer \<Rightarrow> js_error + buffer list" where
  "writePage file pageId buf =
     (if pageId < length file then Inr (file[pageId := buf]) else Inl storage_fault)"

definition new_page :: buffer where
  "new_page = [0, 0, 0, 0, 0, 0, 8, 0] @ replicate (PAGE_SIZE - 8) 0"

definition allocPage :: "buffer list \<Rightarrow> nat \<times> buffer list" where
  "allocPage file = (length file, file @ [new_page])"

text \<open>
  Modelled from the spec: the class \<open>TableManager\<close>, which is not among the sources.  The
  catalog gives the entry of a table by its name, with the first and the last page of
  the table; the pages that hold the catalog itself are not modelled.
\<close>

record table_entry =
  startPage :: nat
  lastPage :: nat

definition findTableEntry :: "(string \<times> table_entry) list \<Rightarrow> string \<Rightarrow> table_entry option" where
  "findTableEntry entries name = map_of entries name"

definition updateTableLastPage ::
  "(string \<times> table_entry) list \<Rightarrow> string \<Rightarrow> nat \<Rightarrow> (string \<times> table_entry) list" where
  "updateTableLastPage entries name pageId =
     map (\<lambda>(n, e). if n = name then (n, e\<lparr>lastPage := pageId\<rparr>) else (n, e)) entries"

subsection \<open>The state of the database and the hooks of an insert\<close>

record trigger =
  tr_name :: string
  tr_timing :: string
  tr_event :: string
  tr_action :: string

text \<open>
  The part of the database that an insert reads and writes: the file of the pager, the
  catalog, the indexes, the schemas, the triggers by table, and the records that the
  audit logger has written.
\<close>

record 'i storage =
  pager_file :: "buffer list"
  table_entries :: "(string \<times> table_entry) list"
  db_indexes :: "(string \<times> 'i) list"
  db_schemas :: schema_map
  db_triggers :: "(string \<times> trigger list) list"
  audit_records :: "(string \<times> string \<times> obj) list"

text \<open>
  What \<open>insertMany\<close> takes from outside: the conversions of the language,
  \<open>Buffer.from(JSON.stringify(data), 'utf8')\<close>, the methods of \<open>BTreeIndex\<close>, whether the
  audit logger is enabled, and \<open>engine.query\<close> as a trigger runs it, its result dropped and
  its errors caught.  The event handler \<open>dbevent\<close> is given the table, the rows and the
  text of the query, not the database, and is left out.
\<close>

record 'i insert_env =
  conversions :: builtins
  stringify :: "obj \<Rightarrow> buffer"
  index_ops :: "'i btree_ops"
  audit_enabled :: bool
  trigger_query :: "string \<Rightarrow> 'i storage \<Rightarrow> 'i storage"

text \<open>\<open>TriggerManager.executeTriggers(table, event, timing, context)\<close>.\<close>

definition executeTriggers ::
  "'i insert_env \<Rightarrow> string \<Rightarrow> string \<Rightarrow> string \<Rightarrow> 'i storage \<Rightarrow> 'i storage" where
  "executeTriggers env table event timing st =
     (let tableTriggers = (case map_of (db_triggers st) table of None \<Rightarrow> [] | Some ts \<Rightarrow> ts);
          matchingTriggers =
            filter (\<lambda>t. tr_event t = toUpperCase event \<and> tr_timing t = toUpperCase timing) tableTriggers
      in fold (\<lambda>t. trigger_query env (tr_action t)) matchingTriggers st)"

text \<open>\<open>AuditLogger.logInsert(table, data)\<close>: a record is written when the logger is enabled.\<close>

definition logInsert :: "'i insert_env \<Rightarrow> string \<Rightarrow> obj \<Rightarrow> 'i storage \<Rightarrow> 'i storage" where
  "logInsert env table data st =
     (if audit_enabled env then st\<lparr>audit_records := audit_records st @ [(''INSERT'', table, data)]\<rparr>
      else st)"

subsection \<open>The loop over the rows\<close>

text \<open>The variables of \<open>insertMany\<close> that the loop changes, with the state of the database.\<close>

record 'i cursor =
  db :: "'i storage"
  currentPageId :: nat
  pData :: buffer
  freeOffset :: nat
  count :: nat
  startPageChanged :: bool

text \<open>
  The branch of a record that does not fit: the page is written with its header, a page is
  allocated, the old page is written again with the new page as its next page, and the
  loop goes on with the new page.
\<close>

definition next_page :: "'i cursor \<Rightarrow> js_error + 'i cursor" where
  "next_page c =
     bindE (writeUInt16LE (count c) 4 (pData c)) (\<lambda>p1.
     bindE (writeUInt16LE (freeOffset c) 6 p1) (\<lambda>p2.
     bindE (writePage (pager_file (db c)) (currentPageId c) p2) (\<lambda>file1.
     (case allocPage file1 of
        (newPageId, file2) \<Rightarrow>
          bindE (writeUInt32LE newPageId 0 p2) (\<lambda>p3.
          bindE (writePage file2 (currentPageId c) p3) (\<lambda>file3.
          bindE (readPage file3 newPageId) (\<lambda>page.
          bindE (readUInt16LE page 6) (\<lambda>free.
          bindE (readUInt16LE page 4) (\<lambda>cnt.
            Inr (c\<lparr>db := (db c)\<lparr>pager_file := file3\<rparr>, currentPageId := newPageId,
                    pData := page, freeOffset := free, count := cnt,
                    startPageChanged := True\<rparr>))))))))))"

text \<open>
  The record of a row in the page: its length in two bytes at the free offset, then as
  many of its bytes as the page has room for.
\<close>

definition write_record :: "buffer \<Rightarrow> nat \<Rightarrow> buffer \<Rightarrow> js_error + buffer" where
  "write_record dataBuf offset page =
     bindE (writeUInt16LE (length dataBuf) offset page) (\<lambda>p1. Inr (copy dataBuf p1 (offset + 2)))"

text \<open>
  What follows the write of a row into the page \<open>pageId\<close>: the row gets the hidden
  property \<open>_pageId\<close>, the indexes are updated unless the table is \<open>_indexes\<close>, and the
  insert is logged unless the table is \<open>_audit\<close>.  The logger writes the row as JSON,
  which leaves the hidden property out.
\<close>

definition row_written :: "'i insert_env \<Rightarrow> string \<Rightarrow> obj \<Rightarrow> nat \<Rightarrow> 'i storage \<Rightarrow> 'i storage" where
  "row_written env table data pageId st =
     (let hinted = obj_set data ''_pageId'' (VNum (Fin (of_nat pageId)));
          st1 = st\<lparr>db_indexes := index_inserted (index_ops env) table hinted (db_indexes st)\<rparr>
      in if table \<noteq> ''_audit'' then logInsert env table data st1 else st1)"

text \<open>One turn of the loop, for the validated row \<open>data\<close>.\<close>

definition append_row :: "'i insert_env \<Rightarrow> string \<Rightarrow> obj \<Rightarrow> 'i cursor \<Rightarrow> js_error + 'i cursor" where
  "append_row env table data c0 =
     (let dataBuf = stringify env data;
          recordLen = length dataBuf;
          totalLen = 2 + recordLen
      in bindE (if freeOffset c0 + totalLen > PAGE_SIZE then next_page c0 else Inr c0) (\<lambda>c.
         bindE (write_record dataBuf (freeOffset c) (pData c)) (\<lambda>p.
           Inr (c\<lparr>db := row_written env table data (currentPageId c) (db c), pData := p,
                   freeOffset := freeOffset c + totalLen, count := count c + 1\<rparr>))))"

fun append_rows :: "'i insert_env \<Rightarrow> string \<Rightarrow> obj list \<Rightarrow> 'i cursor \<Rightarrow> js_error + 'i cursor" where
  "append_rows env table [] c = Inr c"
| "append_rows env table (data # rest) c =
     (case append_row env table data c of
        Inl e \<Rightarrow> Inl e
      | Inr c' \<Rightarrow> append_rows env table rest c')"

text \<open>The validation of the rows, before anything is written.\<close>

fun validate_rows :: "builtins \<Rightarrow> schema_map \<Rightarrow> string \<Rightarrow> obj list \<Rightarrow> js_error + obj list" where
  "validate_rows bi schemas table [] = Inr []"
| "validate_rows bi schemas table (data # rest) =
     (case validateData bi schemas (Some table) data of
        Inl e \<Rightarrow> Inl e
      | Inr v \<Rightarrow> (case validate_rows bi schemas table rest of Inl e \<Rightarrow> Inl e | Inr vs \<Rightarrow> Inr (v # vs)))"

text \<open>The final write of the page of the cursor, with its header.\<close>

definition final_write :: "'i cursor \<Rightarrow> js_error + 'i storage" where
  "final_write c =
     bindE (writeUInt16LE (count c) 4 (pData c)) (\<lambda>p1.
     bindE (writeUInt16LE (freeOffset c) 6 p1) (\<lambda>p2.
     bindE (writePage (pager_file (db c)) (currentPageId c) p2) (\<lambda>file.
       Inr ((db c)\<lparr>pager_file := file\<rparr>))))"

text \<open>
  \<open>insertMany(table, dataArray)\<close>.  The result is the message and the state of the
  database; the state that a throw leaves behind is not part of the model.
\<close>

definition insertMany ::
  "'i insert_env \<Rightarrow> 'i storage \<Rightarrow> string \<Rightarrow> obj list \<Rightarrow> js_error + (string \<times> 'i storage)" where
  "insertMany env st table dataArray =
     (if dataArray = [] then Inr (''Tidak ada bibit untuk ditanam.'', st)
      else
        (case findTableEntry (table_entries st) table of
           None \<Rightarrow> Inl (Error (''Kebun '' @ quoted table @ '' tidak ditemukan.''))
         | Some entry \<Rightarrow>
             bindE (validate_rows (conversions env) (db_schemas st) table dataArray) (\<lambda>validatedDataArray.
               (let st1 = fold (\<lambda>data. executeTriggers env table ''INSERT'' ''BEFORE'') validatedDataArray st
                in bindE (readPage (pager_file st1) (lastPage entry)) (\<lambda>page.
                   bindE (readUInt16LE page 6) (\<lambda>free.
                   bindE (readUInt16LE page 4) (\<lambda>cnt.
                   bindE (append_rows env table validatedDataArray
                            \<lparr>db = st1, currentPageId = lastPage entry, pData = page,
                             freeOffset = free, count = cnt, startPageChanged = False\<rparr>) (\<lambda>c.
                   bindE (final_write c) (\<lambda>st2.
                     (let st3 = (if startPageChanged c
                                 then st2\<lparr>table_entries :=
                                            updateTableLastPage (table_entries st2) table (currentPageId c)\<rparr>
                                 else st2);
                          st4 = fold (\<lambda>data. executeTriggers env table ''INSERT'' ''AFTER'') validatedDataArray st3
                      in Inr (toText (conversions env) (VNum (Fin (of_nat (length validatedDataArray)))) @
                                '' bibit tertanam.'', st4)))))))))))"

section \<open>Properties of \<open>insertMany\<close>\<close>

subsection \<open>Buffers and pages\<close>

definition bytes :: "buffer \<Rightarrow> bool" where
  "bytes buf = (\<forall>b \<in> set buf. b < 256)"

lemma readUInt16LE_bound:
  assumes "bytes buf" and "readUInt16LE buf offset = Inr v"
  shows "v \<le> 65535"
proof -
  from assms(2) have l: "offset + 2 \<le> length buf" and v: "v = buf ! offset + 256 * buf ! (offset + 1)"
    by (auto simp: readUInt16LE_def split: if_splits)
  from l assms(1) have "buf ! offset < 256" "buf ! (offset + 1) < 256"
    by (simp_all add: bytes_def)
  with v show ?thesis by simp
qed

lemma writeUInt16LE_Inr:
  "v \<le> 65535 \<Longrightarrow> offset + 2 \<le> length buf \<Longrightarrow>
   writeUInt16LE v offset buf = Inr (buf[offset := v mod 256, offset + 1 := v div 256])"
  by (simp add: writeUInt16LE_def)

lemma writeUInt32LE_Inr:
  "v \<le> 4294967295 \<Longrightarrow> offset + 4 \<le> length buf \<Longrightarrow>
   writeUInt32LE v offset buf =
     Inr (buf[offset := v mod 256, offset + 1 := v div 256 mod 256,
              offset + 2 := v div 65536 mod 256, offset + 3 := v div 16777216])"
  by (simp add: writeUInt32LE_def)

lemma readUInt16LE_written:
  assumes "offset + 2 \<le> length buf"
  shows "readUInt16LE (buf[offset := v mod 256, offset + 1 := v div 256]) offset = Inr v"
  using assms by (simp add: readUInt16LE_def)

lemma readUInt16LE_update_other:
  assumes "i \<noteq> offset" and "i \<noteq> offset + 1"
  shows "readUInt16LE (buf[i := b]) offset = readUInt16LE buf offset"
  using assms by (simp add: readUInt16LE_def)

lemma length_copy [simp]: "length (copy source target targetStart) = length target"
  by (simp add: copy_def)

lemma copy_nth_before:
  "i < targetStart \<Longrightarrow> i < length target \<Longrightarrow> copy source target targetStart ! i = target ! i"
  by (simp add: copy_def nth_append)

lemma readUInt16LE_copy_before:
  "offset + 2 \<le> targetStart \<Longrightarrow> offset + 2 \<le> length target \<Longrightarrow>
   readUInt16LE (copy source target targetStart) offset = readUInt16LE target offset"
  by (simp add: readUInt16LE_def copy_nth_before)

lemma length_new_page [simp]: "length new_page = PAGE_SIZE"
  by (simp add: new_page_def PAGE_SIZE_def)

lemma new_page_header:
  "readUInt16LE new_page 6 = Inr 8" "readUInt16LE new_page 4 = Inr 0" "readUInt32LE new_page 0 = Inr 0"
  by (simp_all add: readUInt16LE_def readUInt32LE_def new_page_def PAGE_SIZE_def)

lemma readPage_Inr: "readPage file pageId = Inr p \<longleftrightarrow> pageId < length file \<and> file ! pageId = p"
  by (auto simp: readPage_def js_nth_def split: option.splits if_splits)

lemma executeTriggers_none:
  "map_of (db_triggers st) table = None \<Longrightarrow> executeTriggers env table event timing st = st"
  by (simp add: executeTriggers_def)

lemma fold_executeTriggers_none:
  "map_of (db_triggers st) table = None \<Longrightarrow>
   fold (\<lambda>data. executeTriggers env table event timing) rows st = st"
  by (induction rows) (simp_all add: executeTriggers_none)

lemma validate_rows_no_schema:
  "map_of schemas table = None \<Longrightarrow> validate_rows bi schemas table rows = Inr rows"
  by (induction rows) (simp_all add: validateData_def lookup_name_def)

lemma findTableEntry_updated:
  "findTableEntry entries name = Some e \<Longrightarrow>
   findTableEntry (updateTableLastPage entries name pageId) name = Some (e\<lparr>lastPage := pageId\<rparr>)"
  unfolding findTableEntry_def updateTableLastPage_def
  by (induction entries) (auto split: if_splits)

text \<open>A page with its header fields set, as the writes of \<open>insertMany\<close> set them.\<close>

definition with_header :: "nat \<Rightarrow> nat \<Rightarrow> buffer \<Rightarrow> buffer" where
  "with_header cnt free p = p[4 := cnt mod 256, 5 := cnt div 256, 6 := free mod 256, 7 := free div 256]"

definition with_next :: "nat \<Rightarrow> buffer \<Rightarrow> buffer" where
  "with_next n p =
     p[0 := n mod 256, 1 := n div 256 mod 256, 2 := n div 65536 mod 256, 3 := n div 16777216]"

lemma length_with_header [simp]: "length (with_header cnt free p) = length p"
  by (simp add: with_header_def)

lemma length_with_next [simp]: "length (with_next n p) = length p"
  by (simp add: with_next_def)

lemma write_header:
  assumes "cnt \<le> 65535" and "free \<le> 65535" and "8 \<le> length p"
  shows "bindE (writeUInt16LE cnt 4 p) (\<lambda>p1. bindE (writeUInt16LE free 6 p1) f) = f (with_header cnt free p)"
  using assms by (simp add: writeUInt16LE_def with_header_def)

lemma with_header_fields:
  assumes "8 \<le> length p"
  shows "readUInt16LE (with_header cnt free p) 4 = Inr cnt" "readUInt16LE (with_header cnt free p) 6 = Inr free"
  using assms by (simp_all add: readUInt16LE_def with_header_def)

lemma four_bytes:
  "n mod 256 + 256 * (n div 256 mod 256) + 65536 * (n div 65536 mod 256) + 16777216 * (n div 16777216) =
   (n::nat)"
proof -
  have a: "n div 65536 = n div 256 div 256" and b: "n div 16777216 = n div 256 div 256 div 256"
    by (simp_all add: div_mult2_eq [symmetric])
  have "n = n mod 256 + 256 * (n div 256)" by simp
  moreover have "n div 256 = n div 256 mod 256 + 256 * (n div 256 div 256)" by simp
  moreover have "n div 256 div 256 = n div 256 div 256 mod 256 + 256 * (n div 256 div 256 div 256)"
    by simp
  ultimately show ?thesis unfolding a b by linarith
qed

lemma with_next_field:
  assumes "4 \<le> length p"
  shows "readUInt32LE (with_next n p) 0 = Inr n"
proof -
  from assms have "p \<noteq> []" by auto
  with assms four_bytes [of n] show ?thesis
    by (simp add: readUInt32LE_def with_next_def numeral_2_eq_2)
qed

lemma next_page_Inr:
  assumes "count c \<le> 65535" and "freeOffset c \<le> 65535" and "length (pData c) = PAGE_SIZE"
    and "currentPageId c < length (pager_file (db c))"
    and "length (pager_file (db c)) \<le> 4294967295"
  shows "next_page c =
           Inr (c\<lparr>db := (db c)\<lparr>pager_file :=
                        (pager_file (db c))
                          [currentPageId c :=
                             with_next (length (pager_file (db c)))
                               (with_header (count c) (freeOffset c) (pData c))] @ [new_page]\<rparr>,
                  currentPageId := length (pager_file (db c)),
                  pData := new_page, freeOffset := 8, count := 0, startPageChanged := True\<rparr>)"
proof -
  let ?file = "pager_file (db c)"
  let ?h = "with_header (count c) (freeOffset c) (pData c)"
  have l8: "8 \<le> length (pData c)" using assms(3) by (simp add: PAGE_SIZE_def)
  have w: "writeUInt32LE (length ?file) 0 ?h = Inr (with_next (length ?file) ?h)"
    using assms(5) l8 by (simp add: writeUInt32LE_def with_next_def numeral_2_eq_2)
  have f3: "(?file[currentPageId c := ?h] @ [new_page])[currentPageId c := with_next (length ?file) ?h] =
            ?file[currentPageId c := with_next (length ?file) ?h] @ [new_page]"
    using assms(4) by (simp add: list_update_append)
  have r: "readPage (?file[currentPageId c := with_next (length ?file) ?h] @ [new_page]) (length ?file) =
           Inr new_page"
    by (simp add: readPage_Inr nth_append)
  show ?thesis
    unfolding next_page_def write_header [OF assms(1,2) l8]
    using assms(4) by (simp add: writePage_def allocPage_def w f3 r new_page_header)
qed

definition with_record :: "buffer \<Rightarrow> nat \<Rightarrow> buffer \<Rightarrow> buffer" where
  "with_record r offset p = copy r (p[offset := length r mod 256, offset + 1 := length r div 256]) (offset + 2)"

lemma length_with_record [simp]: "length (with_record r offset p) = length p"
  by (simp add: with_record_def)

lemma write_record_Inr:
  "length r \<le> 65535 \<Longrightarrow> offset + 2 \<le> length p \<Longrightarrow> write_record r offset p = Inr (with_record r offset p)"
  by (simp add: write_record_def writeUInt16LE_def with_record_def)

lemma row_written_fields [simp]:
  "pager_file (row_written env table data pageId st) = pager_file st"
  "table_entries (row_written env table data pageId st) = table_entries st"
  "db_triggers (row_written env table data pageId st) = db_triggers st"
  "db_schemas (row_written env table data pageId st) = db_schemas st"
  by (simp_all add: row_written_def logInsert_def Let_def)

lemma append_row_fits:
  assumes "freeOffset c + 2 + length (stringify env data) \<le> PAGE_SIZE" and "length (pData c) = PAGE_SIZE"
  shows "append_row env table data c =
           Inr (c\<lparr>db := row_written env table data (currentPageId c) (db c),
                   pData := with_record (stringify env data) (freeOffset c) (pData c),
                   freeOffset := freeOffset c + (2 + length (stringify env data)),
                   count := count c + 1\<rparr>)"
proof -
  from assms have "length (stringify env data) \<le> 65535" "freeOffset c + 2 \<le> length (pData c)"
    by (simp_all add: PAGE_SIZE_def)
  from write_record_Inr [OF this] assms(1) show ?thesis
    by (simp add: append_row_def Let_def)
qed

lemma append_row_next_page:
  assumes "PAGE_SIZE < freeOffset c + 2 + length (stringify env data)"
    and "length (stringify env data) \<le> 65535"
    and "count c \<le> 65535" and "freeOffset c \<le> 65535" and "length (pData c) = PAGE_SIZE"
    and "currentPageId c < length (pager_file (db c))"
    and "length (pager_file (db c)) \<le> 4294967295"
  shows "append_row env table data c =
           Inr (c\<lparr>db := row_written env table data (length (pager_file (db c)))
                          ((db c)\<lparr>pager_file :=
                             (pager_file (db c))
                               [currentPageId c :=
                                  with_next (length (pager_file (db c)))
                                    (with_header (count c) (freeOffset c) (pData c))] @ [new_page]\<rparr>),
                   currentPageId := length (pager_file (db c)),
                   pData := with_record (stringify env data) 8 new_page,
                   freeOffset := 8 + (2 + length (stringify env data)),
                   count := 1, startPageChanged := True\<rparr>)"
proof -
  have "write_record (stringify env data) 8 new_page = Inr (with_record (stringify env data) 8 new_page)"
    using assms(2) by (intro write_record_Inr) (simp_all add: PAGE_SIZE_def)
  then show ?thesis
    using assms(1) by (simp add: append_row_def Let_def next_page_Inr [OF assms(3-7)])
qed

lemma final_write_Inr:
  assumes "count c \<le> 65535" and "freeOffset c \<le> 65535" and "8 \<le> length (pData c)"
    and "currentPageId c < length (pager_file (db c))"
  shows "final_write c =
           Inr ((db c)\<lparr>pager_file :=
                  (pager_file (db c))[currentPageId c := with_header (count c) (freeOffset c) (pData c)]\<rparr>)"
  unfolding final_write_def write_header [OF assms(1-3)]
  using assms(4) by (simp add: writePage_def)

lemma drop_with_header: "8 \<le> n \<Longrightarrow> drop n (with_header cnt free p) = drop n p"
  by (simp add: with_header_def drop_update_cancel)

lemma drop_with_record:
  "offset + 2 \<le> length p \<Longrightarrow>
   drop (offset + 2) (with_record r offset p) =
     take (length p - (offset + 2)) (r @ drop (offset + 2 + length r) p)"
  by (simp add: with_record_def copy_def drop_update_cancel min_def)

subsection \<open>A row that no page can hold\<close>

text \<open>
  C5.  A row whose record is longer than an empty page has room for (more than
  \<open>PAGE_SIZE - 8\<close> bytes with its length) is not appended as the claim says.  On a table
  without schema and triggers whose last page is sound, the insert of such a row returns
  normally: a page is allocated and becomes the last page of the table, but it holds only
  the first \<open>PAGE_SIZE - 10\<close> bytes of the row, and its free offset is written as
  \<open>10 + length\<close>, beyond the end of the page.
\<close>

theorem insertMany_oversize_row:
  assumes "findTableEntry (table_entries st) table = Some entry"
    and "map_of (db_schemas st) table = None" and "map_of (db_triggers st) table = None"
    and "readPage (pager_file st) (lastPage entry) = Inr page"
    and "length page = PAGE_SIZE" and "bytes page"
    and "readUInt16LE page 6 = Inr free" and "8 \<le> free"
    and "PAGE_SIZE < 10 + length (stringify env row)"
    and "10 + length (stringify env row) \<le> 65535"
    and "length (pager_file st) \<le> 4294967295"
  shows "\<exists>msg st' p.
           insertMany env st table [row] = Inr (msg, st') \<and>
           findTableEntry (table_entries st') table = Some (entry\<lparr>lastPage := length (pager_file st)\<rparr>) \<and>
           readPage (pager_file st') (length (pager_file st)) = Inr p \<and>
           length p = PAGE_SIZE \<and>
           readUInt16LE p 4 = Inr 1 \<and>
           readUInt16LE p 6 = Inr (10 + length (stringify env row)) \<and>
           drop 10 p = take (PAGE_SIZE - 10) (stringify env row)"
proof -
  let ?r = "stringify env row"
  let ?n = "length (pager_file st)"
  from assms(5) have l4: "4 + 2 \<le> length page" by (simp add: PAGE_SIZE_def)
  then obtain cnt where cnt: "readUInt16LE page 4 = Inr cnt" by (simp add: readUInt16LE_def)
  from readUInt16LE_bound [OF assms(6) cnt] readUInt16LE_bound [OF assms(6,7)]
  have b: "cnt \<le> 65535" "free \<le> 65535" .
  from assms(4) have lp: "lastPage entry < ?n" by (simp add: readPage_Inr)
  let ?c0 = "\<lparr>db = st, currentPageId = lastPage entry, pData = page, freeOffset = free,
               count = cnt, startPageChanged = False\<rparr>"
  let ?file1 = "(pager_file st)[lastPage entry := with_next ?n (with_header cnt free page)] @ [new_page]"
  let ?st1 = "row_written env table row ?n (st\<lparr>pager_file := ?file1\<rparr>)"
  let ?q = "with_record ?r 8 new_page"
  let ?c1 = "?c0\<lparr>db := ?st1, currentPageId := ?n, pData := ?q,
                  freeOffset := 8 + (2 + length ?r), count := 1, startPageChanged := True\<rparr>"
  let ?p = "with_header 1 (10 + length ?r) ?q"
  let ?file2 = "?file1[?n := ?p]"
  have over: "PAGE_SIZE < freeOffset ?c0 + 2 + length ?r" using assms(8,9) by simp
  have step: "append_row env table row ?c0 = Inr ?c1"
    using append_row_next_page [of ?c0 env row table] over assms(5,10,11) b lp by simp
  have fw: "final_write ?c1 = Inr (?st1\<lparr>pager_file := ?file2\<rparr>)"
    using final_write_Inr [of ?c1] assms(10) by (simp add: PAGE_SIZE_def)
  let ?st3 = "?st1\<lparr>pager_file := ?file2,
                    table_entries := updateTableLastPage (table_entries st) table ?n\<rparr>"
  have tr: "map_of (db_triggers ?st3) table = None" using assms(3) by simp
  have v: "validate_rows (conversions env) (db_schemas st) table [row] = Inr [row]"
    using assms(2) by (rule validate_rows_no_schema)
  have run: "insertMany env st table [row] =
               Inr (toText (conversions env) (VNum (Fin 1)) @ '' bibit tertanam.'', ?st3)"
    unfolding insertMany_def v
    using assms(1,3,4,7) cnt step fw tr
    by (simp add: executeTriggers_none)
  have p: "readPage (pager_file ?st3) ?n = Inr ?p" by (simp add: readPage_Inr)
  have h: "readUInt16LE ?p 4 = Inr 1" "readUInt16LE ?p 6 = Inr (10 + length ?r)"
    by (simp_all add: with_header_fields PAGE_SIZE_def)
  have d: "drop 10 ?p = take (PAGE_SIZE - 10) ?r"
    using drop_with_record [of 8 new_page ?r] assms(9)
    by (simp add: drop_with_header) (simp add: PAGE_SIZE_def)
  from run p h d assms(1) show ?thesis
    by (simp add: findTableEntry_updated) 
qed

text \<open>
  An instance: the table \<open>t\<close> with the empty page 1, and a row with one text of 5000
  characters.  \<open>text_row_bytes\<close> is \<open>JSON.stringify\<close> for rows whose values are texts
  of plain ASCII characters.
\<close>

fun text_members :: "obj \<Rightarrow> string" where
  "text_members [] = []"
| "text_members [(k, v)] =
     [CHR 0x22] @ k @ [CHR 0x22] @ '':'' @ [CHR 0x22] @ (case v of VStr s \<Rightarrow> s | _ \<Rightarrow> []) @ [CHR 0x22]"
| "text_members ((k, v) # kv # kvs) = text_members [(k, v)] @ '','' @ text_members (kv # kvs)"

definition text_row_bytes :: "obj \<Rightarrow> buffer" where
  "text_row_bytes data = map of_char (''{'' @ text_members data @ ''}'')"

definition plain_env :: "(jsval \<times> obj) list insert_env" where
  "plain_env =
     \<lparr>conversions = no_dates, stringify = text_row_bytes, index_ops = entry_list_ops,
      audit_enabled = False, trigger_query = (\<lambda>q st. st)\<rparr>"

definition table_t :: table_entry where
  "table_t = \<lparr>startPage = 1, lastPage = 1\<rparr>"

definition one_table :: "(jsval \<times> obj) list storage" where
  "one_table =
     \<lparr>pager_file = [new_page, new_page], table_entries = [(''t'', table_t)], db_indexes = [],
      db_schemas = [], db_triggers = [], audit_records = []\<rparr>"

definition long_row :: obj where
  "long_row = [(''a'', VStr (replicate 5000 (CHR ''x'')))]"

lemma long_row_length: "length (stringify plain_env long_row) = 5008"
  by (simp add: plain_env_def text_row_bytes_def long_row_def)

lemma bytes_new_page: "bytes new_page"
  by (simp add: bytes_def new_page_def)

lemma one_table_facts:
  "findTableEntry (table_entries one_table) ''t'' = Some table_t"
  "map_of (db_schemas one_table) ''t'' = None" "map_of (db_triggers one_table) ''t'' = None"
  "readPage (pager_file one_table) (lastPage table_t) = Inr new_page"
  "length (pager_file one_table) = 2"
  by (simp_all add: one_table_def findTableEntry_def table_t_def readPage_Inr)

theorem insertMany_oversize_row_witness:
  "findTableEntry (table_entries one_table) ''t'' = Some table_t \<and>
   map_of (db_schemas one_table) ''t'' = None \<and> map_of (db_triggers one_table) ''t'' = None \<and>
   readPage (pager_file one_table) (lastPage table_t) = Inr new_page \<and>
   length new_page = PAGE_SIZE \<and> bytes new_page \<and> readUInt16LE new_page 6 = Inr 8 \<and>
   length (stringify plain_env long_row) = 5008 \<and> PAGE_SIZE = 4096 \<and>
   length (pager_file one_table) = 2 \<and>
   (\<exists>msg st' p.
      insertMany plain_env one_table ''t'' [long_row] = Inr (msg, st') \<and>
      findTableEntry (table_entries st') ''t'' = Some (table_t\<lparr>lastPage := 2\<rparr>) \<and>
      readPage (pager_file st') 2 = Inr p \<and> length p = 4096 \<and>
      readUInt16LE p 4 = Inr 1 \<and> readUInt16LE p 6 = Inr 5018 \<and>
      drop 10 p = take 4086 (stringify plain_env long_row))"
proof -
  note f = one_table_facts
  have s: "PAGE_SIZE < 10 + length (stringify plain_env long_row)"
    "10 + length (stringify plain_env long_row) \<le> 65535"
    "length (pager_file one_table) \<le> 4294967295" "(8::nat) \<le> 8"
    by (simp_all add: long_row_length PAGE_SIZE_def f(5))
  from insertMany_oversize_row [OF f(1) f(2) f(3) f(4) length_new_page bytes_new_page
      new_page_header(1) s(4) s(1) s(2) s(3)]
  show ?thesis
    using f bytes_new_page new_page_header(1) long_row_length
    by (simp add: PAGE_SIZE_def)
qed
subsection \<open>Rows that fit a page\<close>

text \<open>
  \<open>page_holds p recs\<close>: the page \<open>p\<close> holds exactly the records \<open>recs\<close>, each as its
  length in two bytes and its bytes, one after the other from offset 8 to the free offset,
  and its header gives their number and the free offset.
\<close>

definition rec_bytes :: "buffer \<Rightarrow> buffer" where
  "rec_bytes r = [length r mod 256, length r div 256] @ r"

definition recs_bytes :: "buffer list \<Rightarrow> buffer" where
  "recs_bytes recs = concat (map rec_bytes recs)"

definition page_holds :: "buffer \<Rightarrow> buffer list \<Rightarrow> bool" where
  "page_holds p recs =
     (length p = PAGE_SIZE \<and> 8 + length (recs_bytes recs) \<le> PAGE_SIZE \<and>
      readUInt16LE p 4 = Inr (length recs) \<and>
      readUInt16LE p 6 = Inr (8 + length (recs_bytes recs)) \<and>
      take (length (recs_bytes recs)) (drop 8 p) = recs_bytes recs)"

text \<open>The same of the page in the hands of the loop, whose header is in the variables.\<close>

definition cursor_holds :: "'i cursor \<Rightarrow> buffer list \<Rightarrow> bool" where
  "cursor_holds c recs =
     (length (pData c) = PAGE_SIZE \<and> currentPageId c < length (pager_file (db c)) \<and>
      count c = length recs \<and> freeOffset c = 8 + length (recs_bytes recs) \<and>
      freeOffset c \<le> PAGE_SIZE \<and>
      take (length (recs_bytes recs)) (drop 8 (pData c)) = recs_bytes recs \<and>
      readUInt32LE (pData c) 0 = Inr 0)"

text \<open>The file as the final write of the cursor's page would leave it.\<close>

definition flushed :: "'i cursor \<Rightarrow> buffer list" where
  "flushed c = (pager_file (db c))[currentPageId c := with_header (count c) (freeOffset c) (pData c)]"

text \<open>
  \<open>linked_pages file pl\<close>: the pages of \<open>pl\<close>, given by page id and records, hold their
  records, each has the next one of the list as its next page, and the last has none.
\<close>

fun linked_pages :: "buffer list \<Rightarrow> (nat \<times> buffer list) list \<Rightarrow> bool" where
  "linked_pages file [] = False"
| "linked_pages file [(i, recs)] =
     (i < length file \<and> page_holds (file ! i) recs \<and> readUInt32LE (file ! i) 0 = Inr 0)"
| "linked_pages file ((i, recs) # (j, recs') # rest) =
     (i < length file \<and> page_holds (file ! i) recs \<and> readUInt32LE (file ! i) 0 = Inr j \<and>
      linked_pages file ((j, recs') # rest))"

lemma recs_bytes_simps [simp]:
  "recs_bytes [] = []" "recs_bytes (recs @ [r]) = recs_bytes recs @ rec_bytes r"
  "recs_bytes [r] = rec_bytes r"
  by (simp_all add: recs_bytes_def)

lemma length_rec_bytes [simp]: "length (rec_bytes r) = 2 + length r"
  by (simp add: rec_bytes_def)

lemma readUInt16LE_with_next:
  "4 \<le> offset \<Longrightarrow> readUInt16LE (with_next n p) offset = readUInt16LE p offset"
  by (simp add: readUInt16LE_def with_next_def)

lemma drop_with_next: "4 \<le> k \<Longrightarrow> drop k (with_next n p) = drop k p"
  by (simp add: with_next_def drop_update_cancel)

lemma readUInt32LE_with_header:
  "readUInt32LE (with_header cnt free p) 0 = readUInt32LE p 0"
  by (simp add: readUInt32LE_def with_header_def)

lemma cursor_holds_header:
  assumes "cursor_holds c recs"
  shows "page_holds (with_header (count c) (freeOffset c) (pData c)) recs"
    and "readUInt32LE (with_header (count c) (freeOffset c) (pData c)) 0 = Inr 0"
  using assms
  by (simp_all add: cursor_holds_def page_holds_def with_header_fields drop_with_header
      readUInt32LE_with_header PAGE_SIZE_def)

lemma page_holds_with_next:
  assumes "page_holds p recs"
  shows "page_holds (with_next n p) recs" and "readUInt32LE (with_next n p) 0 = Inr n"
  using assms
  by (simp_all add: page_holds_def readUInt16LE_with_next drop_with_next with_next_field PAGE_SIZE_def)

lemma two_updates:
  assumes "offset + 2 \<le> length p"
  shows "p[offset := a, offset + 1 := b] = take offset p @ [a, b] @ drop (offset + 2) p"
proof -
  from assms have "p[offset := a] = take offset p @ a # drop (Suc offset) p"
    by (simp add: upd_conv_take_nth_drop)
  moreover from assms have "drop (Suc offset) p = p ! Suc offset # drop (offset + 2) p"
    by (simp add: Cons_nth_drop_Suc)
  ultimately show ?thesis
    using assms by (simp add: list_update_append)
qed

lemma with_record_fits:
  assumes "offset + 2 + length r \<le> length p"
  shows "with_record r offset p = take offset p @ rec_bytes r @ drop (offset + 2 + length r) p"
proof -
  from assms have l: "offset + 2 \<le> length p" by simp
  show ?thesis
    unfolding with_record_def copy_def two_updates [OF l] rec_bytes_def
    using assms by (simp add: min_def ac_simps)
qed

lemma with_record_head:
  assumes "offset + 2 + length r \<le> length p" and "k \<le> offset"
  shows "take k (with_record r offset p) = take k p"
  using assms by (simp add: with_record_fits min_def)

lemma readUInt32LE_take:
  "4 \<le> length p \<Longrightarrow> take 4 q = take 4 p \<Longrightarrow> readUInt32LE q 0 = readUInt32LE p 0"
proof -
  assume l: "4 \<le> length p" and t: "take 4 q = take 4 p"
  from t l have lq: "4 \<le> length q"
    by (metis length_take min.absorb2 min.cobounded1 min_def)
  have "\<And>i. i < 4 \<Longrightarrow> q ! i = p ! i"
    using t by (metis nth_take)
  with l lq show ?thesis by (simp add: readUInt32LE_def)
qed

lemma cursor_holds_fits:
  assumes "cursor_holds c recs" and "freeOffset c + 2 + length r \<le> PAGE_SIZE"
  shows "cursor_holds
           (c\<lparr>db := row_written env table data (currentPageId c) (db c),
              pData := with_record r (freeOffset c) (pData c),
              freeOffset := freeOffset c + (2 + length r), count := count c + 1\<rparr>)
           (recs @ [r])"
proof -
  let ?p = "pData c" and ?B = "length (recs_bytes recs)"
  from assms(1) have l: "length ?p = PAGE_SIZE" and f: "freeOffset c = 8 + ?B"
    and t: "take ?B (drop 8 ?p) = recs_bytes recs" and n: "readUInt32LE ?p 0 = Inr 0"
    and i: "currentPageId c < length (pager_file (db c))" and cn: "count c = length recs"
    by (simp_all add: cursor_holds_def)
  from assms(2) l have fit: "freeOffset c + 2 + length r \<le> length ?p" by simp
  have w: "with_record r (freeOffset c) ?p =
             take (8 + ?B) ?p @ rec_bytes r @ drop (8 + ?B + 2 + length r) ?p"
    using with_record_fits [OF fit] f by simp
  have d: "drop 8 (take (8 + ?B) ?p) = recs_bytes recs"
    using t by (simp add: drop_take)
  have l8: "8 \<le> length (take (8 + ?B) ?p)" using fit f by simp
  have "take (?B + (2 + length r)) (drop 8 (with_record r (freeOffset c) ?p)) =
        recs_bytes recs @ rec_bytes r"
    unfolding w using l8 d fit f by (simp add: min_def)
  moreover have "readUInt32LE (with_record r (freeOffset c) ?p) 0 = Inr 0"
  proof -
    have "take 4 (with_record r (freeOffset c) ?p) = take 4 ?p"
      using with_record_head [OF fit, of 4] f by simp
    with readUInt32LE_take [of ?p] l n show ?thesis by (simp add: PAGE_SIZE_def)
  qed
  ultimately show ?thesis
    using l f i cn assms(2) by (simp add: cursor_holds_def)
qed

lemma new_page_take4: "take 4 new_page = [0, 0, 0, 0]"
  by (simp add: new_page_def)

lemma cursor_holds_new_page:
  assumes "8 + (2 + length r) \<le> PAGE_SIZE" and "n < length file"
  shows "cursor_holds
           (c\<lparr>db := row_written env table data n (st\<lparr>pager_file := file\<rparr>),
              currentPageId := n, pData := with_record r 8 new_page,
              freeOffset := 8 + (2 + length r), count := 1, startPageChanged := True\<rparr>)
           [r]"
proof -
  from assms(1) have fit: "8 + 2 + length r \<le> length new_page" by simp
  have w: "with_record r 8 new_page = take 8 new_page @ rec_bytes r @ drop (8 + 2 + length r) new_page"
    by (rule with_record_fits [OF fit])
  have "take (2 + length r) (drop 8 (with_record r 8 new_page)) = rec_bytes r"
    unfolding w using fit by simp
  moreover have "readUInt32LE (with_record r 8 new_page) 0 = Inr 0"
  proof -
    have "take 4 (with_record r 8 new_page) = take 4 new_page"
      using with_record_head [OF fit, of 4] by simp
    with readUInt32LE_take [of new_page] new_page_header(3) show ?thesis
      by (simp add: PAGE_SIZE_def)
  qed
  ultimately show ?thesis
    using assms by (simp add: cursor_holds_def)
qed

lemma length_recs_bytes: "2 * length recs \<le> length (recs_bytes recs)"
  by (induction recs) (simp_all add: recs_bytes_def)

lemma cursor_holds_bounds:
  assumes "cursor_holds c recs"
  shows "count c \<le> 65535" "freeOffset c \<le> 65535" "length (pData c) = PAGE_SIZE"
    "currentPageId c < length (pager_file (db c))"
proof -
  from assms have f: "freeOffset c \<le> PAGE_SIZE" "freeOffset c = 8 + length (recs_bytes recs)"
    "count c = length recs"
    by (simp_all add: cursor_holds_def)
  with length_recs_bytes [of recs] show "count c \<le> 65535" "freeOffset c \<le> 65535"
    by (simp_all add: PAGE_SIZE_def)
  from assms show "length (pData c) = PAGE_SIZE" "currentPageId c < length (pager_file (db c))"
    by (simp_all add: cursor_holds_def)
qed

text \<open>
  The state of the loop after the rows \<open>rows\<close>, started at the cursor \<open>c\<close> whose page
  holds \<open>recs\<close>: the pages \<open>pl\<close> are the page of \<open>c\<close> and the pages allocated since, linked
  in this order, they hold \<open>recs\<close> and the records of the rows in order, the cursor is on
  the last of them, and no other page of the file has changed.
\<close>

definition appended ::
  "'i insert_env \<Rightarrow> 'i cursor \<Rightarrow> buffer list \<Rightarrow> obj list \<Rightarrow> 'i cursor \<Rightarrow> (nat \<times> buffer list) list \<Rightarrow> bool" where
  "appended env c recs rows c' pl =
     (linked_pages (flushed c') pl \<and>
      map fst pl = currentPageId c # [length (pager_file (db c)) ..< length (pager_file (db c'))] \<and>
      concat (map snd pl) = recs @ map (stringify env) rows \<and>
      cursor_holds c' (snd (last pl)) \<and> currentPageId c' = fst (last pl) \<and>
      length (pager_file (db c)) \<le> length (pager_file (db c')) \<and>
      (\<forall>i < length (pager_file (db c)).
         i \<noteq> currentPageId c \<longrightarrow> pager_file (db c') ! i = pager_file (db c) ! i) \<and>
      startPageChanged c' =
        (startPageChanged c \<or> length (pager_file (db c)) < length (pager_file (db c'))) \<and>
      table_entries (db c') = table_entries (db c) \<and> db_triggers (db c') = db_triggers (db c))"

lemma appended_Nil:
  assumes "cursor_holds c recs"
  shows "appended env c recs [] c [(currentPageId c, recs)]"
  using assms cursor_holds_header [OF assms] cursor_holds_bounds(4) [OF assms]
  by (simp add: appended_def flushed_def)

lemma appended_same_page:
  assumes "appended env c1 (recs @ [stringify env data]) rest c' pl"
    and "pager_file (db c1) = pager_file (db c)" and "currentPageId c1 = currentPageId c"
    and "startPageChanged c1 = startPageChanged c"
    and "table_entries (db c1) = table_entries (db c)" and "db_triggers (db c1) = db_triggers (db c)"
  shows "appended env c recs (data # rest) c' pl"
  using assms by (simp add: appended_def)

lemma appended_new_page:
  assumes a: "appended env c1 [stringify env data] rest c' pl"
    and h: "cursor_holds c recs"
    and f: "pager_file (db c1) =
              (pager_file (db c))
                [currentPageId c :=
                   with_next (length (pager_file (db c)))
                     (with_header (count c) (freeOffset c) (pData c))] @ [new_page]"
    and i: "currentPageId c1 = length (pager_file (db c))"
    and e: "table_entries (db c1) = table_entries (db c)" "db_triggers (db c1) = db_triggers (db c)"
    and s1: "startPageChanged c1"
  shows "appended env c recs (data # rest) c' ((currentPageId c, recs) # pl)"
proof -
  let ?file = "pager_file (db c)" and ?file' = "pager_file (db c')"
  let ?n = "length ?file" and ?cur = "currentPageId c"
  let ?old = "with_next ?n (with_header (count c) (freeOffset c) (pData c))"
  from h have cur: "?cur < ?n" by (rule cursor_holds_bounds)
  from f have l1: "length (pager_file (db c1)) = Suc ?n" by simp
  from a have lp: "linked_pages (flushed c') pl"
    and ids: "map fst pl = ?n # [Suc ?n ..< length ?file']"
    and recs: "concat (map snd pl) = [stringify env data] @ map (stringify env) rest"
    and ch: "cursor_holds c' (snd (last pl))" and cl: "currentPageId c' = fst (last pl)"
    and len: "Suc ?n \<le> length ?file'"
    and frame: "\<forall>i < Suc ?n. i \<noteq> ?n \<longrightarrow> ?file' ! i = pager_file (db c1) ! i"
    and ent: "table_entries (db c') = table_entries (db c1)" "db_triggers (db c') = db_triggers (db c1)"
    and spc: "startPageChanged c'"
    unfolding appended_def i l1 using s1 by auto
  from ids obtain recs' rest' where pl: "pl = (?n, recs') # rest'"
    by (cases pl) auto
  then have ne: "pl \<noteq> []" by simp
  have "fst (last pl) \<in> set (map fst pl)" using ne by (simp add: last_in_set)
  with ids have ge: "?n \<le> fst (last pl)" by auto
  with cl cur have neq: "currentPageId c' \<noteq> ?cur" by simp
  have old: "?file' ! ?cur = ?old"
    using frame cur f by (simp add: nth_append)
  have fl: "flushed c' ! ?cur = ?old"
    using neq old by (simp add: flushed_def)
  have lf: "?cur < length (flushed c')"
    using cur len by (simp add: flushed_def)
  have ph: "page_holds ?old recs" "readUInt32LE ?old 0 = Inr ?n"
    using page_holds_with_next [OF cursor_holds_header(1) [OF h]] by simp_all
  have 1: "linked_pages (flushed c') ((?cur, recs) # pl)"
    unfolding pl using lp lf ph fl by (simp add: pl)
  have 2: "map fst ((?cur, recs) # pl) = ?cur # [?n ..< length ?file']"
    using ids len by (simp add: upt_conv_Cons)
  have 3: "concat (map snd ((?cur, recs) # pl)) = recs @ map (stringify env) (data # rest)"
    using recs by simp
  have 4: "\<forall>i < ?n. i \<noteq> ?cur \<longrightarrow> ?file' ! i = ?file ! i"
    using frame f by (simp add: nth_append)
  show ?thesis
    unfolding appended_def
    using 1 2 3 4 ch cl len ne spc ent e by simp
qed

lemma append_rows_appended:
  assumes "cursor_holds c recs"
    and "\<forall>data \<in> set rows. 8 + (2 + length (stringify env data)) \<le> PAGE_SIZE"
    and "length (pager_file (db c)) + length rows \<le> 4294967295"
  shows "\<exists>c' pl. append_rows env table rows c = Inr c' \<and> appended env c recs rows c' pl"
  using assms
proof (induction rows arbitrary: c recs)
  case Nil
  then show ?case using appended_Nil by fastforce
next
  case (Cons data rest)
  let ?r = "stringify env data"
  note b = cursor_holds_bounds [OF Cons.prems(1)]
  from Cons.prems(2) have fit: "8 + (2 + length ?r) \<le> PAGE_SIZE"
    and rest: "\<forall>data \<in> set rest. 8 + (2 + length (stringify env data)) \<le> PAGE_SIZE"
    by simp_all
  show ?case
  proof (cases "freeOffset c + 2 + length ?r \<le> PAGE_SIZE")
    case True
    let ?c1 = "c\<lparr>db := row_written env table data (currentPageId c) (db c),
                  pData := with_record ?r (freeOffset c) (pData c),
                  freeOffset := freeOffset c + (2 + length ?r), count := count c + 1\<rparr>"
    have s: "append_row env table data c = Inr ?c1"
      using append_row_fits [OF True b(3)] .
    have h: "cursor_holds ?c1 (recs @ [?r])"
      using cursor_holds_fits [OF Cons.prems(1) True] .
    have l: "length (pager_file (db ?c1)) + length rest \<le> 4294967295"
      using Cons.prems(3) by simp
    from Cons.IH [OF h rest l] obtain c' pl
      where r: "append_rows env table rest ?c1 = Inr c'"
        and a: "appended env ?c1 (recs @ [?r]) rest c' pl" by blast
    have "appended env c recs (data # rest) c' pl"
      by (rule appended_same_page [OF a]) simp_all
    with s r show ?thesis by auto
  next
    case False
    let ?n = "length (pager_file (db c))"
    let ?file1 = "(pager_file (db c))
                    [currentPageId c := with_next ?n (with_header (count c) (freeOffset c) (pData c))] @
                  [new_page]"
    let ?c1 = "c\<lparr>db := row_written env table data ?n ((db c)\<lparr>pager_file := ?file1\<rparr>),
                  currentPageId := ?n, pData := with_record ?r 8 new_page,
                  freeOffset := 8 + (2 + length ?r), count := 1, startPageChanged := True\<rparr>"
    from False have over: "PAGE_SIZE < freeOffset c + 2 + length ?r" by simp
    from fit have r16: "length ?r \<le> 65535" by (simp add: PAGE_SIZE_def)
    from Cons.prems(3) have n32: "?n \<le> 4294967295" by simp
    have s: "append_row env table data c = Inr ?c1"
      using append_row_next_page [OF over r16 b(1) b(2) b(3) b(4) n32] .
    have h: "cursor_holds ?c1 [?r]"
      by (rule cursor_holds_new_page [OF fit]) simp
    have l: "length (pager_file (db ?c1)) + length rest \<le> 4294967295"
      using Cons.prems(3) by simp
    from Cons.IH [OF h rest l] obtain c' pl
      where r: "append_rows env table rest ?c1 = Inr c'"
        and a: "appended env ?c1 [?r] rest c' pl" by blast
    have "appended env c recs (data # rest) c' ((currentPageId c, recs) # pl)"
      by (rule appended_new_page [OF a Cons.prems(1)]) simp_all
    with s r show ?thesis by auto
  qed
qed

text \<open>
  The claim for rows that fit a page.  On a table without triggers whose last page is
  sound and ends the chain: if the rows pass validation and the record of each fits an
  empty page, \<open>insertMany\<close> returns, and afterwards the old last page and the pages
  allocated by the insert are linked in the order of allocation, the last of them ending
  the chain; together they hold the old records of the last page followed by the records
  of the rows in order; the catalog names the last of them the last page of the table;
  and no other page of the file has changed.
\<close>

lemma insertMany_appends:
  assumes "rows \<noteq> []"
    and "findTableEntry (table_entries st) table = Some entry"
    and "validate_rows (conversions env) (db_schemas st) table rows = Inr vs"
    and "map_of (db_triggers st) table = None"
    and "readPage (pager_file st) (lastPage entry) = Inr page"
    and "page_holds page recs" and "readUInt32LE page 0 = Inr 0"
    and "\<forall>data \<in> set vs. 8 + (2 + length (stringify env data)) \<le> PAGE_SIZE"
    and "length (pager_file st) + length vs \<le> 4294967295"
  shows "\<exists>msg st' pl.
           insertMany env st table rows = Inr (msg, st') \<and>
           linked_pages (pager_file st') pl \<and>
           map fst pl = lastPage entry # [length (pager_file st) ..< length (pager_file st')] \<and>
           concat (map snd pl) = recs @ map (stringify env) vs \<and>
           findTableEntry (table_entries st') table = Some (entry\<lparr>lastPage := fst (last pl)\<rparr>) \<and>
           (\<forall>i < length (pager_file st).
              i \<noteq> lastPage entry \<longrightarrow> pager_file st' ! i = pager_file st ! i)"
proof -
  let ?lp = "lastPage entry" and ?n = "length (pager_file st)"
  let ?c0 = "\<lparr>db = st, currentPageId = ?lp, pData = page,
               freeOffset = 8 + length (recs_bytes recs), count = length recs,
               startPageChanged = False\<rparr>"
  from assms(5) have lp: "?lp < ?n" by (simp add: readPage_Inr)
  from assms(6) have rd: "readUInt16LE page 6 = Inr (8 + length (recs_bytes recs))"
    "readUInt16LE page 4 = Inr (length recs)"
    by (simp_all add: page_holds_def)
  have h0: "cursor_holds ?c0 recs"
    using assms(6,7) lp by (simp add: cursor_holds_def page_holds_def)
  have b0: "length (pager_file (db ?c0)) + length vs \<le> 4294967295"
    using assms(9) by simp
  from append_rows_appended [OF h0 assms(8) b0, of table] obtain c' pl
    where run: "append_rows env table vs ?c0 = Inr c'" and a: "appended env ?c0 recs vs c' pl"
    by blast
  let ?file' = "pager_file (db c')"
  from a have lk: "linked_pages (flushed c') pl"
    and ids: "map fst pl = ?lp # [?n ..< length ?file']"
    and recs: "concat (map snd pl) = recs @ map (stringify env) vs"
    and ch: "cursor_holds c' (snd (last pl))" and cl: "currentPageId c' = fst (last pl)"
    and len: "?n \<le> length ?file'"
    and frame: "\<forall>i < ?n. i \<noteq> ?lp \<longrightarrow> ?file' ! i = pager_file st ! i"
    and spc: "startPageChanged c' = (?n < length ?file')"
    and ent: "table_entries (db c') = table_entries st" "db_triggers (db c') = db_triggers st"
    by (simp_all add: appended_def)
  note b = cursor_holds_bounds [OF ch]
  have fw: "final_write c' = Inr ((db c')\<lparr>pager_file := flushed c'\<rparr>)"
    using final_write_Inr [of c'] b by (simp add: flushed_def PAGE_SIZE_def)
  let ?st3 = "(db c')\<lparr>pager_file := flushed c',
                     table_entries := (if startPageChanged c'
                                       then updateTableLastPage (table_entries st) table (currentPageId c')
                                       else table_entries st)\<rparr>"
  have tr: "map_of (db_triggers ?st3) table = None" using assms(4) ent by simp
  from assms(3) assms(1) have vne: "vs \<noteq> []" by (cases rows) (auto split: sum.splits)
  have res: "insertMany env st table rows =
               Inr (toText (conversions env) (VNum (Fin (of_nat (length vs)))) @ '' bibit tertanam.'', ?st3)"
    unfolding insertMany_def assms(3)
    using assms(1,2,4,5) rd run fw ent tr
    by (simp add: fold_executeTriggers_none Let_def)
  from ids have ne: "pl \<noteq> []" by auto
  have last_id: "fst (last pl) = last (?lp # [?n ..< length ?file'])"
    using ids ne by (metis last_map)
  have entry': "findTableEntry (table_entries ?st3) table = Some (entry\<lparr>lastPage := fst (last pl)\<rparr>)"
  proof (cases "startPageChanged c'")
    case True
    with assms(2) cl show ?thesis by (simp add: findTableEntry_updated)
  next
    case False
    with spc len have "length ?file' = ?n" by simp
    with last_id have "fst (last pl) = ?lp" by simp
    with False assms(2) show ?thesis by simp
  qed
  have cur_ge: "fst (last pl) = ?lp \<or> ?n \<le> fst (last pl)"
  proof -
    have "last (?lp # [?n ..< length ?file']) \<in> set (?lp # [?n ..< length ?file'])"
      by (rule last_in_set) simp
    with last_id show ?thesis by auto
  qed
  have frame': "\<forall>i < ?n. i \<noteq> ?lp \<longrightarrow> pager_file ?st3 ! i = pager_file st ! i"
  proof (intro allI impI)
    fix i assume i: "i < ?n" "i \<noteq> ?lp"
    with cur_ge cl have "i \<noteq> currentPageId c'" by auto
    with frame i show "pager_file ?st3 ! i = pager_file st ! i" by (simp add: flushed_def)
  qed
  have "length (pager_file ?st3) = length ?file'" by (simp add: flushed_def)
  with res lk ids recs entry' frame'
  have "insertMany env st table rows =
          Inr (toText (conversions env) (VNum (Fin (of_nat (length vs)))) @ '' bibit tertanam.'', ?st3) \<and>
        linked_pages (pager_file ?st3) pl \<and>
        map fst pl = ?lp # [?n ..< length (pager_file ?st3)] \<and>
        concat (map snd pl) = recs @ map (stringify env) vs \<and>
        findTableEntry (table_entries ?st3) table = Some (entry\<lparr>lastPage := fst (last pl)\<rparr>) \<and>
        (\<forall>i < ?n. i \<noteq> ?lp \<longrightarrow> pager_file ?st3 ! i = pager_file st ! i)"
    by simp
  then show ?thesis
    apply -
    apply (rule exI)+
    apply assumption
    done
qed

text \<open>An instance: two short rows appended to the empty page of the table \<open>t\<close>.\<close>

definition short_rows :: "obj list" where
  "short_rows = [[(''a'', VStr ''x'')], [(''a'', VStr ''y'')]]"

lemma page_holds_new_page: "page_holds new_page []"
  by (simp add: page_holds_def new_page_header PAGE_SIZE_def)

lemma insertMany_appends_example:
  "\<exists>msg st' pl.
     insertMany plain_env one_table ''t'' short_rows = Inr (msg, st') \<and>
     linked_pages (pager_file st') pl \<and>
     map fst pl = 1 # [2 ..< length (pager_file st')] \<and>
     concat (map snd pl) = map text_row_bytes short_rows \<and>
     findTableEntry (table_entries st') ''t'' = Some (table_t\<lparr>lastPage := fst (last pl)\<rparr>) \<and>
     (\<forall>i < length (pager_file one_table).
        i \<noteq> lastPage table_t \<longrightarrow> pager_file st' ! i = pager_file one_table ! i)"
proof -
  have v: "validate_rows (conversions plain_env) (db_schemas one_table) ''t'' short_rows = Inr short_rows"
    by (rule validate_rows_no_schema) (simp add: one_table_def)
  have s: "\<forall>data \<in> set short_rows. 8 + (2 + length (stringify plain_env data)) \<le> PAGE_SIZE"
    by (simp add: short_rows_def plain_env_def text_row_bytes_def PAGE_SIZE_def)
  have n: "short_rows \<noteq> []" "length (pager_file one_table) + length short_rows \<le> 4294967295"
    by (simp_all add: short_rows_def one_table_facts)
  from insertMany_appends [OF n(1) one_table_facts(1) v one_table_facts(3,4) page_holds_new_page
      new_page_header(3) s n(2)]
  show ?thesis
    by (simp add: one_table_facts table_t_def plain_env_def)
qed
end
